(* ===== verification/Prelude.thy ===== *)
theory Prelude
  imports Main "HOL-Library.Word"
begin

text \<open>
  The vocabulary the components share: machine integers at their Rust widths, byte strings,
  the result type of fallible Rust code, and the computations of the asynchronous functions.

  A Rust value of type \<open>&[u8]\<close>, \<open>Vec<u8>\<close>, \<open>&str\<close> or \<open>String\<close> is a list of bytes; a Rust
  string is a list that satisfies \<open>utf8_valid\<close>. The target is a 64-bit one: \<open>usize\<close> is
  \<open>u64\<close>, and lengths are \<open>nat\<close> values below \<open>2 ^ 64\<close>.

  A fallible function returns \<open>'a result\<close>: \<open>Ok\<close>, \<open>Err\<close> with an error value (each user of
  the type fixes the type of errors), or \<open>Panic\<close>, so that every \<open>?\<close>, \<open>return Err\<close>,
  \<open>unwrap\<close> and slice bound of the source is a branch of the model.

  An asynchronous function over a state of type \<open>'s\<close> is a value of type
  \<open>('e, 's, 'a) io\<close>: from a state to a result and a state, or to \<open>None\<close> when it never returns.
\<close>

unbundle bit_operations_syntax

named_theorems io_simps \<open>definitions of the io combinators, for symbolic execution\<close>
named_theorems io_Ok \<open>when a composed computation returns Ok\<close>
named_theorems io_Panic \<open>when a composed computation panics\<close>

section \<open>Machine integers and byte strings\<close>

type_synonym u8 = "8 word"
type_synonym u16 = "16 word"
type_synonym u32 = "32 word"
type_synonym u64 = "64 word"
type_synonym bytes = "u8 list"

text \<open>Checked arithmetic of the standard library.\<close>

definition checked_sub :: "'a::len word \<Rightarrow> 'a word \<Rightarrow> 'a word option" where
  "checked_sub a b = (if b \<le> a then Some (a - b) else None)"

definition checked_add :: "'a::len word \<Rightarrow> 'a word \<Rightarrow> 'a word option" where
  "checked_add a b = (if unat a + unat b < 2 ^ LENGTH('a) then Some (a + b) else None)"

definition nat_checked_sub :: "nat \<Rightarrow> nat \<Rightarrow> nat option" where
  "nat_checked_sub a b = (if b \<le> a then Some (a - b) else None)"

definition u64_max :: nat where
  "u64_max = 2 ^ 64 - 1"

lemma u8_less: "unat (b :: u8) < 256"
  by (rule order_less_le_trans, rule unsigned_less) simp

lemma unat_of_nat_u64: "n < 2 ^ 64 \<Longrightarrow> unat (word_of_nat n :: u64) = n"
  by (simp add: unsigned_of_nat take_bit_nat_eq_self_iff)

text \<open>Narrowing and widening again loses nothing when the value fits.\<close>

lemma unat_ucast_fits:
  fixes w :: "'a::len word"
  assumes "unat w < 2 ^ LENGTH('b::len)"
  shows "unat (ucast w :: 'b word) = unat w"
proof -
  have "unat (ucast w :: 'b word) = take_bit LENGTH('b) (unat w)"
    by (rule unsigned_ucast_eq)
  with assms show ?thesis by (simp add: take_bit_nat_eq_self_iff)
qed

lemma ucast_down_up:
  fixes w :: "'a::len word"
  assumes "unat w < 2 ^ LENGTH('b::len)"
  shows "ucast (ucast w :: 'b word) = w"
proof -
  have "unat w < 2 ^ LENGTH('a)" by (rule unsigned_less)
  with assms have "unat (ucast (ucast w :: 'b word) :: 'a word) = unat w"
    by (simp add: unat_ucast_fits)
  then show ?thesis by (simp add: word_unat_eq_iff)
qed

text \<open>A Rust string or byte-string literal.\<close>

definition lit :: "string \<Rightarrow> bytes" where
  "lit s = map of_char s"

lemma lit_simps [simp]:
  "lit [] = []" "lit (c # cs) = of_char c # lit cs" "lit (s @ t) = lit s @ lit t"
  by (simp_all add: lit_def)

lemma length_lit [simp]: "length (lit s) = length s"
  by (simp add: lit_def)

section \<open>Results\<close>

datatype ('e, 'a) result = Ok (ok_val: 'a) | Err (err_val: 'e) | Panic

fun is_Ok :: "('e, 'a) result \<Rightarrow> bool" where
  "is_Ok (Ok _) = True"
| "is_Ok _ = False"

fun map_ok :: "('a \<Rightarrow> 'b) \<Rightarrow> ('e, 'a) result \<Rightarrow> ('e, 'b) result" where
  "map_ok f (Ok x) = Ok (f x)"
| "map_ok f (Err e) = Err e"
| "map_ok f Panic = Panic"

fun res_bind :: "('e, 'a) result \<Rightarrow> ('a \<Rightarrow> ('e, 'b) result) \<Rightarrow> ('e, 'b) result" where
  "res_bind (Ok x) f = f x"
| "res_bind (Err e) f = Err e"
| "res_bind Panic f = Panic"

lemma res_bind_Ok_iff [io_Ok]:
  "res_bind m f = Ok y \<longleftrightarrow> (\<exists>x. m = Ok x \<and> f x = Ok y)"
  by (cases m) auto

lemma map_ok_Ok_iff [io_Ok]: "map_ok f m = Ok y \<longleftrightarrow> (\<exists>x. m = Ok x \<and> f x = y)"
  by (cases m) auto

text \<open>The question mark operator on an \<open>Option\<close> with an error given.\<close>

definition ok_or :: "'e \<Rightarrow> 'a option \<Rightarrow> ('e, 'a) result" where
  "ok_or e v = (case v of Some x \<Rightarrow> Ok x | None \<Rightarrow> Err e)"

lemma ok_or_simps [simp]: "ok_or e (Some x) = Ok x" "ok_or e None = Err e"
  by (simp_all add: ok_or_def)

section \<open>Computations over a state\<close>

type_synonym ('e, 's, 'a) io = "'s \<Rightarrow> (('e, 'a) result \<times> 's) option"

definition io_return :: "'a \<Rightarrow> ('e, 's, 'a) io" where
  [io_simps]: "io_return x s = Some (Ok x, s)"

definition io_throw :: "'e \<Rightarrow> ('e, 's, 'a) io" where
  [io_simps]: "io_throw e s = Some (Err e, s)"

definition io_panic :: "('e, 's, 'a) io" where
  [io_simps]: "io_panic s = Some (Panic, s)"

definition io_lift :: "('e, 'a) result \<Rightarrow> ('e, 's, 'a) io" where
  [io_simps]: "io_lift r s = Some (r, s)"

definition io_get :: "('s \<Rightarrow> 'a) \<Rightarrow> ('e, 's, 'a) io" where
  [io_simps]: "io_get f s = Some (Ok (f s), s)"

definition io_modify :: "('s \<Rightarrow> 's) \<Rightarrow> ('e, 's, unit) io" where
  [io_simps]: "io_modify f s = Some (Ok (), f s)"

definition io_bind :: "('e, 's, 'a) io \<Rightarrow> ('a \<Rightarrow> ('e, 's, 'b) io) \<Rightarrow> ('e, 's, 'b) io" where
  "io_bind m f s = Option.bind (m s) (\<lambda>(r, s').
     case r of Ok x \<Rightarrow> f x s' | Err e \<Rightarrow> Some (Err e, s') | Panic \<Rightarrow> Some (Panic, s'))"

text \<open>A computation on a component of the state: a call on a field of \<open>self\<close>.\<close>

definition io_zoom :: "('s \<Rightarrow> 't) \<Rightarrow> ('t \<Rightarrow> 's \<Rightarrow> 's) \<Rightarrow> ('e, 't, 'a) io \<Rightarrow> ('e, 's, 'a) io" where
  "io_zoom view put m s = map_option (\<lambda>(r, t). (r, put t s)) (m (view s))"

lemma io_bind_eqs [simp]:
  "m s = Some (Ok x, s') \<Longrightarrow> io_bind m f s = f x s'"
  "m s = Some (Err e, s') \<Longrightarrow> io_bind m f s = Some (Err e, s')"
  "m s = Some (Panic, s') \<Longrightarrow> io_bind m f s = Some (Panic, s')"
  "m s = None \<Longrightarrow> io_bind m f s = None"
  by (simp_all add: io_bind_def)

lemma io_bind_basic [io_simps]:
  "io_bind (io_return x) f s = f x s"
  "io_bind (io_throw e) f s = Some (Err e, s)"
  "io_bind io_panic f s = Some (Panic, s)"
  "io_bind (io_get g) f s = f (g s) s"
  "io_bind (io_modify h) k s = k () (h s)"
  by (simp_all add: io_return_def io_throw_def io_panic_def io_get_def io_modify_def)

lemma io_bind_lift [io_simps]:
  "io_bind (io_lift r) f s =
     (case r of Ok x \<Rightarrow> f x s | Err e \<Rightarrow> Some (Err e, s) | Panic \<Rightarrow> Some (Panic, s))"
  by (cases r) (simp_all add: io_lift_def)

lemma io_zoom_eqs [simp]:
  "m (view s) = Some (r, t) \<Longrightarrow> io_zoom view put m s = Some (r, put t s)"
  "m (view s) = None \<Longrightarrow> io_zoom view put m s = None"
  by (simp_all add: io_zoom_def)

lemma io_bind_Ok_iff [io_Ok]:
  "io_bind m f s = Some (Ok y, t) \<longleftrightarrow>
     (\<exists>x s'. m s = Some (Ok x, s') \<and> f x s' = Some (Ok y, t))"
  by (cases "m s"; cases "fst (the (m s))") (auto simp: io_bind_def)

lemma io_zoom_Ok_iff [io_Ok]:
  "io_zoom view put m s = Some (r, s') \<longleftrightarrow> (\<exists>t. m (view s) = Some (r, t) \<and> s' = put t s)"
  by (auto simp: io_zoom_def)

lemma io_basic_Ok_iff [io_Ok]:
  "io_return x s = Some (Ok y, t) \<longleftrightarrow> y = x \<and> t = s"
  "io_throw e s = Some (Ok y, t) \<longleftrightarrow> False"
  "io_panic s = Some (Ok y, t) \<longleftrightarrow> False"
  "io_get g s = Some (Ok v, t) \<longleftrightarrow> v = g s \<and> t = s"
  "io_modify h s = Some (Ok u, t) \<longleftrightarrow> t = h s"
  "io_lift r s = Some (Ok y, t) \<longleftrightarrow> r = Ok y \<and> t = s"
  by (auto simp: io_return_def io_throw_def io_panic_def io_get_def io_modify_def io_lift_def)

lemma io_bind_Panic_iff [io_Panic]:
  "io_bind m f s = Some (Panic, t) \<longleftrightarrow>
     m s = Some (Panic, t) \<or> (\<exists>x s'. m s = Some (Ok x, s') \<and> f x s' = Some (Panic, t))"
  by (cases "m s"; cases "fst (the (m s))") (auto simp: io_bind_def)

lemma io_basic_Panic_iff [io_Panic]:
  "io_return x s = Some (Panic, t) \<longleftrightarrow> False"
  "io_throw e s = Some (Panic, t) \<longleftrightarrow> False"
  "io_panic s = Some (Panic, t) \<longleftrightarrow> t = s"
  "io_get g s = Some (Panic, t) \<longleftrightarrow> False"
  "io_modify h s = Some (Panic, t) \<longleftrightarrow> False"
  "io_lift r s = Some (Panic, t) \<longleftrightarrow> r = Panic \<and> t = s"
  by (auto simp: io_return_def io_throw_def io_panic_def io_get_def io_modify_def io_lift_def)

lemma ok_or_not_Panic [simp]: "ok_or e v \<noteq> Panic"
  by (cases v) simp_all

lemma map_ok_Panic_iff [io_Panic]: "map_ok f m = Panic \<longleftrightarrow> m = Panic"
  by (cases m) auto

text \<open>Sequencing is monotone, so a loop may call itself in either argument.\<close>

lemma io_bind_mono [partial_function_mono]:
  assumes "\<And>s. mono_option (\<lambda>f. B f s)" and "\<And>y s. mono_option (\<lambda>f. C y f s)"
  shows "mono_option (\<lambda>f. io_bind (B f) (\<lambda>y. C y f) s)"
proof -
  have "mono_option (\<lambda>f. case r of (r, s') \<Rightarrow>
      (case r of Ok x \<Rightarrow> C x f s' | Err e \<Rightarrow> Some (Err e, s') | Panic \<Rightarrow> Some (Panic, s')))" for r
    using assms(2)
    by (cases r; cases "fst r") (simp_all add: option.const_mono)
  from bind_mono [OF assms(1) this] show ?thesis
    unfolding io_bind_def by simp
qed

text \<open>A branch of the code chosen before the state is applied.\<close>

lemma if_apply_mono [partial_function_mono]:
  assumes "mono_option (\<lambda>f. A f s)" and "mono_option (\<lambda>f. B f s)"
  shows "mono_option (\<lambda>f. (if c then A f else B f) s)"
  using assms by (cases c) simp_all

lemma option_apply_mono [partial_function_mono]:
  assumes "mono_option (\<lambda>f. A f s)" and "\<And>x. mono_option (\<lambda>f. B x f s)"
  shows "mono_option (\<lambda>f. (case v of None \<Rightarrow> A f | Some x \<Rightarrow> B x f) s)"
  using assms by (cases v) simp_all

lemma prod_apply_mono [partial_function_mono]:
  assumes "\<And>x y. mono_option (\<lambda>f. B x y f s)"
  shows "mono_option (\<lambda>f. (case v of (x, y) \<Rightarrow> B x y f) s)"
  using assms by (cases v) simp_all

end
