(* ===== verification/Errors.thy ===== *)
theory Errors
  imports Prelude
begin

text \<open>
  The error values of the library: \<open>src/src/error.rs\<close>, \<open>src/src/ws/errors.rs\<close>,
  \<open>src/src/http/error.rs\<close> and the \<open>DnsError\<close> of \<open>src/src/dns/mod.rs\<close>, together with the data
  they carry (the HTTP version; the DNS names, records and questions of the \<open>simple_dns\<close>
  package, with the fields the source reads). \<open>error\<close> is the \<open>xx_core\<close> error every one of them
  converts into; an error made by a package or by the system is a \<open>Foreign\<close> code.
\<close>

section \<open>HTTP versions (http/mod.rs)\<close>

datatype Version = Http09 | Http10 | Http11 | Http20 | Http30

fun version_code :: "Version \<Rightarrow> nat" where
  "version_code Http09 = 9"
| "version_code Http10 = 10"
| "version_code Http11 = 11"
| "version_code Http20 = 20"
| "version_code Http30 = 30"

fun version_str :: "Version \<Rightarrow> bytes" where
  "version_str Http09 = lit ''HTTP/0.9''"
| "version_str Http10 = lit ''HTTP/1.0''"
| "version_str Http11 = lit ''HTTP/1.1''"
| "version_str Http20 = lit ''HTTP/2.0''"
| "version_str Http30 = lit ''HTTP/3.0''"

text \<open>The derived order compares discriminants.\<close>

instantiation Version :: linorder
begin

definition less_eq_Version :: "Version \<Rightarrow> Version \<Rightarrow> bool" where
  "less_eq_Version a b \<longleftrightarrow> version_code a \<le> version_code b"

definition less_Version :: "Version \<Rightarrow> Version \<Rightarrow> bool" where
  "less_Version a b \<longleftrightarrow> version_code a < version_code b"

instance
proof
  fix x y z :: Version
  show "(x < y) = (x \<le> y \<and> \<not> y \<le> x)"
    by (auto simp: less_Version_def less_eq_Version_def)
  show "x \<le> x" by (simp add: less_eq_Version_def)
  show "x \<le> y \<Longrightarrow> y \<le> z \<Longrightarrow> x \<le> z" by (simp add: less_eq_Version_def)
  show "x \<le> y \<Longrightarrow> y \<le> x \<Longrightarrow> x = y"
    by (cases x; cases y) (simp_all add: less_eq_Version_def)
  show "x \<le> y \<or> y \<le> x" by (auto simp: less_eq_Version_def)
qed

end

text \<open>\<open>FromPrimitive\<close> maps a discriminant back to its variant.\<close>

definition version_from_u32 :: "nat \<Rightarrow> Version option" where
  "version_from_u32 n = List.find (\<lambda>v. version_code v = n) [Http09, Http10, Http11, Http20, Http30]"

lemma version_from_u32_Some: "version_from_u32 n = Some v \<longleftrightarrow> version_code v = n"
  by (cases v) (auto simp: version_from_u32_def)

section \<open>DNS data of the simple\_dns package\<close>

type_synonym dns_name = "bytes list"

datatype record_type = TYPE_A | TYPE_AAAA | TYPE_Other u16
datatype dns_class = CLASS_IN | CLASS_Other u16
datatype query_type = QTYPE_TYPE record_type | QTYPE_Other u16
datatype query_class = QCLASS_CLASS dns_class | QCLASS_ANY
datatype response_code = NoError | RCODE_Other u16

datatype rdata = RData_A u32 | RData_AAAA "128 word" | RData_Other u16 bytes

fun type_code :: "rdata \<Rightarrow> record_type" where
  "type_code (RData_A _) = TYPE_A"
| "type_code (RData_AAAA _) = TYPE_AAAA"
| "type_code (RData_Other t _) = TYPE_Other t"

record dns_record =
  rec_name :: dns_name
  rec_class :: dns_class
  rec_ttl :: u32
  rec_data :: rdata

record question =
  qname :: dns_name
  qtype :: query_type
  qclass :: query_class
  unicast_response :: bool

section \<open>Errors\<close>

datatype error_kind = KShutdown | KUnexpectedEof | KWouldBlock

datatype ws_error =
    ServerRejected | InvalidClientRequest | HandshakeTimeout | InvalidKey | InvalidOpcode
  | InvalidControlFrame string
  | ExpectedContinuation | UnexpectedContinuation | ServerMasked | MessageTooLong
  | UserInvalidControlFrame | DataTypeMismatch

datatype header_repr = HString bytes | HBytes bytes

datatype http_error =
    HeadersTooLong
  | InvalidStatusLine bytes
  | InvalidHeaderName header_repr
  | InvalidHeaderValue header_repr
  | InvalidHeader bytes bytes
  | ChunkTooLarge
  | UnexpectedVersion Version

datatype url_error =
    InvalidRequest
  | InvalidUrl nat
  | InvalidScheme bytes
  | PartialFile
  | InvalidRedirectUrl bytes
  | RedirectForbidden bytes
  | DnsTimedOut

datatype dns_error =
    NoData
  | NoRecords "question list" "dns_record option" response_code
  | OtherDns nat

datatype error =
    Kind error_kind
  | WebSocketE ws_error
  | HttpE http_error
  | UrlE url_error
  | DnsE dns_error
  | InvalidUtf8
  | NoAddresses
  | ConnectTimeout
  | EofDuringHandshake
  | Foreign nat

type_synonym 'a res = "(error, 'a) result"
type_synonym ('s, 'a) act = "(error, 's, 'a) io"

end
