(* ===== verification/Text.thy ===== *)
theory Text
  imports Errors
begin

text \<open>
  The string functions of the standard library the source calls, on the byte lists that stand for
  Rust strings.
\<close>

section \<open>UTF-8 (from\_utf8)\<close>

definition in_range :: "u8 \<Rightarrow> u8 \<Rightarrow> u8 \<Rightarrow> bool" where
  "in_range lo hi b \<longleftrightarrow> lo \<le> b \<and> b \<le> hi"

fun utf8_valid :: "bytes \<Rightarrow> bool" where
  "utf8_valid [] = True"
| "utf8_valid (b # bs) =
     (if b < 0x80 then utf8_valid bs
      else if in_range 0xC2 0xDF b then
        (case bs of c1 # cs \<Rightarrow> in_range 0x80 0xBF c1 \<and> utf8_valid cs | _ \<Rightarrow> False)
      else if in_range 0xE0 0xEF b then
        (case bs of c1 # c2 # cs \<Rightarrow>
           in_range (if b = 0xE0 then 0xA0 else 0x80) (if b = 0xED then 0x9F else 0xBF) c1
             \<and> in_range 0x80 0xBF c2 \<and> utf8_valid cs
         | _ \<Rightarrow> False)
      else if in_range 0xF0 0xF4 b then
        (case bs of c1 # c2 # c3 # cs \<Rightarrow>
           in_range (if b = 0xF0 then 0x90 else 0x80) (if b = 0xF4 then 0x8F else 0xBF) c1
             \<and> in_range 0x80 0xBF c2 \<and> in_range 0x80 0xBF c3 \<and> utf8_valid cs
         | _ \<Rightarrow> False)
      else False)"

lemma utf8_ascii: "\<forall>b\<in>set bs. b < 0x80 \<Longrightarrow> utf8_valid bs"
  by (induction bs) auto

lemma utf8_ascii_append: "\<forall>b\<in>set bs. b < 0x80 \<Longrightarrow> utf8_valid (bs @ cs) \<longleftrightarrow> utf8_valid cs"
  by (induction bs) auto

section \<open>Searching and splitting\<close>

text \<open>The first position of a byte.\<close>

fun position :: "('a \<Rightarrow> bool) \<Rightarrow> 'a list \<Rightarrow> nat option" where
  "position P [] = None"
| "position P (x # xs) = (if P x then Some 0 else map_option Suc (position P xs))"

lemma position_None: "position P xs = None \<longleftrightarrow> (\<forall>x\<in>set xs. \<not> P x)"
  by (induction xs) auto

lemma position_append:
  "\<forall>x\<in>set xs. \<not> P x \<Longrightarrow> position P (xs @ ys) = map_option (\<lambda>i. length xs + i) (position P ys)"
  by (induction xs) (auto simp: option.map_comp comp_def option.map_ident cong: option.map_cong)

lemma position_hit: "\<forall>x\<in>set xs. \<not> P x \<Longrightarrow> P y \<Longrightarrow> position P (xs @ y # ys) = Some (length xs)"
  by (simp add: position_append)

lemma position_Some:
  "position P xs = Some i \<longleftrightarrow> i < length xs \<and> P (xs ! i) \<and> (\<forall>j<i. \<not> P (xs ! j))"
proof (induction xs arbitrary: i)
  case (Cons x xs)
  then show ?case by (cases i) (auto simp: less_Suc_eq_0_disj)
qed simp

lemma position_less: "position P xs = Some i \<Longrightarrow> i < length xs"
  by (simp add: position_Some)

text \<open>\<open>str::split\<close> on a character: its items, in order.\<close>

fun split_on :: "u8 \<Rightarrow> bytes \<Rightarrow> bytes list" where
  "split_on c [] = [[]]"
| "split_on c (x # xs) = (if x = c then [] # split_on c xs
     else case split_on c xs of [] \<Rightarrow> [[x]] | y # ys \<Rightarrow> (x # y) # ys)"

lemma split_on_Nil [simp]: "split_on c xs \<noteq> []"
  by (induction xs) (auto split: list.split)

lemma split_on_none: "c \<notin> set xs \<Longrightarrow> split_on c xs = [xs]"
  by (induction xs) auto

lemma split_on_append: "c \<notin> set xs \<Longrightarrow> split_on c (xs @ c # ys) = xs # split_on c ys"
  by (induction xs) auto

fun split_once :: "u8 \<Rightarrow> bytes \<Rightarrow> (bytes \<times> bytes) option" where
  "split_once c [] = None"
| "split_once c (x # xs) = (if x = c then Some ([], xs)
     else map_option (\<lambda>(a, b). (x # a, b)) (split_once c xs))"

lemma split_once_append: "c \<notin> set xs \<Longrightarrow> split_once c (xs @ c # ys) = Some (xs, ys)"
  by (induction xs) auto

lemma split_once_none: "split_once c xs = None \<longleftrightarrow> c \<notin> set xs"
  by (induction xs) auto

definition strip_suffix :: "u8 \<Rightarrow> bytes \<Rightarrow> bytes option" where
  "strip_suffix c xs = (if xs \<noteq> [] \<and> last xs = c then Some (butlast xs) else None)"

lemma strip_suffix_snoc [simp]: "strip_suffix c (xs @ [x]) = (if x = c then Some xs else None)"
  by (simp add: strip_suffix_def)

section \<open>White space\<close>

text \<open>
  The number of bytes of the character at the start when that character is Unicode white space,
  0 otherwise: the controls 9 to 13, the space, and U+0085, U+00A0, U+1680, U+2000 to U+200A,
  U+2028, U+2029, U+202F, U+205F, U+3000. \<open>space_end\<close> is the same for the last character, on the
  reversed string.
\<close>

definition ascii_space :: "u8 \<Rightarrow> bool" where
  "ascii_space b \<longleftrightarrow> in_range 9 13 b \<or> b = 0x20"

definition wide_space :: "u8 \<Rightarrow> u8 \<Rightarrow> u8 \<Rightarrow> bool" where
  "wide_space a b c \<longleftrightarrow> a = 0xE1 \<and> b = 0x9A \<and> c = 0x80
     \<or> a = 0xE2 \<and> b = 0x80 \<and> (in_range 0x80 0x8A c \<or> c \<in> {0xA8, 0xA9, 0xAF})
     \<or> a = 0xE2 \<and> b = 0x81 \<and> c = 0x9F
     \<or> a = 0xE3 \<and> b = 0x80 \<and> c = 0x80"

definition space_start :: "bytes \<Rightarrow> nat" where
  "space_start xs = (case xs of
     a # t \<Rightarrow> if ascii_space a then 1 else
       (case t of
          b # u \<Rightarrow> if a = 0xC2 \<and> b \<in> {0x85, 0xA0} then 2 else
            (case u of c # _ \<Rightarrow> if wide_space a b c then 3 else 0 | [] \<Rightarrow> 0)
        | [] \<Rightarrow> 0)
   | [] \<Rightarrow> 0)"

definition space_end :: "bytes \<Rightarrow> nat" where
  "space_end xs = (case xs of
     c # t \<Rightarrow> if ascii_space c then 1 else
       (case t of
          b # u \<Rightarrow> if b = 0xC2 \<and> c \<in> {0x85, 0xA0} then 2 else
            (case u of a # _ \<Rightarrow> if wide_space a b c then 3 else 0 | [] \<Rightarrow> 0)
        | [] \<Rightarrow> 0)
   | [] \<Rightarrow> 0)"

lemma space_Nil: "space_start [] = 0" "space_end [] = 0"
  by (simp_all add: space_start_def space_end_def)

function trim_while :: "(bytes \<Rightarrow> nat) \<Rightarrow> bytes \<Rightarrow> bytes" where
  "trim_while f xs = (if xs = [] \<or> f xs = 0 then xs else trim_while f (drop (f xs) xs))"
  by pat_completeness auto
termination by (relation "measure (\<lambda>(f, xs). length xs)") auto

declare trim_while.simps [simp del]

definition trim_start :: "bytes \<Rightarrow> bytes" where
  "trim_start xs = trim_while space_start xs"

definition trim_end :: "bytes \<Rightarrow> bytes" where
  "trim_end xs = rev (trim_while space_end (rev xs))"

definition trim :: "bytes \<Rightarrow> bytes" where
  "trim xs = trim_end (trim_start xs)"

lemma trim_while_stop: "f xs = 0 \<Longrightarrow> trim_while f xs = xs"
  by (subst trim_while.simps) simp

lemma trim_while_step: "f xs \<noteq> 0 \<Longrightarrow> xs \<noteq> [] \<Longrightarrow> trim_while f xs = trim_while f (drop (f xs) xs)"
  by (subst trim_while.simps) simp

text \<open>Visible ASCII characters are left alone.\<close>

definition visible :: "u8 \<Rightarrow> bool" where
  "visible b \<longleftrightarrow> in_range 0x21 0x7E b"

lemma visible_not_space: "visible b \<Longrightarrow> \<not> ascii_space b" "visible b \<Longrightarrow> b < 0x80"
  by (auto simp: visible_def ascii_space_def in_range_def word_le_nat_alt word_less_nat_alt)

lemma space_start_visible: "visible b \<Longrightarrow> space_start (b # xs) = 0"
  by (auto simp: space_start_def visible_not_space wide_space_def visible_def in_range_def
      word_le_nat_alt split: list.split)

lemma space_end_visible: "visible b \<Longrightarrow> space_end (b # xs) = 0"
  by (auto simp: space_end_def visible_not_space wide_space_def visible_def in_range_def
      word_le_nat_alt split: list.split)

lemma trim_start_visible [simp]: "visible b \<Longrightarrow> trim_start (b # xs) = b # xs"
  by (simp add: trim_start_def trim_while_stop space_start_visible)

lemma trim_start_Nil [simp]: "trim_start [] = []"
  by (simp add: trim_start_def trim_while_stop space_Nil)

lemma trim_start_space [simp]: "trim_start (0x20 # xs) = trim_start xs"
proof -
  have "space_start (0x20 # xs) = 1" by (simp add: space_start_def ascii_space_def)
  then show ?thesis by (simp add: trim_start_def trim_while_step)
qed

lemma trim_end_visible [simp]: "visible b \<Longrightarrow> trim_end (xs @ [b]) = xs @ [b]"
  by (simp add: trim_end_def trim_while_stop space_end_visible)

lemma trim_visible:
  assumes "\<forall>b\<in>set xs. visible b"
  shows "trim xs = xs"
proof (cases xs)
  case Nil
  then show ?thesis by (simp add: trim_def trim_end_def trim_while_stop space_Nil)
next
  case (Cons b bs)
  obtain ys z where "xs = ys @ [z]" using Cons by (metis list.distinct(1) rev_exhaust)
  then have "visible z" using assms by simp
  moreover have "visible b" using Cons assms by simp
  ultimately show ?thesis
    unfolding trim_def using Cons \<open>xs = ys @ [z]\<close> trim_end_visible [of z ys] by simp
qed

section \<open>Case and numbers\<close>

definition ascii_lower :: "u8 \<Rightarrow> u8" where
  "ascii_lower b = (if in_range 0x41 0x5A b then b + 0x20 else b)"

definition eq_ignore_ascii_case :: "bytes \<Rightarrow> bytes \<Rightarrow> bool" where
  "eq_ignore_ascii_case xs ys \<longleftrightarrow> map ascii_lower xs = map ascii_lower ys"

lemma eq_ignore_ascii_case_refl [simp]: "eq_ignore_ascii_case xs xs"
  by (simp add: eq_ignore_ascii_case_def)

text \<open>\<open>char::to_digit\<close> of a byte.\<close>

definition to_digit :: "nat \<Rightarrow> u8 \<Rightarrow> nat option" where
  "to_digit radix b =
     (let v = (if in_range 0x30 0x39 b then unat b - 0x30
               else if in_range 0x61 0x7A b then unat b - 0x57
               else if in_range 0x41 0x5A b then unat b - 0x37
               else radix)
      in if v < radix then Some v else None)"

definition ascii_hexdigit :: "u8 \<Rightarrow> bool" where
  "ascii_hexdigit b \<longleftrightarrow> in_range 0x30 0x39 b \<or> in_range 0x41 0x46 b \<or> in_range 0x61 0x66 b"

fun radix_value :: "nat \<Rightarrow> nat \<Rightarrow> bytes \<Rightarrow> nat option" where
  "radix_value radix acc [] = Some acc"
| "radix_value radix acc (b # bs) =
     (case to_digit radix b of None \<Rightarrow> None | Some d \<Rightarrow> radix_value radix (acc * radix + d) bs)"

text \<open>\<open>u64::from_str_radix\<close>: one plus sign may come first; no digit, another character and
  overflow are errors. \<open>str::parse\<close> is base 10.\<close>

definition u64_from_str_radix :: "nat \<Rightarrow> bytes \<Rightarrow> u64 option" where
  "u64_from_str_radix radix bs =
     (let ds = (case bs of b # t \<Rightarrow> if b = 0x2B then t else bs | [] \<Rightarrow> []) in
      if ds = [] then None
      else case radix_value radix 0 ds of
        None \<Rightarrow> None
      | Some v \<Rightarrow> if v \<le> u64_max then Some (word_of_nat v) else None)"

definition u64_parse :: "bytes \<Rightarrow> u64 option" where
  "u64_parse bs = u64_from_str_radix 10 bs"

text \<open>The digits of a number, most significant first.\<close>

definition digit_char :: "nat \<Rightarrow> u8" where
  "digit_char d = (if d < 10 then word_of_nat (0x30 + d) else word_of_nat (0x57 + d))"

fun digits :: "nat \<Rightarrow> nat \<Rightarrow> bytes" where
  "digits radix v = (if radix < 2 \<or> v < radix then [digit_char v]
     else digits radix (v div radix) @ [digit_char (v mod radix)])"

declare digits.simps [simp del]

lemma unat_digit_char: "d < 36 \<Longrightarrow> unat (digit_char d) = (if d < 10 then 0x30 + d else 0x57 + d)"
  by (simp add: digit_char_def unsigned_of_nat take_bit_nat_eq_self_iff del: of_nat_add)

lemma to_digit_char: "d < radix \<Longrightarrow> radix \<le> 36 \<Longrightarrow> to_digit radix (digit_char d) = Some d"
  by (auto simp: to_digit_def in_range_def word_le_nat_alt unat_digit_char)

lemma radix_value_append:
  "radix_value radix acc (xs @ ys) =
     (case radix_value radix acc xs of None \<Rightarrow> None | Some v \<Rightarrow> radix_value radix v ys)"
  by (induction xs arbitrary: acc) (auto split: option.split)

lemma radix_value_digits:
  assumes "2 \<le> radix" and "radix \<le> 36"
  shows "radix_value radix 0 (digits radix v) = Some v"
proof (induction v rule: less_induct)
  case (less v)
  show ?case
  proof (cases "v < radix")
    case True
    then show ?thesis using assms by (subst digits.simps) (simp add: to_digit_char)
  next
    case False
    then have "radix_value radix 0 (digits radix (v div radix)) = Some (v div radix)"
      using assms by (intro less.IH) (simp add: div_less_dividend)
    then show ?thesis using False assms
      by (subst digits.simps) (simp add: radix_value_append to_digit_char)
  qed
qed

lemma digits_Nil [simp]: "digits radix v \<noteq> []"
  by (subst digits.simps) auto

lemma digit_char_hex: "d < 16 \<Longrightarrow> ascii_hexdigit (digit_char d)"
  by (auto simp: ascii_hexdigit_def in_range_def word_le_nat_alt unat_digit_char)

lemma digits_hex: "\<forall>b\<in>set (digits 16 v). ascii_hexdigit b"
proof (induction v rule: less_induct)
  case (less v)
  have "\<not> v < 16 \<Longrightarrow> \<forall>b\<in>set (digits 16 (v div 16)). ascii_hexdigit b"
    using less.IH [of "v div 16"] by simp
  then show ?case by (subst digits.simps) (auto simp: digit_char_hex)
qed

lemma hd_digits: "hd (digits radix v) \<noteq> 0x2B" if "radix \<le> 36" "2 \<le> radix"
proof (induction v rule: less_induct)
  case (less v)
  have "d < 36 \<Longrightarrow> digit_char d \<noteq> 0x2B" for d
    using unat_digit_char [of d] by (auto simp: word_unat_eq_iff split: if_splits)
  with less that show ?case by (subst digits.simps) (auto simp: hd_append)
qed

lemma length_digits: "2 \<le> radix \<Longrightarrow> v < radix ^ n \<Longrightarrow> 0 < n \<Longrightarrow> length (digits radix v) \<le> n"
proof (induction n arbitrary: v)
  case (Suc n)
  show ?case
  proof (cases "v < radix")
    case True
    then show ?thesis by (subst digits.simps) simp
  next
    case False
    then have "n \<noteq> 0" using Suc.prems by (cases n) auto
    moreover have "v div radix < radix ^ n"
      using Suc.prems by (simp add: less_mult_imp_div_less mult.commute)
    ultimately have "length (digits radix (v div radix)) \<le> n"
      using Suc.prems(1) by (intro Suc.IH) auto
    with False show ?thesis by (subst digits.simps) simp
  qed
qed simp

lemma u64_from_digits:
  assumes "2 \<le> radix" and "radix \<le> 36"
  shows "u64_from_str_radix radix (digits radix (unat v)) = Some v"
proof -
  obtain b t where d: "digits radix (unat v) = b # t" by (cases "digits radix (unat v)") auto
  moreover from this assms have "b \<noteq> 0x2B" using hd_digits [of radix "unat v"] by simp
  moreover have "unat v < 2 ^ LENGTH(64)" by (rule unsigned_less)
  then have "unat v \<le> u64_max" by (simp add: u64_max_def)
  ultimately show ?thesis
    using radix_value_digits [OF assms, of "unat v"] by (simp add: u64_from_str_radix_def)
qed

end
