(* ===== verification/Http_Headers.thy ===== *)
theory Http_Headers
  imports Text "HOL-Library.AList"
begin

text \<open>
  \<open>Headers\<close> of \<open>src/src/http/mod.rs\<close>, the wrapper around the \<open>HeaderMap\<close> of the \<open>http\<close> package.
  \<open>HeaderMap\<close>, \<open>HeaderName\<close>, \<open>HeaderValue\<close> and \<open>StatusCode\<close> are not part of the repository:
  their operations are the fields of \<open>header_lib\<close>. A \<open>HeaderName\<close> is represented by its
  \<open>as_str\<close>, a \<open>HeaderValue\<close> by its bytes, a \<open>StatusCode\<close> by its number.
\<close>

record 'm header_lib =
  hl_name :: "bytes \<Rightarrow> bytes option"
  hl_value :: "bytes \<Rightarrow> bytes option"
  hl_to_str :: "bytes \<Rightarrow> bytes option"
  hl_status :: "bytes \<Rightarrow> u16 option"
  hl_reason :: "u16 \<Rightarrow> bytes option"
  hl_new :: 'm
  hl_get :: "bytes \<Rightarrow> 'm \<Rightarrow> bytes option"
  hl_contains :: "bytes \<Rightarrow> 'm \<Rightarrow> bool"
  hl_insert :: "bytes \<Rightarrow> bytes \<Rightarrow> 'm \<Rightarrow> 'm"
  hl_remove :: "bytes \<Rightarrow> 'm \<Rightarrow> bytes option \<times> 'm"
  hl_clear :: "'m \<Rightarrow> 'm"
  hl_entries :: "'m \<Rightarrow> (bytes \<times> bytes) list"
  hl_keys :: "'m \<Rightarrow> bytes list"
  hl_values :: "'m \<Rightarrow> bytes list"
  hl_update :: "(bytes \<Rightarrow> bytes \<Rightarrow> bytes) \<Rightarrow> 'm \<Rightarrow> 'm"
  hl_drain :: "'m \<Rightarrow> (bytes \<times> bytes) list \<times> 'm"
  hl_capacity :: "'m \<Rightarrow> nat"
  hl_reserve :: "nat \<Rightarrow> 'm \<Rightarrow> 'm res"

section \<open>TryIntoHeaderName and TryIntoHeaderValue\<close>

datatype header_key = KStr bytes | KBytes bytes | KName bytes

datatype header_val = VStr bytes | VBytes bytes | VValue bytes

fun try_into_name :: "('m, 'x) header_lib_scheme \<Rightarrow> header_key \<Rightarrow> bytes res" where
  "try_into_name H (KStr s) = ok_or (HttpE (InvalidHeaderName (HString s))) (hl_name H s)"
| "try_into_name H (KBytes s) = ok_or (HttpE (InvalidHeaderName (HBytes s))) (hl_name H s)"
| "try_into_name H (KName n) = Ok n"

fun try_into_value :: "('m, 'x) header_lib_scheme \<Rightarrow> header_val \<Rightarrow> bytes res" where
  "try_into_value H (VStr s) = ok_or (HttpE (InvalidHeaderValue (HString s))) (hl_value H s)"
| "try_into_value H (VBytes s) = ok_or (HttpE (InvalidHeaderValue (HBytes s))) (hl_value H s)"
| "try_into_value H (VValue v) = Ok v"

section \<open>Headers\<close>

definition headers_contains_key :: "('m, 'x) header_lib_scheme \<Rightarrow> header_key \<Rightarrow> 'm \<Rightarrow> bool" where
  "headers_contains_key H key m =
     (case try_into_name H key of Ok n \<Rightarrow> hl_contains H n m | _ \<Rightarrow> False)"

definition headers_get :: "('m, 'x) header_lib_scheme \<Rightarrow> header_key \<Rightarrow> 'm \<Rightarrow> bytes option" where
  "headers_get H key m = (case try_into_name H key of Ok n \<Rightarrow> hl_get H n m | _ \<Rightarrow> None)"

definition headers_get_str :: "('m, 'x) header_lib_scheme \<Rightarrow> header_key \<Rightarrow> 'm \<Rightarrow> bytes option res" where
  "headers_get_str H key m =
     (case try_into_name H key of
        Ok n \<Rightarrow>
          (case hl_get H n m of
             Some v \<Rightarrow> map_ok Some (ok_or InvalidUtf8 (hl_to_str H v))
           | None \<Rightarrow> Ok None)
      | _ \<Rightarrow> Ok None)"

text \<open>The wrapped operations. \<open>entry\<close> panics on a name that is not valid; what it returns begins with the value there.\<close>

definition headers_new :: "('m, 'x) header_lib_scheme \<Rightarrow> 'm" where
  "headers_new H = hl_new H"

definition headers_clear :: "('m, 'x) header_lib_scheme \<Rightarrow> 'm \<Rightarrow> 'm" where
  "headers_clear H m = hl_clear H m"

definition headers_iter :: "('m, 'x) header_lib_scheme \<Rightarrow> 'm \<Rightarrow> (bytes \<times> bytes) list" where
  "headers_iter H m = hl_entries H m"

definition headers_into_iter :: "('m, 'x) header_lib_scheme \<Rightarrow> 'm \<Rightarrow> (bytes \<times> bytes) list" where
  "headers_into_iter H m = headers_iter H m"

definition headers_keys :: "('m, 'x) header_lib_scheme \<Rightarrow> 'm \<Rightarrow> bytes list" where
  "headers_keys H m = hl_keys H m"

definition headers_values :: "('m, 'x) header_lib_scheme \<Rightarrow> 'm \<Rightarrow> bytes list" where
  "headers_values H m = hl_values H m"

definition headers_drain :: "('m, 'x) header_lib_scheme \<Rightarrow> 'm \<Rightarrow> (bytes \<times> bytes) list \<times> 'm" where
  "headers_drain H m = hl_drain H m"

definition headers_capacity :: "('m, 'x) header_lib_scheme \<Rightarrow> 'm \<Rightarrow> nat" where
  "headers_capacity H m = hl_capacity H m"

definition headers_reserve :: "('m, 'x) header_lib_scheme \<Rightarrow> nat \<Rightarrow> 'm \<Rightarrow> 'm res" where
  "headers_reserve H additional m = hl_reserve H additional m"

text \<open>
  A mutable iterator is modelled by what it is for: a traversal that gives each value, with its name, to \<open>f\<close> and
  stores the result; \<open>values_mut\<close> does not tell the name.
\<close>

definition headers_iter_mut :: "('m, 'x) header_lib_scheme \<Rightarrow> (bytes \<Rightarrow> bytes \<Rightarrow> bytes) \<Rightarrow> 'm \<Rightarrow> 'm" where
  "headers_iter_mut H f m = hl_update H f m"

definition headers_into_iter_mut :: "('m, 'x) header_lib_scheme \<Rightarrow> (bytes \<Rightarrow> bytes \<Rightarrow> bytes) \<Rightarrow> 'm \<Rightarrow> 'm" where
  "headers_into_iter_mut H f m = headers_iter_mut H f m"

definition headers_values_mut :: "('m, 'x) header_lib_scheme \<Rightarrow> (bytes \<Rightarrow> bytes) \<Rightarrow> 'm \<Rightarrow> 'm" where
  "headers_values_mut H f m = hl_update H (\<lambda>_. f) m"

definition headers_entry :: "('m, 'x) header_lib_scheme \<Rightarrow> header_key \<Rightarrow> 'm \<Rightarrow> (bytes \<times> bytes option) res" where
  "headers_entry H key m =
     (case try_into_name H key of
        Ok n \<Rightarrow> Ok (n, hl_get H n m)
      | _ \<Rightarrow> Panic)"

definition headers_insert :: "('m, 'x) header_lib_scheme \<Rightarrow> header_key \<Rightarrow> header_val \<Rightarrow> 'm \<Rightarrow> 'm res" where
  "headers_insert H key v m =
     res_bind (try_into_name H key) (\<lambda>n. map_ok (\<lambda>x. hl_insert H n x m) (try_into_value H v))"

definition headers_remove :: "('m, 'x) header_lib_scheme \<Rightarrow> header_key \<Rightarrow> 'm \<Rightarrow> bytes option \<times> 'm" where
  "headers_remove H key m =
     (case try_into_name H key of Ok n \<Rightarrow> hl_remove H n m | _ \<Rightarrow> (None, m))"

lemma headers_get_str_no_panic [simp]: "headers_get_str H key m \<noteq> Panic"
  by (cases key) (auto simp: headers_get_str_def ok_or_def split: result.split option.split)

lemma headers_insert_no_panic [simp]: "headers_insert H key v m \<noteq> Panic"
  by (cases key; cases v) (auto simp: headers_insert_def ok_or_def split: option.split)

section \<open>The laws of the package\<close>

text \<open>
  Names are tokens, compared without case; values are visible ASCII (\<open>field_byte\<close>) or opaque
  bytes. The documentation of the package gives: \<open>insert\<close> replaces, names are stored in lower
  case, \<open>to_str\<close> succeeds on visible ASCII and returns the same bytes. \<open>plain m\<close> holds of the maps
  made by \<open>new\<close>, \<open>insert\<close>, \<open>remove\<close> and \<open>clear\<close> only, which have one value for a name.
\<close>

definition token_byte :: "u8 \<Rightarrow> bool" where
  "token_byte b \<longleftrightarrow> in_range 0x30 0x39 b \<or> in_range 0x41 0x5A b \<or> in_range 0x61 0x7A b
     \<or> b \<in> set (0x27 # lit ''!#$%&*+-.^_`|~'')"

definition field_byte :: "u8 \<Rightarrow> bool" where
  "field_byte b \<longleftrightarrow> in_range 0x20 0x7E b"

definition token :: "bytes \<Rightarrow> bool" where
  "token s \<longleftrightarrow> s \<noteq> [] \<and> length s < 65536 \<and> (\<forall>b\<in>set s. token_byte b)"

definition lower :: "bytes \<Rightarrow> bytes" where
  "lower s = map ascii_lower s"

locale header_map =
  fixes H :: "('m, 'x) header_lib_scheme" and plain :: "'m \<Rightarrow> bool"
  assumes name_token: "token s \<Longrightarrow> hl_name H s = Some (lower s)"
    and value_field: "\<forall>b\<in>set s. field_byte b \<Longrightarrow> hl_value H s = Some s"
    and to_str_field: "\<forall>b\<in>set s. field_byte b \<Longrightarrow> hl_to_str H s = Some s"
    and to_str_same: "hl_to_str H v = Some s \<Longrightarrow> s = v"
    and get_new [simp]: "hl_get H n (hl_new H) = None"
    and get_insert [simp]: "hl_get H n (hl_insert H k v m) = (if n = k then Some v else hl_get H n m)"
    and get_remove [simp]: "hl_get H n (snd (hl_remove H k m)) = (if n = k then None else hl_get H n m)"
    and get_clear [simp]: "hl_get H n (hl_clear H m) = None"
    and contains [simp]: "hl_contains H n m \<longleftrightarrow> hl_get H n m \<noteq> None"
    and plain_new [simp]: "plain (hl_new H)"
    and plain_insert [simp]: "plain m \<Longrightarrow> plain (hl_insert H k v m)"
    and entries: "plain m \<Longrightarrow> distinct (map fst (hl_entries H m))
        \<and> (\<forall>n v. (n, v) \<in> set (hl_entries H m) \<longleftrightarrow> hl_get H n m = Some v)"
    and keys: "plain m \<Longrightarrow> hl_keys H m = map fst (hl_entries H m)"
    and vals: "plain m \<Longrightarrow> hl_values H m = map snd (hl_entries H m)"
    and get_update: "plain m \<Longrightarrow> hl_get H n (hl_update H f m) = map_option (f n) (hl_get H n m)"
    and drained: "hl_drain H m = (entries, m') \<Longrightarrow> entries = hl_entries H m \<and> hl_get H n m' = None"
    and status_digits: "in_range 0x31 0x39 a \<Longrightarrow> in_range 0x30 0x39 b \<Longrightarrow> in_range 0x30 0x39 c \<Longrightarrow>
        hl_status H [a, b, c]
          = Some (word_of_nat ((unat a - 0x30) * 100 + (unat b - 0x30) * 10 + (unat c - 0x30)))"
begin

text \<open>What iteration sees agrees with lookup.\<close>

lemma headers_keys_iff: "plain m \<Longrightarrow> key \<in> set (headers_keys H m) \<longleftrightarrow> headers_contains_key H (KName key) m"
  using entries [of m] by (force simp: headers_keys_def headers_contains_key_def keys)

lemma headers_iter_mut_get:
  "plain m \<Longrightarrow> headers_get H (KName n) (headers_iter_mut H f m) = map_option (f n) (headers_get H (KName n) m)"
  by (simp add: headers_get_def headers_iter_mut_def get_update)

lemma headers_drain_empties:
  "headers_drain H m = (xs, m') \<Longrightarrow> xs = headers_iter H m \<and> \<not> headers_contains_key H (KName n) m'"
  using drained by (auto simp: headers_drain_def headers_iter_def headers_contains_key_def)

text \<open>A sequence of insertions, the last one for a name winning.\<close>

lemma get_fold:
  "hl_get H n (fold (\<lambda>(k, v). hl_insert H k v) kvs m) =
     (case map_of (rev kvs) n of Some v \<Rightarrow> Some v | None \<Rightarrow> hl_get H n m)"
  by (induction kvs arbitrary: m) (auto simp: map_add_def split: option.split)

lemma headers_insert_token:
  "token s \<Longrightarrow> \<forall>b\<in>set v. field_byte b \<Longrightarrow>
    headers_insert H (KStr s) (VStr v) m = Ok (hl_insert H (lower s) v m)"
  by (simp add: headers_insert_def name_token value_field)

lemma headers_get_str_token:
  "token s \<Longrightarrow> hl_get H (lower s) m = Some v \<Longrightarrow> \<forall>b\<in>set v. field_byte b \<Longrightarrow>
    headers_get_str H (KStr s) m = Ok (Some v)"
  by (simp add: headers_get_str_def name_token to_str_field)

lemma headers_get_str_absent:
  "token s \<Longrightarrow> hl_get H (lower s) m = None \<Longrightarrow> headers_get_str H (KStr s) m = Ok None"
  by (simp add: headers_get_str_def name_token)

end

section \<open>A header map as an association list\<close>

definition status_of_digits :: "bytes \<Rightarrow> u16 option" where
  "status_of_digits s = (case s of
     [a, b, c] \<Rightarrow> if in_range 0x31 0x39 a \<and> in_range 0x30 0x39 b \<and> in_range 0x30 0x39 c
       then Some (word_of_nat ((unat a - 0x30) * 100 + (unat b - 0x30) * 10 + (unat c - 0x30))) else None
   | _ \<Rightarrow> None)"

definition alist_lib :: "(bytes \<times> bytes) list header_lib" where
  "alist_lib = \<lparr>hl_name = (\<lambda>s. if token s then Some (lower s) else None),
     hl_value = (\<lambda>s. if \<forall>b\<in>set s. field_byte b then Some s else None),
     hl_to_str = (\<lambda>s. if \<forall>b\<in>set s. field_byte b then Some s else None),
     hl_status = status_of_digits,
     hl_reason = (\<lambda>c. if c = 101 then Some (lit ''Switching Protocols'') else None),
     hl_new = [], hl_get = (\<lambda>n m. map_of m n), hl_contains = (\<lambda>n m. map_of m n \<noteq> None),
     hl_insert = AList.update, hl_remove = (\<lambda>n m. (map_of m n, AList.delete n m)),
     hl_clear = (\<lambda>_. []), hl_entries = (\<lambda>m. m),
     hl_keys = map fst, hl_values = map snd, hl_update = (\<lambda>f. map (\<lambda>(n, v). (n, f n v))), hl_drain = (\<lambda>m. (m, [])),
     hl_capacity = length, hl_reserve = (\<lambda>_. Ok)\<rparr>"

interpretation alist: header_map alist_lib "\<lambda>m. distinct (map fst m)"
proof
  fix m :: "(bytes \<times> bytes) list"
  assume d: "distinct (map fst m)"
  show "distinct (map fst (hl_insert alist_lib k v m))" for k v
    using d by (simp add: alist_lib_def distinct_update)
  show "distinct (map fst (hl_entries alist_lib m))
      \<and> (\<forall>n v. (n, v) \<in> set (hl_entries alist_lib m) \<longleftrightarrow> hl_get alist_lib n m = Some v)"
    using d by (auto simp: alist_lib_def)
  show "hl_get alist_lib n (hl_update alist_lib f m) = map_option (f n) (hl_get alist_lib n m)" for n f
    by (induction m) (auto simp: alist_lib_def)
qed (auto simp: alist_lib_def status_of_digits_def update_conv' delete_conv' split: if_splits)

end
