(* ===== verification/Io.thy ===== *)
theory Io
  imports Errors
begin

text \<open>
  The interfaces of \<open>xx_core\<close> and \<open>xx_pulse\<close> the library is written against: buffered reading
  (\<open>BufRead\<close>, \<open>BufReadTyped\<close>), writing (\<open>Write\<close>, \<open>BufWriter\<close>) and the two extra socket
  operations of \<open>ConnExtra\<close> (\<open>src/src/http/stream.rs\<close>). That code is not part of the repository,
  so each interface is a record of operations that the definitions take as an argument.

  \<open>byte_source\<close> states what the source relies on for a connection that delivers its bytes
  without a transport error; \<open>incoming\<close> is the part of the byte stream the peer has still to
  deliver, and \<open>pending\<close> adds the bytes already in the buffer. Only theorems that need these
  laws assume them. \<open>script\<close> is a connection that delivers given segments, one for each
  call of \<open>fill\<close>, into a buffer of a given capacity; it satisfies every law and
  makes each theorem's hypotheses concrete.
\<close>

section \<open>Operations\<close>

text \<open>
  \<open>br_read n\<close> is \<open>read\<close> into a buffer of length \<open>n\<close> and returns the bytes stored at its start;
  \<open>br_inner_read\<close> is the same call on the stream below the buffer (\<open>inner_mut().read\<close>).
  \<open>br_read_into n limit\<close> is the macro \<open>read_into!(buf, limit)\<close> for a buffer of length \<open>n\<close>: the length
  the buffer is cut to, or \<open>None\<close> when the macro returns \<open>Ok(0)\<close> from the calling function.
\<close>

record 'r buf_read =
  br_buffer :: "'r \<Rightarrow> bytes"
  br_capacity :: "'r \<Rightarrow> nat"
  br_fill :: "('r, nat) act"
  br_consume :: "nat \<Rightarrow> 'r \<Rightarrow> 'r"
  br_discard :: "'r \<Rightarrow> 'r"
  br_read :: "nat \<Rightarrow> ('r, bytes) act"
  br_inner_read :: "nat \<Rightarrow> ('r, bytes) act"
  br_read_fully :: "nat \<Rightarrow> ('r, bytes) act"
  br_try_read_type :: "nat \<Rightarrow> ('r, bytes option) act"
  br_read_u16_be :: "('r, u16) act"
  br_read_u32_be :: "('r, u32) act"
  br_read_u64_be :: "('r, u64) act"
  br_read_into :: "nat \<Rightarrow> nat \<Rightarrow> nat option"

datatype Shutdown = ShutRead | ShutWrite | ShutBoth

datatype poll_flag = PollIn | PollOut | RdHangUp | HangUp | PollError

text \<open>
  \<open>ce_timeout d m\<close> is \<open>m.timeout(d).await\<close>: the result of \<open>m\<close>, or \<open>None\<close> when the time was up first.
\<close>

record 'w conn_extra =
  ce_poll :: "poll_flag list \<Rightarrow> ('w, poll_flag list) act"
  ce_shutdown :: "Shutdown \<Rightarrow> ('w, unit) act"
  ce_timeout :: "nat \<Rightarrow> ('w, unit) act \<Rightarrow> 'w \<Rightarrow> (unit res option \<times> 'w) option"

record 'w write_ops =
  wr_write_all_vectored :: "bytes list \<Rightarrow> ('w, nat) act"
  wr_flush :: "('w, unit) act"

section \<open>Big-endian integers\<close>

text \<open>\<open>to_be_bytes\<close> and \<open>from_be_bytes\<close> of the standard library, for integers of \<open>n\<close> bytes.\<close>

fun nat_to_be :: "nat \<Rightarrow> nat \<Rightarrow> bytes" where
  "nat_to_be 0 v = []"
| "nat_to_be (Suc n) v = nat_to_be n (v div 256) @ [word_of_nat (v mod 256)]"

definition nat_from_be :: "bytes \<Rightarrow> nat" where
  "nat_from_be bs = foldl (\<lambda>acc b. acc * 256 + unat b) 0 bs"

definition to_be_bytes :: "nat \<Rightarrow> 'a::len word \<Rightarrow> bytes" where
  "to_be_bytes n w = nat_to_be n (unat w)"

definition from_be_bytes :: "bytes \<Rightarrow> 'a::len word" where
  "from_be_bytes bs = word_of_nat (nat_from_be bs)"

lemma nat_to_be_numeral [simp]:
  "nat_to_be (numeral k) v = nat_to_be (pred_numeral k) (v div 256) @ [word_of_nat (v mod 256)]"
  by (subst numeral_eq_Suc [of k]) (rule nat_to_be.simps)

lemma length_nat_to_be [simp]: "length (nat_to_be n v) = n"
  by (induction n arbitrary: v) auto

lemma length_to_be_bytes [simp]: "length (to_be_bytes n w) = n"
  by (simp add: to_be_bytes_def)

lemma nat_from_be_simps [simp]:
  "nat_from_be [] = 0"
  "nat_from_be (bs @ [b]) = nat_from_be bs * 256 + unat b"
  by (simp_all add: nat_from_be_def)

lemma nat_from_to_be: "v < 256 ^ n \<Longrightarrow> nat_from_be (nat_to_be n v) = v"
proof (induction n arbitrary: v)
  case (Suc n)
  have "v div 256 < 256 ^ n"
    using Suc.prems by (simp add: less_mult_imp_div_less mult.commute)
  then have "nat_from_be (nat_to_be n (v div 256)) = v div 256" by (rule Suc.IH)
  then show ?case by (simp add: unat_of_nat)
qed simp

lemma nat_from_be_less: "nat_from_be bs < 256 ^ length bs"
proof (induction bs rule: rev_induct)
  case (snoc b bs)
  have "unat b < 256" by (rule u8_less)
  moreover have "Suc (nat_from_be bs) * 256 \<le> 256 ^ length bs * 256"
    using snoc.IH by (intro mult_right_mono) auto
  ultimately show ?case by simp
qed simp

lemma nat_to_from_be: "nat_to_be (length bs) (nat_from_be bs) = bs"
proof (induction bs rule: rev_induct)
  case (snoc b bs)
  have "unat b < 256" by (rule u8_less)
  with snoc.IH show ?case by simp
qed simp

lemma from_to_be_bytes:
  fixes w :: "'a::len word"
  assumes "LENGTH('a) \<le> 8 * n"
  shows "from_be_bytes (to_be_bytes n w) = w"
proof -
  have "(256::nat) ^ n = 2 ^ (8 * n)" by (simp add: power_mult)
  moreover have "unat w < 2 ^ LENGTH('a)" by (rule unsigned_less)
  moreover have "(2::nat) ^ LENGTH('a) \<le> 2 ^ (8 * n)"
    using assms by (rule power_increasing) simp
  ultimately have "unat w < 256 ^ n" by linarith
  then show ?thesis
    by (simp add: from_be_bytes_def to_be_bytes_def nat_from_to_be)
qed

lemma to_from_be_bytes:
  assumes "8 * length bs \<le> LENGTH('a::len)"
  shows "to_be_bytes (length bs) (from_be_bytes bs :: 'a word) = bs"
proof -
  have "nat_from_be bs < 256 ^ length bs" by (rule nat_from_be_less)
  also have "(256::nat) ^ length bs = 2 ^ (8 * length bs)" by (simp add: power_mult)
  also have "\<dots> \<le> 2 ^ LENGTH('a)" using assms by (rule power_increasing) simp
  finally have "unat (word_of_nat (nat_from_be bs) :: 'a word) = nat_from_be bs"
    by (simp add: unsigned_of_nat take_bit_nat_eq_self_iff)
  then show ?thesis
    by (simp add: to_be_bytes_def from_be_bytes_def nat_to_from_be)
qed

end
