(* ===== verification/Byte_Source.thy ===== *)
theory Byte_Source
  imports Io
begin

text \<open>
  The contract of a buffered reader over a connection without transport errors, and a scripted
  connection that satisfies it.

  \<open>incoming r\<close> are the bytes the peer has still to deliver before it closes; \<open>pending R incoming r\<close>
  are all the bytes still to be consumed. A call of \<open>fill\<close> appends some of the incoming bytes to
  the buffer and keeps what is there (as the comment in \<open>Body::read_chunk_size\<close> says); it returns
  0 only at the end of the stream or when the buffer is full (the two cases
  \<open>read_line_in_place\<close> tells apart). Typed reads take their bytes off the front; what they do
  when the stream ends too early is left open.
\<close>

definition pending :: "('r, 'x) buf_read_scheme \<Rightarrow> ('r \<Rightarrow> bytes) \<Rightarrow> 'r \<Rightarrow> bytes" where
  "pending R incoming r = br_buffer R r @ incoming r"

locale byte_source =
  fixes R :: "('r, 'x) buf_read_scheme" and incoming :: "'r \<Rightarrow> bytes"
  assumes buffer_cap: "length (br_buffer R r) \<le> br_capacity R r"
    and fill: "\<exists>xs r'. br_fill R r = Some (Ok (length xs), r')
        \<and> br_buffer R r' = br_buffer R r @ xs \<and> incoming r = xs @ incoming r'
        \<and> br_capacity R r' = br_capacity R r
        \<and> (xs = [] \<longleftrightarrow> incoming r = [] \<or> length (br_buffer R r) = br_capacity R r)"
    and consume: "n \<le> length (br_buffer R r) \<Longrightarrow>
        br_buffer R (br_consume R n r) = drop n (br_buffer R r)
        \<and> incoming (br_consume R n r) = incoming r
        \<and> br_capacity R (br_consume R n r) = br_capacity R r"
    and discard: "br_buffer R (br_discard R r) = [] \<and> incoming (br_discard R r) = incoming r
        \<and> br_capacity R (br_discard R r) = br_capacity R r"
    and read: "\<exists>xs r'. br_read R n r = Some (Ok xs, r') \<and> length xs \<le> n
        \<and> pending R incoming r = xs @ pending R incoming r'
        \<and> br_capacity R r' = br_capacity R r
        \<and> (xs = [] \<longleftrightarrow> n = 0 \<or> pending R incoming r = [])"
    and inner_read: "br_buffer R r = [] \<Longrightarrow> \<exists>xs r'. br_inner_read R n r = Some (Ok xs, r')
        \<and> length xs \<le> n \<and> br_buffer R r' = [] \<and> incoming r = xs @ incoming r'
        \<and> br_capacity R r' = br_capacity R r
        \<and> (xs = [] \<longleftrightarrow> n = 0 \<or> incoming r = [])"
    and read_fully: "n \<le> length (pending R incoming r) \<Longrightarrow>
        \<exists>r'. br_read_fully R n r = Some (Ok (take n (pending R incoming r)), r')
          \<and> pending R incoming r' = drop n (pending R incoming r)
          \<and> br_capacity R r' = br_capacity R r"
    and try_read_type: "n \<le> length (pending R incoming r) \<Longrightarrow>
        \<exists>r'. br_try_read_type R n r = Some (Ok (Some (take n (pending R incoming r))), r')
          \<and> pending R incoming r' = drop n (pending R incoming r)
          \<and> br_capacity R r' = br_capacity R r"
    and try_read_type_eof: "pending R incoming r = [] \<Longrightarrow> 0 < n \<Longrightarrow>
        \<exists>r'. br_try_read_type R n r = Some (Ok None, r') \<and> pending R incoming r' = []
          \<and> br_capacity R r' = br_capacity R r"
    and read_u16: "2 \<le> length (pending R incoming r) \<Longrightarrow>
        \<exists>r'. br_read_u16_be R r = Some (Ok (from_be_bytes (take 2 (pending R incoming r))), r')
          \<and> pending R incoming r' = drop 2 (pending R incoming r)
          \<and> br_capacity R r' = br_capacity R r"
    and read_u32: "4 \<le> length (pending R incoming r) \<Longrightarrow>
        \<exists>r'. br_read_u32_be R r = Some (Ok (from_be_bytes (take 4 (pending R incoming r))), r')
          \<and> pending R incoming r' = drop 4 (pending R incoming r)
          \<and> br_capacity R r' = br_capacity R r"
    and read_u64: "8 \<le> length (pending R incoming r) \<Longrightarrow>
        \<exists>r'. br_read_u64_be R r = Some (Ok (from_be_bytes (take 8 (pending R incoming r))), r')
          \<and> pending R incoming r' = drop 8 (pending R incoming r)
          \<and> br_capacity R r' = br_capacity R r"
    and read_into: "br_read_into R n limit = (if min n limit = 0 then None else Some (min n limit))"
begin

abbreviation pend :: "'r \<Rightarrow> bytes" where
  "pend \<equiv> pending R incoming"

text \<open>Filling and consuming in terms of the pending bytes.\<close>

lemma fill_pending:
  obtains n r' where "br_fill R r = Some (Ok n, r')" and "pend r' = pend r"
    and "length (incoming r') + n = length (incoming r)"
    and "length (br_buffer R r') = length (br_buffer R r) + n"
    and "n = 0 \<longleftrightarrow> incoming r = [] \<or> length (br_buffer R r) = br_capacity R r"
    and "br_capacity R r' = br_capacity R r"
  using fill [of r] that by (auto simp: pending_def)

lemma consume_pending:
  "n \<le> length (br_buffer R r) \<Longrightarrow> pend (br_consume R n r) = drop n (pend r)"
  using consume [of n r] by (simp add: pending_def)

lemma discard_pending: "pend (br_discard R r) = drop (length (br_buffer R r)) (pend r)"
  using discard [of r] by (simp add: pending_def)

end

section \<open>A scripted connection\<close>

text \<open>
  \<open>sc_rest\<close> are the segments still to arrive, one for each call of \<open>fill\<close>; \<open>sc_free\<close> is the
  free space behind the bytes in the buffer.
\<close>

record script =
  sc_buf :: bytes
  sc_free :: nat
  sc_rest :: "bytes list"

definition script_incoming :: "script \<Rightarrow> bytes" where
  "script_incoming r = concat (sc_rest r)"

fun next_segment :: "nat \<Rightarrow> bytes list \<Rightarrow> bytes \<times> bytes list" where
  "next_segment n [] = ([], [])"
| "next_segment n ([] # rest) = next_segment n rest"
| "next_segment n (seg # rest) = (take n seg, drop n seg # rest)"

definition script_fill :: "(script, nat) act" where
  "script_fill r = (let (xs, rest) = next_segment (sc_free r) (sc_rest r)
     in Some (Ok (length xs),
          r\<lparr>sc_buf := sc_buf r @ xs, sc_free := sc_free r - length xs, sc_rest := rest\<rparr>))"

text \<open>Taking up to \<open>n\<close> of the pending bytes.\<close>

definition script_take :: "nat \<Rightarrow> script \<Rightarrow> bytes \<times> script" where
  "script_take n r = (take n (sc_buf r @ script_incoming r),
     r\<lparr>sc_buf := drop n (sc_buf r), sc_free := sc_free r + min n (length (sc_buf r)),
       sc_rest := [drop (n - length (sc_buf r)) (script_incoming r)]\<rparr>)"

definition script_read :: "nat \<Rightarrow> (script, bytes) act" where
  "script_read n r = (let (xs, r') = script_take n r in Some (Ok xs, r'))"

definition script_try :: "nat \<Rightarrow> (script, bytes option) act" where
  "script_try n r = (let (xs, r') = script_take n r in
     if length xs = n then Some (Ok (Some xs), r')
     else if xs = [] then Some (Ok None, r') else Some (Err (Kind KUnexpectedEof), r'))"

definition script_be :: "nat \<Rightarrow> (script, 'a::len word) act" where
  "script_be n r = (let (xs, r') = script_take n r in
     if length xs = n then Some (Ok (from_be_bytes xs), r') else Some (Err (Kind KUnexpectedEof), r'))"

definition script_ops :: "script buf_read" where
  "script_ops = \<lparr>
     br_buffer = sc_buf,
     br_capacity = (\<lambda>r. length (sc_buf r) + sc_free r),
     br_fill = script_fill,
     br_consume = (\<lambda>n r. r\<lparr>sc_buf := drop n (sc_buf r), sc_free := sc_free r + n\<rparr>),
     br_discard = (\<lambda>r. r\<lparr>sc_buf := [], sc_free := sc_free r + length (sc_buf r)\<rparr>),
     br_read = script_read,
     br_inner_read = script_read,
     br_read_fully = script_read,
     br_try_read_type = script_try,
     br_read_u16_be = script_be 2,
     br_read_u32_be = script_be 4,
     br_read_u64_be = script_be 8,
     br_read_into = (\<lambda>n limit. if min n limit = 0 then None else Some (min n limit))\<rparr>"

lemmas script_defs = script_ops_def script_incoming_def script_fill_def script_take_def
  script_read_def script_try_def script_be_def

lemma next_segment_concat:
  "next_segment n segs = (xs, rest) \<Longrightarrow> concat segs = xs @ concat rest \<and> length xs \<le> n"
  by (induction n segs rule: next_segment.induct) auto

lemma next_segment_Nil:
  "next_segment n segs = (xs, rest) \<Longrightarrow> xs = [] \<longleftrightarrow> concat segs = [] \<or> n = 0"
  by (induction n segs rule: next_segment.induct) (auto simp del: concat_eq_Nil_conv)

lemma pending_script: "pending script_ops script_incoming r = sc_buf r @ concat (sc_rest r)"
  by (simp add: pending_def script_defs)

lemma take_drop_split: "xs @ ys = take n xs @ take (n - length xs) ys @ drop n xs @ drop (n - length xs) ys"
  by (cases "n \<le> length xs") auto

interpretation script: byte_source script_ops script_incoming
proof
  fix r :: script
  obtain xs rest where seg: "next_segment (sc_free r) (sc_rest r) = (xs, rest)" by fastforce
  then show "\<exists>xs r'. br_fill script_ops r = Some (Ok (length xs), r')
      \<and> br_buffer script_ops r' = br_buffer script_ops r @ xs
      \<and> script_incoming r = xs @ script_incoming r'
      \<and> br_capacity script_ops r' = br_capacity script_ops r
      \<and> (xs = [] \<longleftrightarrow> script_incoming r = []
           \<or> length (br_buffer script_ops r) = br_capacity script_ops r)"
    using next_segment_concat [OF seg] next_segment_Nil [OF seg]
    by (auto simp: script_defs simp del: concat_eq_Nil_conv)
qed (auto simp: script_defs pending_def take_drop_split [symmetric] simp del: concat_eq_Nil_conv)

section \<open>A reader that is part of a larger state\<close>

definition lift_reader :: "('s \<Rightarrow> 'r) \<Rightarrow> ('r \<Rightarrow> 's \<Rightarrow> 's) \<Rightarrow> ('r, 'x) buf_read_scheme \<Rightarrow> 's buf_read" where
  "lift_reader view put R = \<lparr>
     br_buffer = (\<lambda>s. br_buffer R (view s)),
     br_capacity = (\<lambda>s. br_capacity R (view s)),
     br_fill = io_zoom view put (br_fill R),
     br_consume = (\<lambda>n s. put (br_consume R n (view s)) s),
     br_discard = (\<lambda>s. put (br_discard R (view s)) s),
     br_read = (\<lambda>n. io_zoom view put (br_read R n)),
     br_inner_read = (\<lambda>n. io_zoom view put (br_inner_read R n)),
     br_read_fully = (\<lambda>n. io_zoom view put (br_read_fully R n)),
     br_try_read_type = (\<lambda>n. io_zoom view put (br_try_read_type R n)),
     br_read_u16_be = io_zoom view put (br_read_u16_be R),
     br_read_u32_be = io_zoom view put (br_read_u32_be R),
     br_read_u64_be = io_zoom view put (br_read_u64_be R),
     br_read_into = br_read_into R\<rparr>"

lemma pending_lift: "pending (lift_reader view put R) (\<lambda>s. incoming (view s)) s = pending R incoming (view s)"
  by (simp add: pending_def lift_reader_def)

lemma byte_source_lift:
  assumes src: "byte_source R incoming" and view: "\<And>t s. view (put t s) = t"
  shows "byte_source (lift_reader view put R) (\<lambda>s. incoming (view s))"
proof (rule byte_source.intro)
  note lift = lift_reader_def view
  fix s n
  let ?R = "lift_reader view put R"
  let ?inc = "\<lambda>s. incoming (view s)"
  show "length (br_buffer ?R s) \<le> br_capacity ?R s"
    using byte_source.buffer_cap [OF src] by (simp add: lift)
  from byte_source.fill [OF src, of "view s"] obtain xs t where
    "br_fill R (view s) = Some (Ok (length xs), t)" "br_buffer R t = br_buffer R (view s) @ xs"
    "incoming (view s) = xs @ incoming t" "br_capacity R t = br_capacity R (view s)"
    "xs = [] \<longleftrightarrow> incoming (view s) = [] \<or> length (br_buffer R (view s)) = br_capacity R (view s)" by blast
  then show "\<exists>xs s'. br_fill ?R s = Some (Ok (length xs), s') \<and> br_buffer ?R s' = br_buffer ?R s @ xs
      \<and> ?inc s = xs @ ?inc s' \<and> br_capacity ?R s' = br_capacity ?R s
      \<and> (xs = [] \<longleftrightarrow> ?inc s = [] \<or> length (br_buffer ?R s) = br_capacity ?R s)"
    by (intro exI [of _ xs] exI [of _ "put t s"]) (simp add: lift)
  show "n \<le> length (br_buffer ?R s) \<Longrightarrow> br_buffer ?R (br_consume ?R n s) = drop n (br_buffer ?R s)
      \<and> ?inc (br_consume ?R n s) = ?inc s \<and> br_capacity ?R (br_consume ?R n s) = br_capacity ?R s"
    using byte_source.consume [OF src, of n "view s"] by (simp add: lift)
  show "br_buffer ?R (br_discard ?R s) = [] \<and> ?inc (br_discard ?R s) = ?inc s
      \<and> br_capacity ?R (br_discard ?R s) = br_capacity ?R s"
    using byte_source.discard [OF src, of "view s"] by (simp add: lift)
  from byte_source.read [OF src, of n "view s"] obtain xs t where
    "br_read R n (view s) = Some (Ok xs, t)" "length xs \<le> n" "pending R incoming (view s) = xs @ pending R incoming t"
    "br_capacity R t = br_capacity R (view s)" "xs = [] \<longleftrightarrow> n = 0 \<or> pending R incoming (view s) = []" by blast
  then show "\<exists>xs s'. br_read ?R n s = Some (Ok xs, s') \<and> length xs \<le> n \<and> pending ?R ?inc s = xs @ pending ?R ?inc s'
      \<and> br_capacity ?R s' = br_capacity ?R s \<and> (xs = [] \<longleftrightarrow> n = 0 \<or> pending ?R ?inc s = [])"
    unfolding pending_lift by (intro exI [of _ xs] exI [of _ "put t s"]) (simp add: lift)
  show "\<exists>xs s'. br_inner_read ?R n s = Some (Ok xs, s') \<and> length xs \<le> n \<and> br_buffer ?R s' = [] \<and> ?inc s = xs @ ?inc s'
      \<and> br_capacity ?R s' = br_capacity ?R s \<and> (xs = [] \<longleftrightarrow> n = 0 \<or> ?inc s = [])" if "br_buffer ?R s = []"
  proof -
    from that byte_source.inner_read [OF src, of "view s" n] obtain xs t where
      "br_inner_read R n (view s) = Some (Ok xs, t)" "length xs \<le> n" "br_buffer R t = []" "incoming (view s) = xs @ incoming t"
      "br_capacity R t = br_capacity R (view s)" "xs = [] \<longleftrightarrow> n = 0 \<or> incoming (view s) = []"
      by (auto simp: lift)
    then show ?thesis by (intro exI [of _ xs] exI [of _ "put t s"]) (simp add: lift)
  qed
  show "\<exists>s'. br_read_fully ?R n s = Some (Ok (take n (pending ?R ?inc s)), s') \<and> pending ?R ?inc s' = drop n (pending ?R ?inc s)
      \<and> br_capacity ?R s' = br_capacity ?R s" if "n \<le> length (pending ?R ?inc s)"
    using byte_source.read_fully [OF src that [unfolded pending_lift]]
    unfolding pending_lift by (elim exE conjE) (simp add: lift)
  show "\<exists>s'. br_try_read_type ?R n s = Some (Ok (Some (take n (pending ?R ?inc s))), s')
      \<and> pending ?R ?inc s' = drop n (pending ?R ?inc s) \<and> br_capacity ?R s' = br_capacity ?R s"
    if "n \<le> length (pending ?R ?inc s)"
    using byte_source.try_read_type [OF src that [unfolded pending_lift]]
    unfolding pending_lift by (elim exE conjE) (simp add: lift)
  show "\<exists>s'. br_try_read_type ?R n s = Some (Ok None, s') \<and> pending ?R ?inc s' = [] \<and> br_capacity ?R s' = br_capacity ?R s"
    if "pending ?R ?inc s = []" and "0 < n"
    using byte_source.try_read_type_eof [OF src that(1) [unfolded pending_lift] that(2)]
    unfolding pending_lift by (elim exE conjE) (simp add: lift)
  show "\<exists>s'. br_read_u16_be ?R s = Some (Ok (from_be_bytes (take 2 (pending ?R ?inc s))), s')
      \<and> pending ?R ?inc s' = drop 2 (pending ?R ?inc s) \<and> br_capacity ?R s' = br_capacity ?R s"
    if "2 \<le> length (pending ?R ?inc s)"
    using byte_source.read_u16 [OF src that [unfolded pending_lift]]
    unfolding pending_lift by (elim exE conjE) (simp add: lift)
  show "\<exists>s'. br_read_u32_be ?R s = Some (Ok (from_be_bytes (take 4 (pending ?R ?inc s))), s')
      \<and> pending ?R ?inc s' = drop 4 (pending ?R ?inc s) \<and> br_capacity ?R s' = br_capacity ?R s"
    if "4 \<le> length (pending ?R ?inc s)"
    using byte_source.read_u32 [OF src that [unfolded pending_lift]]
    unfolding pending_lift by (elim exE conjE) (simp add: lift)
  show "\<exists>s'. br_read_u64_be ?R s = Some (Ok (from_be_bytes (take 8 (pending ?R ?inc s))), s')
      \<and> pending ?R ?inc s' = drop 8 (pending ?R ?inc s) \<and> br_capacity ?R s' = br_capacity ?R s"
    if "8 \<le> length (pending ?R ?inc s)"
    using byte_source.read_u64 [OF src that [unfolded pending_lift]]
    unfolding pending_lift by (elim exE conjE) (simp add: lift)
  show "br_read_into ?R n limit = (if min n limit = 0 then None else Some (min n limit))" for limit
    using byte_source.read_into [OF src] by (simp add: lift)
qed

end
