(* ===== verification/Http_Line.thy ===== *)
theory Http_Line
  imports Http_Headers Byte_Source
begin

text \<open>
  Lines, the HTTP version, the status line and header lines: the parsing half of
  \<open>src/src/http/transfer.rs\<close>. The reader is the record of operations \<open>line_env\<close>, a \<open>BufRead\<close>
  with the \<open>memchr\<close> of \<open>xx_core\<close>.
\<close>

record 'r line_env = "'r buf_read" +
  le_memchr :: "u8 \<Rightarrow> bytes \<Rightarrow> nat option"

abbreviation newline :: u8 where "newline \<equiv> 0x0A"
abbreviation carriage_return :: u8 where "carriage_return \<equiv> 0x0D"

section \<open>read\_line\_in\_place\<close>

text \<open>
  The loop. \<open>&available[offset..]\<close> panics when \<open>offset\<close> is past the end of the buffer.
\<close>

partial_function (option) line_loop :: "('r, 'x) line_env_scheme \<Rightarrow> nat \<Rightarrow> ('r, nat) act" where
  "line_loop E offset r =
     (if length (br_buffer E r) < offset then io_panic r
      else case le_memchr E newline (drop offset (br_buffer E r)) of
        Some index \<Rightarrow> io_return (offset + (index + 1)) r
      | None \<Rightarrow>
          io_bind (br_fill E) (\<lambda>n.
          if n \<noteq> 0 then line_loop E (offset + length (br_buffer E r))
          else
            io_bind (io_get (br_capacity E)) (\<lambda>cap.
            if offset + length (br_buffer E r) = cap then io_throw (HttpE HeadersTooLong)
            else io_throw (Kind KUnexpectedEof))) r)"

definition strip_line :: "bytes \<Rightarrow> bytes" where
  "strip_line line =
     (let line = (case strip_suffix newline line of Some ln \<Rightarrow> ln | None \<Rightarrow> line)
      in case strip_suffix carriage_return line of Some ln \<Rightarrow> ln | None \<Rightarrow> line)"

definition read_line_in_place :: "('r, 'x) line_env_scheme \<Rightarrow> ('r, bytes \<times> nat) act" where
  "read_line_in_place E =
     io_bind (line_loop E 0) (\<lambda>offset.
     io_bind (io_get (\<lambda>r. take offset (br_buffer E r))) (\<lambda>line.
     if \<not> utf8_valid line then io_throw InvalidUtf8
     else io_return (strip_line line, offset)))"

section \<open>Version and status line\<close>

definition parse_version :: "bytes \<Rightarrow> Version option" where
  "parse_version version =
     (if length version \<noteq> length (lit ''HTTP/0.0'') \<or> version ! 6 \<noteq> 0x2E then None
      else Option.bind (to_digit 10 (version ! 5)) (\<lambda>major.
        Option.bind (to_digit 10 (version ! 7)) (\<lambda>minor.
        version_from_u32 (major * 10 + minor))))"

definition parse_status_line :: "('m, 'x) header_lib_scheme \<Rightarrow> bytes \<Rightarrow> (Version \<times> u16) option" where
  "parse_status_line H line =
     (case split_on 0x20 line of
        [] \<Rightarrow> None
      | v # items \<Rightarrow>
          Option.bind (parse_version v) (\<lambda>version.
          case items of
            [] \<Rightarrow> None
          | s # _ \<Rightarrow> map_option (Pair version) (hl_status H s)))"

section \<open>A header line\<close>

definition parse_header_line ::
  "('m, 'y) header_lib_scheme \<Rightarrow> bytes \<Rightarrow> (bytes \<times> bytes option) res" where
  "parse_header_line H line =
     (let (key, v) = (case split_once 0x3A line of Some (k, v) \<Rightarrow> (k, Some v) | None \<Rightarrow> (line, None))
      in res_bind (try_into_name H (KStr (trim key))) (\<lambda>key.
         case v of
           Some v \<Rightarrow> map_ok (\<lambda>v. (key, Some v)) (try_into_value H (VStr (trim_start v)))
         | None \<Rightarrow> Ok (key, None)))"

definition read_header_line_limited ::
  "('r, 'x) line_env_scheme \<Rightarrow> ('m, 'y) header_lib_scheme \<Rightarrow> ('r, (bytes \<times> bytes option \<times> nat) option) act" where
  "read_header_line_limited E H =
     io_bind (read_line_in_place E) (\<lambda>(line, offset).
     io_bind (if line = [] then io_return None
              else io_bind (io_lift (parse_header_line H line)) (\<lambda>(key, v).
                io_return (Some (key, v, offset)))) (\<lambda>result.
     io_bind (io_modify (br_consume E offset)) (\<lambda>_.
     io_return result)))"

text \<open>The characters of a known version.\<close>

lemma parse_version_eq:
  "parse_version v = Some ver \<longleftrightarrow> length v = 8 \<and> drop 5 v = drop 5 (version_str ver)"
proof -
  have digit: "to_digit 10 b = Some d \<longleftrightarrow> d < 10 \<and> b = digit_char d" for b d
    using to_digit_char [of d 10]
    by (auto simp: to_digit_def Let_def in_range_def word_le_nat_alt word_unat_eq_iff unat_digit_char split: if_splits)
  have two: "(\<exists>i j. to_digit 10 x = Some i \<and> to_digit 10 z = Some j \<and> c = i * 10 + j)
      \<longleftrightarrow> x = digit_char (c div 10) \<and> z = digit_char (c mod 10)" if "c < 100" for x z c
  proof
    assume "\<exists>i j. to_digit 10 x = Some i \<and> to_digit 10 z = Some j \<and> c = i * 10 + j"
    then obtain i j where "i < 10" "j < 10" "x = digit_char i" "z = digit_char j" "c = i * 10 + j"
      by (auto simp: digit)
    then show "x = digit_char (c div 10) \<and> z = digit_char (c mod 10)" by simp
  next
    assume "x = digit_char (c div 10) \<and> z = digit_char (c mod 10)"
    with that show "\<exists>i j. to_digit 10 x = Some i \<and> to_digit 10 z = Some j \<and> c = i * 10 + j"
      by (intro exI [of _ "c div 10"] exI [of _ "c mod 10"]) (auto simp: digit)
  qed
  have code: "version_code ver < 100" by (cases ver) simp_all
  show ?thesis
  proof (cases "length v = 8")
    case True
    then obtain a b c d e x y z where v: "v = [a, b, c, d, e, x, y, z]"
      by (auto simp: length_Suc_conv numeral_eq_Suc)
    have "parse_version v = Some ver \<longleftrightarrow>
        y = 0x2E \<and> (\<exists>i j. to_digit 10 x = Some i \<and> to_digit 10 z = Some j \<and> version_code ver = i * 10 + j)"
      by (auto simp: parse_version_def v version_from_u32_Some bind_eq_Some_conv)
    also have "\<dots> \<longleftrightarrow> y = 0x2E \<and> x = digit_char (version_code ver div 10)
        \<and> z = digit_char (version_code ver mod 10)"
      unfolding two [OF code] ..
    also have "\<dots> \<longleftrightarrow> [x, y, z] = drop 5 (version_str ver)"
      by (cases ver) (auto simp: digit_char_def)
    finally show ?thesis using v by simp
  qed (simp add: parse_version_def)
qed

section \<open>Readers that search\<close>

locale line_source = byte_source E incoming
  for E :: "('r, 'x) line_env_scheme" and incoming :: "'r \<Rightarrow> bytes" +
  assumes memchr: "le_memchr E c xs = position (\<lambda>b. b = c) xs"
begin

lemma find_newline:
  "newline \<notin> set line \<Longrightarrow> le_memchr E newline (line @ newline # rest) = Some (length line)"
  by (auto simp: memchr intro: position_hit)

lemma no_newline: "newline \<notin> set xs \<Longrightarrow> le_memchr E newline xs = None"
  by (auto simp: memchr position_None)

text \<open>The newline is in the buffer.\<close>

lemma line_loop_hit:
  assumes "br_buffer E r = line @ newline # rest" and "newline \<notin> set line"
  shows "line_loop E 0 r = Some (Ok (length line + 1), r)"
  by (subst line_loop.simps) (simp add: assms find_newline io_simps)

lemma read_line_hit:
  assumes "br_buffer E r = line @ newline # rest" and "newline \<notin> set line"
    and "utf8_valid (line @ [newline])"
  shows "read_line_in_place E r = Some (Ok (strip_line (line @ [newline]), length line + 1), r)"
  using line_loop_hit [OF assms(1,2)] assms(3)
  by (simp add: read_line_in_place_def io_simps assms(1))

text \<open>The newline arrives with the next call of \<open>fill\<close>.\<close>

lemma read_line_fill:
  assumes "br_fill E r = Some (Ok n, r')" and "newline \<notin> set (br_buffer E r)"
    and buf: "br_buffer E r' = line @ newline # rest" and "newline \<notin> set line"
    and "utf8_valid (line @ [newline])"
  shows "read_line_in_place E r = Some (Ok (strip_line (line @ [newline]), length line + 1), r')"
proof -
  obtain xs where n: "n = length xs" "br_buffer E r' = br_buffer E r @ xs"
    using fill [of r] assms(1) by auto
  obtain tl where split: "line = br_buffer E r @ tl" "xs = tl @ newline # rest"
  proof -
    from n(2) buf have "(\<exists>us. br_buffer E r @ us = line \<and> xs = us @ newline # rest)
      \<or> (\<exists>us. br_buffer E r = line @ us \<and> us @ xs = newline # rest)"
      by (auto simp: append_eq_append_conv2)
    then show ?thesis
    proof (elim disjE exE conjE)
      fix us assume "br_buffer E r @ us = line" "xs = us @ newline # rest"
      then show ?thesis using that [of us] by simp
    next
      fix us assume us: "br_buffer E r = line @ us" "us @ xs = newline # rest"
      with assms(2) have "us = []" by (cases us) auto
      with us that [of "[]"] show ?thesis by simp
    qed
  qed
  have "line_loop E 0 r = line_loop E (length (br_buffer E r)) r'"
    using assms(1,2) n(1) split(2) by (subst line_loop.simps) (simp add: no_newline)
  also have "\<dots> = Some (Ok (length line + 1), r')"
    using buf split assms(4)
    by (subst line_loop.simps) (auto simp: find_newline io_simps)
  finally show ?thesis
    using assms(5) buf by (simp add: read_line_in_place_def io_simps)
qed

end

section \<open>The scripted connection\<close>

lemma byte_source_extend: "byte_source R incoming \<Longrightarrow> byte_source (buf_read.extend R ext) incoming"
  unfolding byte_source_def pending_def by (simp add: buf_read.defs)

definition script_line :: "script line_env" where
  "script_line = buf_read.extend script_ops \<lparr>le_memchr = (\<lambda>c. position (\<lambda>b. b = c)), \<dots> = ()\<rparr>"

interpretation script_line: line_source script_line script_incoming
proof (rule line_source.intro)
  show "byte_source script_line script_incoming"
    unfolding script_line_def by (rule byte_source_extend [OF script.byte_source_axioms])
  show "line_source_axioms script_line"
    by unfold_locales (simp add: script_line_def buf_read.defs)
qed

lemma script_line_simps [simp]:
  "br_buffer script_line = sc_buf" "br_fill script_line = script_fill"
  "br_capacity script_line r = length (sc_buf r) + sc_free r"
  "br_consume script_line n r = r\<lparr>sc_buf := drop n (sc_buf r), sc_free := sc_free r + n\<rparr>"
  "pending script_line script_incoming r = sc_buf r @ concat (sc_rest r)"
  by (simp_all add: script_line_def script_ops_def buf_read.defs pending_def script_incoming_def)

section \<open>Properties\<close>

text \<open>A line whose newline is in the buffer, or gets there with one more \<open>fill\<close>, is returned without
  its line end, with the number of bytes it takes, and nothing is consumed.\<close>

theorem read_line_arrives:
  assumes src: "line_source E incoming"
    and pend: "pending E incoming r = line @ newline # rest" "newline \<notin> set line"
    and utf8: "utf8_valid (line @ [newline])"
    and fill: "br_fill E r = Some (Ok n, r1)"
    and arrives: "length line < length (br_buffer E r) \<or> length line < length (br_buffer E r1)"
  shows "\<exists>r'. read_line_in_place E r = Some (Ok (strip_line (line @ [newline]), length line + 1), r')
    \<and> pending E incoming r' = pending E incoming r \<and> length line < length (br_buffer E r')"
proof -
  have buf: "\<exists>tl. br_buffer E s = line @ newline # tl"
    if p: "pending E incoming s = line @ newline # rest" and l: "length line < length (br_buffer E s)" for s
  proof -
    from p have "br_buffer E s @ incoming s = (line @ [newline]) @ rest" by (simp add: pending_def)
    then obtain tl where "br_buffer E s = (line @ [newline]) @ tl"
      using l by (auto simp: append_eq_append_conv2 Cons_eq_append_conv append_eq_Cons_conv)
    then show ?thesis by simp
  qed
  show ?thesis
  proof (cases "newline \<in> set (br_buffer E r)")
    case True
    have "length line < length (br_buffer E r)"
    proof (rule ccontr)
      assume "\<not> ?thesis"
      then have "br_buffer E r = take (length (br_buffer E r)) line"
        using arg_cong [OF pend(1), of "take (length (br_buffer E r))"] by (simp add: pending_def)
      with True pend(2) show False by (metis in_set_takeD)
    qed
    with buf [OF pend(1)] obtain tl where "br_buffer E r = line @ newline # tl" by blast
    from line_source.read_line_hit [OF src this pend(2) utf8] this show ?thesis by auto
  next
    case False
    have p1: "pending E incoming r1 = line @ newline # rest"
      using byte_source.fill_pending [OF line_source.axioms(1) [OF src], of r] fill pend(1) by auto
    moreover have "\<not> length line < length (br_buffer E r)"
      using buf [OF pend(1)] False by auto
    ultimately obtain tl where tl: "br_buffer E r1 = line @ newline # tl"
      using buf arrives by blast
    from line_source.read_line_fill [OF src fill False tl pend(2) utf8] tl p1 pend(1) show ?thesis by auto
  qed
qed

text \<open>The line end split between two segments.\<close>

theorem read_line_arrives_witness:
  "\<exists>r'. read_line_in_place script_line
      \<lparr>sc_buf = [0x48, 0x69, 0x0D], sc_free = 64, sc_rest = [[0x0A, 0x21]]\<rparr> = Some (Ok ([0x48, 0x69], 4), r')"
proof -
  let ?r = "\<lparr>sc_buf = [0x48, 0x69, 0x0D], sc_free = 64, sc_rest = [[0x0A, 0x21]]\<rparr>"
  let ?r1 = "\<lparr>sc_buf = [0x48, 0x69, 0x0D, 0x0A, 0x21], sc_free = 62, sc_rest = [[]]\<rparr>"
  have "\<exists>r'. read_line_in_place script_line ?r
      = Some (Ok (strip_line ([0x48, 0x69, 0x0D] @ [newline]), length [0x48, 0x69, 0x0D :: u8] + 1), r')
    \<and> pending script_line script_incoming r' = pending script_line script_incoming ?r
    \<and> length [0x48, 0x69, 0x0D :: u8] < length (br_buffer script_line r')"
    by (rule read_line_arrives [OF script_line.line_source_axioms, where rest = "[0x21]" and n = 2 and ?r1.0 = ?r1])
      (simp_all add: script_fill_def)
  then show ?thesis by (auto simp: strip_line_def strip_suffix_def)
qed

text \<open>C30: When a line is still incomplete after a first and a second scan, the offset is counted twice:
  if the third piece is shorter than what the buffer held at the first scan, the slice is out of
  range and the call panics.\<close>

theorem read_line_third_piece_panics:
  assumes src: "line_source E incoming"
    and "br_fill E r = Some (Ok n1, r1)" "br_fill E r1 = Some (Ok n2, r2)" "0 < n1" "0 < n2"
    and "newline \<notin> set (br_buffer E r1)" and "n2 < length (br_buffer E r)"
  shows "read_line_in_place E r = Some (Panic, r2)"
proof -
  obtain xs ys where b1: "br_buffer E r1 = br_buffer E r @ xs" "n1 = length xs"
    and b2: "br_buffer E r2 = br_buffer E r1 @ ys" "n2 = length ys"
    using byte_source.fill [OF line_source.axioms(1) [OF src]] assms(2,3)
    by (metis Pair_inject option.inject result.inject(1))
  have no: "newline \<notin> set (br_buffer E r)" "newline \<notin> set (drop (length (br_buffer E r)) (br_buffer E r1))"
    using assms(6) b1(1) by auto
  have "line_loop E 0 r = line_loop E (length (br_buffer E r)) r1"
    using assms(2,4) line_source.no_newline [OF src no(1)] by (subst line_loop.simps) simp
  also have "\<dots> = line_loop E (length (br_buffer E r) + length (br_buffer E r1)) r2"
    using assms(3,5) b1 line_source.no_newline [OF src no(2)] by (subst line_loop.simps) simp
  also have "\<dots> = Some (Panic, r2)"
    using assms(7) b2 by (subst line_loop.simps) (simp add: io_simps)
  finally show ?thesis by (simp add: read_line_in_place_def)
qed

text \<open>\<open>GET / HTTP/1.1\<close> in pieces of 8, 6 and 2 bytes.\<close>

theorem read_line_third_piece_panics_witness:
  "\<exists>r'. read_line_in_place script_line \<lparr>sc_buf = lit ''GET / HT'', sc_free = 64,
      sc_rest = [lit ''TP/1.1'', [0x0D, 0x0A]]\<rparr> = Some (Panic, r')"
  by (rule exI, rule read_line_third_piece_panics [OF script_line.line_source_axioms, where ?n1.0 = 6 and ?n2.0 = 2
        and ?r1.0 = "\<lparr>sc_buf = lit ''GET / HTTP/1.1'', sc_free = 58, sc_rest = [[], [0x0D, 0x0A]]\<rparr>"
        and ?r2.0 = "\<lparr>sc_buf = lit ''GET / HTTP/1.1'' @ [0x0D, 0x0A], sc_free = 56, sc_rest = [[]]\<rparr>"])
    (simp_all add: script_fill_def)

text \<open>\<open>parse_version\<close> accepts exactly the eight-character strings that end like a known version: the
  first five characters are not looked at.\<close>

theorem parse_version_iff:
  "parse_version v = Some ver \<longleftrightarrow> length v = 8 \<and> drop 5 v = drop 5 (version_str ver)"
  by (rule parse_version_eq)

end
