(* ===== verification/Url_Request.thy ===== *)
theory Url_Request
  imports Http_Headers
begin

text \<open>
  \<open>RequestBase\<close> (\<open>src/src/request.rs\<close>) and the request builders: \<open>transfer::Request\<close> and its
  \<open>Options\<close>, \<open>HttpRequest\<close> (\<open>http/request.rs\<close>) and the payloads of \<open>http/mod.rs\<close>. A URL is a
  value of the \<open>url\<close> package, whose accessors are the fields of \<open>url_lib\<close>; parse errors are
  codes. The builders return the request they are called on, updated.
\<close>

record 'u url_lib =
  ul_parse :: "bytes \<Rightarrow> nat + 'u"
  ul_scheme :: "'u \<Rightarrow> bytes"
  ul_host_str :: "'u \<Rightarrow> bytes option"
  ul_port :: "'u \<Rightarrow> u16 option"
  ul_path :: "'u \<Rightarrow> bytes"
  ul_path_and_query :: "'u \<Rightarrow> bytes"
  ul_join :: "'u \<Rightarrow> bytes \<Rightarrow> 'u option"

section \<open>RequestBase\<close>

type_synonym 'u request_base = "'u res"

definition request_fail :: "error \<Rightarrow> 'u request_base \<Rightarrow> 'u request_base" where
  "request_fail err r = Err err"

definition request_base_new :: "('u, 'x) url_lib_scheme \<Rightarrow> bytes \<Rightarrow> (bytes \<Rightarrow> bool) \<Rightarrow> 'u request_base" where
  "request_base_new U url scheme_allowed =
     (let this = (case ul_parse U url of Inl e \<Rightarrow> Err (UrlE (InvalidUrl e)) | Inr u \<Rightarrow> Ok u)
      in case this of
           Ok u \<Rightarrow> if \<not> scheme_allowed (ul_scheme U u)
             then request_fail (UrlE (InvalidScheme (ul_scheme U u))) this else this
         | _ \<Rightarrow> this)"

definition request_url :: "'u request_base \<Rightarrow> 'u option" where
  "request_url r = (case r of Ok u \<Rightarrow> Some u | _ \<Rightarrow> None)"

definition finalize :: "('u request_base, 'u) act" where
  "finalize r = (case r of Ok u \<Rightarrow> Some (Ok u, r) | _ \<Rightarrow> Some (r, Err (UrlE InvalidRequest)))"

section \<open>Options and Request (http/transfer.rs)\<close>

datatype IpStrategy = IpDefault | Ipv4Only | Ipv6Only | PreferIpv4 | PreferIpv6

type_synonym i32 = "32 word"

record Options =
  op_port :: u16
  op_strategy :: IpStrategy
  op_timeout :: "nat option"
  op_recvbuf_size :: "i32 option"
  op_sendbuf_size :: "i32 option"
  op_secure :: bool
  op_min_version :: Version
  op_max_version :: Version
  op_follow_redirect :: u32
  op_maximum_header_size :: u32

definition DEFAULT_MAXIMUM_HEADER_SIZE :: u32 where
  "DEFAULT_MAXIMUM_HEADER_SIZE = 128 * 1024"

definition Options_new :: Options where
  "Options_new = \<lparr>op_port = 0, op_strategy = IpDefault, op_timeout = None, op_recvbuf_size = None,
     op_sendbuf_size = None, op_secure = False, op_min_version = Http10, op_max_version = Http11,
     op_follow_redirect = 5, op_maximum_header_size = DEFAULT_MAXIMUM_HEADER_SIZE\<rparr>"

text \<open>A payload: bytes, or a stream with what \<open>pipe_from\<close> still reads from it.\<close>

datatype Payload = PayloadBytes bytes | PayloadStream bytes

record ('u, 'm) Request =
  rq_options :: Options
  rq_request :: "'u request_base"
  rq_method :: bytes
  rq_headers :: 'm
  rq_body :: "Payload option"

definition Request_new ::
  "('m, 'y) header_lib_scheme \<Rightarrow> 'u request_base \<Rightarrow> bytes \<Rightarrow> ('u, 'm) Request" where
  "Request_new H request method = \<lparr>rq_options = Options_new, rq_request = request, rq_method = method,
     rq_headers = hl_new H, rq_body = None\<rparr>"

definition request_header ::
  "('m, 'y) header_lib_scheme \<Rightarrow> header_key \<Rightarrow> header_val \<Rightarrow> ('u, 'm) Request \<Rightarrow> ('u, 'm) Request" where
  "request_header H key v r =
     (case headers_insert H key v (rq_headers r) of
        Ok m \<Rightarrow> r\<lparr>rq_headers := m\<rparr>
      | Err err \<Rightarrow> r\<lparr>rq_request := request_fail err (rq_request r)\<rparr>
      | Panic \<Rightarrow> r)"

definition request_set_port :: "u16 \<Rightarrow> ('u, 'm) Request \<Rightarrow> ('u, 'm) Request" where
  "request_set_port port r = r\<lparr>rq_options := (rq_options r)\<lparr>op_port := port\<rparr>\<rparr>"

definition request_set_strategy :: "IpStrategy \<Rightarrow> ('u, 'm) Request \<Rightarrow> ('u, 'm) Request" where
  "request_set_strategy strategy r = r\<lparr>rq_options := (rq_options r)\<lparr>op_strategy := strategy\<rparr>\<rparr>"

definition request_set_timeout :: "nat \<Rightarrow> ('u, 'm) Request \<Rightarrow> ('u, 'm) Request" where
  "request_set_timeout timeout r = r\<lparr>rq_options := (rq_options r)\<lparr>op_timeout := Some timeout\<rparr>\<rparr>"

definition request_set_recvbuf_size :: "i32 \<Rightarrow> ('u, 'm) Request \<Rightarrow> ('u, 'm) Request" where
  "request_set_recvbuf_size n r = r\<lparr>rq_options := (rq_options r)\<lparr>op_recvbuf_size := Some n\<rparr>\<rparr>"

definition request_set_sendbuf_size :: "i32 \<Rightarrow> ('u, 'm) Request \<Rightarrow> ('u, 'm) Request" where
  "request_set_sendbuf_size n r = r\<lparr>rq_options := (rq_options r)\<lparr>op_sendbuf_size := Some n\<rparr>\<rparr>"

definition request_payload :: "Payload \<Rightarrow> ('u, 'm) Request \<Rightarrow> ('u, 'm) Request" where
  "request_payload p r = r\<lparr>rq_body := Some p\<rparr>"

section \<open>HttpRequest (http/request.rs)\<close>

definition set_secure_if :: "('u, 'x) url_lib_scheme \<Rightarrow> bytes \<Rightarrow> ('u, 'm) Request \<Rightarrow> ('u, 'm) Request" where
  "set_secure_if U scheme r =
     (case request_url (rq_request r) of
        Some u \<Rightarrow> if ul_scheme U u = scheme
          then r\<lparr>rq_options := (rq_options r)\<lparr>op_secure := True\<rparr>\<rparr> else r
      | None \<Rightarrow> r)"

definition new_request ::
  "('u, 'x) url_lib_scheme \<Rightarrow> ('m, 'y) header_lib_scheme \<Rightarrow> bytes \<Rightarrow> bytes \<Rightarrow> ('u, 'm) Request" where
  "new_request U H url method =
     (let request = request_base_new U url (\<lambda>scheme. scheme = lit ''http'' \<or> scheme = lit ''https'')
      in set_secure_if U (lit ''https'') (Request_new H request method))"

definition http_get ::
  "('u, 'x) url_lib_scheme \<Rightarrow> ('m, 'y) header_lib_scheme \<Rightarrow> bytes \<Rightarrow> ('u, 'm) Request" where
  "http_get U H url = new_request U H url (lit ''GET'')"

definition http_post ::
  "('u, 'x) url_lib_scheme \<Rightarrow> ('m, 'y) header_lib_scheme \<Rightarrow> bytes \<Rightarrow> Payload \<Rightarrow> ('u, 'm) Request" where
  "http_post U H url payload = request_payload payload (new_request U H url (lit ''POST''))"

section \<open>A failed request stays failed\<close>

text \<open>The operations a caller can apply to a request before it runs.\<close>

inductive builder_step ::
  "('m, 'y) header_lib_scheme \<Rightarrow> ('u, 'm) Request \<Rightarrow> ('u, 'm) Request \<Rightarrow> bool" for H where
  "builder_step H r (request_header H key v r)"
| "builder_step H r (request_set_port port r)"
| "builder_step H r (request_set_strategy strategy r)"
| "builder_step H r (request_set_timeout timeout r)"
| "builder_step H r (request_set_recvbuf_size n r)"
| "builder_step H r (request_set_sendbuf_size n r)"
| "builder_step H r (request_payload p r)"

lemma request_base_new_cases:
  "(case request_base_new U url allowed of
      Ok u \<Rightarrow> ul_parse U url = Inr u \<and> allowed (ul_scheme U u)
    | Err e \<Rightarrow> (case ul_parse U url of Inl c \<Rightarrow> e = UrlE (InvalidUrl c)
        | Inr u \<Rightarrow> \<not> allowed (ul_scheme U u) \<and> e = UrlE (InvalidScheme (ul_scheme U u)))
    | Panic \<Rightarrow> False)"
  by (auto simp: request_base_new_def request_fail_def Let_def split: sum.split)

lemma set_secure_if_simps [simp]:
  "rq_request (set_secure_if U s r) = rq_request r" "rq_headers (set_secure_if U s r) = rq_headers r"
  "rq_method (set_secure_if U s r) = rq_method r" "rq_body (set_secure_if U s r) = rq_body r"
  by (auto simp: set_secure_if_def split: option.split)

lemma set_secure_if_secure:
  "op_secure (rq_options (set_secure_if U s r)) \<longleftrightarrow>
     op_secure (rq_options r) \<or> (\<exists>u. rq_request r = Ok u \<and> ul_scheme U u = s)"
  by (cases "rq_request r") (auto simp: set_secure_if_def request_url_def)

lemma builder_step_base:
  "builder_step H r s \<Longrightarrow> rq_request s = rq_request r \<or> (\<exists>e. rq_request s = Err e)"
  by (cases rule: builder_step.cases, assumption)
    (auto simp: request_header_def request_fail_def request_set_port_def request_set_strategy_def
      request_set_timeout_def request_set_recvbuf_size_def request_set_sendbuf_size_def
      request_payload_def split: result.split)

lemma builder_step_secure: "builder_step H r s \<Longrightarrow> op_secure (rq_options s) = op_secure (rq_options r)"
  by (cases rule: builder_step.cases, assumption)
    (auto simp: request_header_def request_set_port_def request_set_strategy_def
      request_set_timeout_def request_set_recvbuf_size_def request_set_sendbuf_size_def
      request_payload_def split: result.split)

lemma builder_steps_base:
  assumes "(builder_step H)\<^sup>*\<^sup>* r s"
  shows "rq_request s = rq_request r \<or> (\<exists>e. rq_request s = Err e)"
    and "op_secure (rq_options s) = op_secure (rq_options r)"
  using assms by (induction rule: rtranclp_induct) (metis builder_step_base builder_step_secure)+

text \<open>Of a request made by \<open>get\<close> or \<open>post\<close>, the scheme and the kind of connection agree.\<close>

lemma request_scheme_secure:
  assumes "start = http_get U H url \<or> start = http_post U H url p" and "(builder_step H)\<^sup>*\<^sup>* start r"
    and "rq_request r = Ok u"
  shows "ul_scheme U u \<in> {lit ''http'', lit ''https''}"
    and "op_secure (rq_options r) \<longleftrightarrow> ul_scheme U u = lit ''https''"
proof -
  let ?allowed = "\<lambda>scheme. scheme = lit ''http'' \<or> scheme = lit ''https''"
  have base: "rq_request start = request_base_new U url ?allowed"
    and secure: "op_secure (rq_options start) \<longleftrightarrow>
      (\<exists>u. request_base_new U url ?allowed = Ok u \<and> ul_scheme U u = lit ''https'')"
    using assms(1)
    by (auto simp: http_get_def http_post_def new_request_def request_payload_def set_secure_if_secure
        Request_new_def Options_new_def Let_def simp del: lit_simps)
  have u: "request_base_new U url ?allowed = Ok u"
    using builder_steps_base(1) [OF assms(2)] assms(3) base by auto
  then show "ul_scheme U u \<in> {lit ''http'', lit ''https''}"
    using request_base_new_cases [of U url ?allowed] by (simp del: lit_simps)
  show "op_secure (rq_options r) \<longleftrightarrow> ul_scheme U u = lit ''https''"
    using builder_steps_base(2) [OF assms(2)] secure u by (simp del: lit_simps)
qed

section \<open>Properties\<close>

text \<open>C31: Whatever builder operations were applied to a request made by \<open>get\<close> or \<open>post\<close>, \<open>finalize\<close> gives
  a URL only if the given string parses to it and its scheme is \<open>http\<close> or \<open>https\<close>, the connection
  is encrypted exactly for \<open>https\<close>, and a request that failed reports its error once and
  \<open>InvalidRequest\<close> from then on.\<close>

theorem request_finalize:
  assumes "r0 = http_get U H url \<or> r0 = http_post U H url p"
    and "(builder_step H)\<^sup>*\<^sup>* r0 r"
  shows "case finalize (rq_request r) of
      Some (Ok u, b) \<Rightarrow> ul_parse U url = Inr u \<and> b = rq_request r
        \<and> ul_scheme U u \<in> {lit ''http'', lit ''https''}
        \<and> (op_secure (rq_options r) \<longleftrightarrow> ul_scheme U u = lit ''https'')
    | Some (Err e, b) \<Rightarrow> finalize b = Some (Err (UrlE InvalidRequest), b)
    | _ \<Rightarrow> False"
proof -
  let ?allowed = "\<lambda>scheme. scheme = lit ''http'' \<or> scheme = lit ''https''"
  have base: "rq_request r0 = request_base_new U url ?allowed"
    and secure: "op_secure (rq_options r0) \<longleftrightarrow>
      (\<exists>u. request_base_new U url ?allowed = Ok u \<and> ul_scheme U u = lit ''https'')"
    using assms(1)
    by (auto simp: http_get_def http_post_def new_request_def request_payload_def set_secure_if_secure
        Request_new_def Options_new_def Let_def simp del: lit_simps)
  from builder_steps_base [OF assms(2)] base secure request_base_new_cases [of U url ?allowed]
  show ?thesis
    by (cases "request_base_new U url ?allowed") (auto simp: finalize_def simp del: lit_simps)
qed

definition toy_urls :: "bytes url_lib" where
  "toy_urls = \<lparr>ul_parse = (\<lambda>s. if s = [] then Inl 1 else Inr s), ul_scheme = (\<lambda>u. hd (split_on 0x3A u)),
     ul_host_str = (\<lambda>u. Some (drop 3 u)), ul_port = (\<lambda>_. None), ul_path = (\<lambda>_. [0x2F]),
     ul_path_and_query = (\<lambda>_. [0x2F]), ul_join = (\<lambda>_ s. Some s)\<rparr>"

theorem request_finalize_witness:
  "finalize (rq_request (request_header alist_lib (KStr []) (VStr []) (http_get toy_urls alist_lib (lit ''https:x''))))
    = Some (Err (HttpE (InvalidHeaderName (HString []))), Err (UrlE InvalidRequest))"
proof -
  let ?start = "http_get toy_urls alist_lib (lit ''https:x'')"
  let ?fin = "request_header alist_lib (KStr []) (VStr []) ?start"
  have "(builder_step alist_lib)\<^sup>*\<^sup>* ?start ?fin" by (rule r_into_rtranclp, rule builder_step.intros(1))
  from request_finalize [OF _ this, of toy_urls "lit ''https:x''" "PayloadBytes []"] show ?thesis
    by (simp add: request_header_def headers_insert_def alist_lib_def token_def request_fail_def finalize_def)
qed

end
