(* ===== verification/Http_Head.thy ===== *)
theory Http_Head
  imports Http_Line Url_Request
begin

text \<open>
  The head of a response: \<open>read_headers_limited\<close> and \<open>parse_response\<close> of
  \<open>src/src/http/transfer.rs\<close>. The state is the reader together with the header map the caller
  passes by mutable reference.
\<close>

definition on_reader :: "('r, 'a) act \<Rightarrow> ('r \<times> 'm, 'a) act" where
  "on_reader m = io_zoom fst (\<lambda>t s. (t, snd s)) m"

definition insert_header ::
  "('m, 'y) header_lib_scheme \<Rightarrow> bytes \<Rightarrow> bytes option \<Rightarrow> ('r \<times> 'm, unit) act" where
  "insert_header H key v s =
     (case headers_insert H (KName key) (VValue (case v of Some v \<Rightarrow> v | None \<Rightarrow> [])) (snd s) of
        Ok m \<Rightarrow> Some (Ok (), (fst s, m))
      | Err e \<Rightarrow> Some (Err e, s)
      | Panic \<Rightarrow> Some (Panic, s))"

partial_function (option) read_headers_limited ::
  "('r, 'x) line_env_scheme \<Rightarrow> ('m, 'y) header_lib_scheme \<Rightarrow> nat \<Rightarrow> ('r \<times> 'm, unit) act" where
  "read_headers_limited E H size_limit s =
     io_bind (on_reader (read_header_line_limited E H)) (\<lambda>header.
       case header of
         None \<Rightarrow> io_return ()
       | Some hdr \<Rightarrow>
           (case nat_checked_sub size_limit (snd (snd hdr)) of
              None \<Rightarrow> io_throw (HttpE HeadersTooLong)
            | Some new_limit \<Rightarrow>
                io_bind (insert_header H (fst hdr) (fst (snd hdr))) (\<lambda>_.
                read_headers_limited E H new_limit))) s"

text \<open>Waiting for the five bytes that tell a status line from an HTTP/0.9 body.\<close>

partial_function (option) prefix_loop :: "('r, 'x) line_env_scheme \<Rightarrow> ('r, unit) act" where
  "prefix_loop E r =
     (if length (br_buffer E r) < length (lit ''HTTP/'') then
        io_bind (br_fill E) (\<lambda>n. if n = 0 then io_throw (Kind KUnexpectedEof) else prefix_loop E) r
      else io_return () r)"

definition read_status_line ::
  "('r, 'x) line_env_scheme \<Rightarrow> ('m, 'y) header_lib_scheme \<Rightarrow> ('r, (Version \<times> u16) \<times> nat) act" where
  "read_status_line E H =
     io_bind (prefix_loop E) (\<lambda>_.
     io_bind (io_get (\<lambda>r. take 5 (br_buffer E r))) (\<lambda>prefix.
     if prefix \<noteq> lit ''HTTP/'' then io_return ((Http09, 200), 0)
     else
       io_bind (read_line_in_place E) (\<lambda>(line, offset).
       let result = ok_or (HttpE (InvalidStatusLine line)) (parse_status_line H line) in
       io_bind (io_modify (br_consume E offset)) (\<lambda>_.
       io_bind (io_lift result) (\<lambda>result.
       io_return (result, offset))))))"

definition parse_response ::
  "('r, 'x) line_env_scheme \<Rightarrow> ('m, 'y) header_lib_scheme \<Rightarrow> Options \<Rightarrow> ('r \<times> 'm, u16 \<times> Version) act" where
  "parse_response E H options =
     io_bind (on_reader (read_status_line E H)) (\<lambda>((version, status), total_size).
     if version < op_min_version options \<or> version > op_max_version options
     then io_throw (HttpE (UnexpectedVersion version))
     else if version = Http09 then io_return (status, version)
     else
       io_bind (case nat_checked_sub (unat (op_maximum_header_size options)) total_size of
           Some limit \<Rightarrow> read_headers_limited E H limit
         | None \<Rightarrow> io_throw (HttpE HeadersTooLong)) (\<lambda>_.
       io_return (status, version)))"

section \<open>Heads on the wire\<close>

definition crlf :: bytes where "crlf = [0x0D, 0x0A]"

definition header_line :: "bytes \<times> bytes \<Rightarrow> bytes" where
  "header_line kv = fst kv @ [0x3A, 0x20] @ snd kv @ crlf"

definition header_wire :: "(bytes \<times> bytes) list \<Rightarrow> bytes" where
  "header_wire kvs = concat (map header_line kvs)"

definition header_ok :: "bytes \<times> bytes \<Rightarrow> bool" where
  "header_ok kv \<longleftrightarrow> token (fst kv) \<and> (\<forall>b\<in>set (snd kv). field_byte b)
     \<and> (snd kv = [] \<or> visible (hd (snd kv)))"

definition insert_all :: "('m, 'y) header_lib_scheme \<Rightarrow> (bytes \<times> bytes) list \<Rightarrow> 'm \<Rightarrow> 'm" where
  "insert_all H kvs m = fold (\<lambda>(k, v). hl_insert H (lower k) v) kvs m"

definition status_line :: "Version \<Rightarrow> bytes \<Rightarrow> bytes \<Rightarrow> bytes" where
  "status_line ver code reason = version_str ver @ [0x20] @ code @ [0x20] @ reason @ crlf"

lemma token_byte_facts:
  "token_byte b \<Longrightarrow> visible b" "token_byte b \<Longrightarrow> b \<noteq> 0x3A" "token_byte b \<Longrightarrow> b < 0x80"
  "field_byte b \<Longrightarrow> b < 0x80" "field_byte b \<Longrightarrow> b \<noteq> newline" "field_byte b \<Longrightarrow> b \<noteq> carriage_return"
  "token_byte b \<Longrightarrow> field_byte b" "field_byte 0x20" "field_byte 0x3A"
  by (auto simp: token_byte_def visible_def field_byte_def in_range_def word_le_nat_alt word_less_nat_alt)

lemma field_ascii: "\<forall>b\<in>set xs. field_byte b \<Longrightarrow> \<forall>b\<in>set (xs @ crlf). b < 0x80"
  using token_byte_facts(4) by (auto simp: crlf_def word_less_nat_alt)

lemma field_no_newline: "\<forall>b\<in>set xs. field_byte b \<Longrightarrow> newline \<notin> set (xs @ [carriage_return])"
  using token_byte_facts(5) by auto

lemma strip_line_crlf [simp]: "strip_line (xs @ crlf) = xs"
proof -
  have "strip_suffix newline (xs @ crlf) = Some (xs @ [carriage_return])"
    using strip_suffix_snoc [of newline "xs @ [carriage_return]" newline] by (simp add: crlf_def)
  then show ?thesis by (simp add: strip_line_def)
qed

lemma header_line_field:
  "header_ok kv \<Longrightarrow> \<forall>b\<in>set (fst kv @ [0x3A, 0x20] @ snd kv). field_byte b"
  by (auto simp: header_ok_def token_def token_byte_facts)

section \<open>Parsing a head\<close>

locale http_parser = line_source E incoming + header_map H plain
  for E :: "('r, 'x) line_env_scheme" and incoming :: "'r \<Rightarrow> bytes"
    and H :: "('m, 'y) header_lib_scheme" and plain :: "'m \<Rightarrow> bool"
begin

lemma read_line_crlf:
  assumes "br_buffer E r = xs @ crlf @ rest" and "\<forall>b\<in>set xs. field_byte b"
  shows "read_line_in_place E r = Some (Ok (xs, length xs + 2), r)"
proof -
  have "utf8_valid (xs @ crlf)" by (rule utf8_ascii [OF field_ascii [OF assms(2)]])
  with read_line_hit [of r "xs @ [carriage_return]" rest] assms field_no_newline [OF assms(2)]
  show ?thesis by (simp add: crlf_def) (simp add: crlf_def [symmetric])
qed

lemma parse_header_line_ok:
  assumes "header_ok kv"
  shows "parse_header_line H (fst kv @ [0x3A, 0x20] @ snd kv) = Ok (lower (fst kv), Some (snd kv))"
proof -
  obtain k v where kv: "kv = (k, v)" by (cases kv)
  with assms have k: "token k" and v: "\<forall>b\<in>set v. field_byte b" "v = [] \<or> visible (hd v)"
    by (simp_all add: header_ok_def)
  have "0x3A \<notin> set k" "trim k = k"
    using k token_byte_facts(1,2) by (auto simp: token_def intro!: trim_visible)
  moreover have "trim_start (0x20 # v) = v" using v(2) by (cases v) auto
  ultimately show ?thesis
    using k v(1) by (simp add: kv parse_header_line_def split_once_append name_token value_field)
qed

lemma read_header_line_ok:
  assumes "br_buffer E r = header_line kv @ rest" and "header_ok kv"
  shows "read_header_line_limited E H r =
    Some (Ok (Some (lower (fst kv), Some (snd kv), length (header_line kv))),
      br_consume E (length (header_line kv)) r)"
proof -
  let ?line = "fst kv @ [0x3A, 0x20] @ snd kv"
  have "read_line_in_place E r = Some (Ok (?line, length ?line + 2), r)"
    using read_line_crlf [of r ?line rest] header_line_field [OF assms(2)] assms(1)
    by (simp add: header_line_def)
  then show ?thesis
    using parse_header_line_ok [OF assms(2)]
    by (simp add: read_header_line_limited_def io_simps header_line_def crlf_def)
qed

lemma read_header_line_end:
  assumes "br_buffer E r = crlf @ rest"
  shows "read_header_line_limited E H r = Some (Ok None, br_consume E 2 r)"
  using read_line_crlf [of r "[]" rest] assms
  by (simp add: read_header_line_limited_def io_simps numeral_2_eq_2)

lemma read_headers_wire:
  assumes "br_buffer E r = header_wire kvs @ crlf @ rest" and "\<forall>kv\<in>set kvs. header_ok kv"
  shows "\<exists>r' m'. read_headers_limited E H limit (r, m) =
      Some (if length (header_wire kvs) \<le> limit then Ok () else Err (HttpE HeadersTooLong), (r', m'))
    \<and> (length (header_wire kvs) \<le> limit \<longrightarrow>
        m' = insert_all H kvs m \<and> br_buffer E r' = rest \<and> incoming r' = incoming r \<and> br_capacity E r' = br_capacity E r)"
  using assms
proof (induction kvs arbitrary: r m limit)
  case Nil
  then have "read_header_line_limited E H r = Some (Ok None, br_consume E 2 r)"
    by (intro read_header_line_end [of r rest]) (simp add: header_wire_def)
  with Nil consume [of 2 r] show ?case
    by (subst read_headers_limited.simps)
      (simp add: on_reader_def io_simps header_wire_def insert_all_def crlf_def)
next
  case (Cons kv kvs)
  let ?n = "length (header_line kv)"
  let ?r = "br_consume E ?n r"
  have buf: "br_buffer E r = header_line kv @ header_wire kvs @ crlf @ rest"
    using Cons.prems(1) by (simp add: header_wire_def)
  with Cons.prems(2) have line: "read_header_line_limited E H r =
      Some (Ok (Some (lower (fst kv), Some (snd kv), ?n)), ?r)"
    by (intro read_header_line_ok) simp_all
  have step: "read_headers_limited E H limit (r, m) =
      (if ?n \<le> limit then read_headers_limited E H (limit - ?n) (?r, hl_insert H (lower (fst kv)) (snd kv) m)
       else Some (Err (HttpE HeadersTooLong), (?r, m)))"
    using line
    by (subst read_headers_limited.simps)
      (simp add: on_reader_def io_simps nat_checked_sub_def insert_header_def headers_insert_def io_bind_def)
  have "br_buffer E ?r = header_wire kvs @ crlf @ rest" "incoming ?r = incoming r" "br_capacity E ?r = br_capacity E r"
    using consume [of ?n r] buf by simp_all
  with Cons.IH [of ?r "limit - ?n" "hl_insert H (lower (fst kv)) (snd kv) m"] Cons.prems(2)
  show ?case
    by (cases "?n \<le> limit")
      (auto simp: step header_wire_def insert_all_def case_prod_unfold le_diff_conv2 add.commute)
qed

lemma read_status_line_ok:
  assumes "br_buffer E r = status_line ver code reason @ rest" and "code = [a, b, c]"
    and "in_range 0x31 0x39 a" "in_range 0x30 0x39 b" "in_range 0x30 0x39 c"
    and "\<forall>b\<in>set reason. field_byte b"
  shows "read_status_line E H r =
    Some (Ok ((ver, the (hl_status H code)), length (status_line ver code reason)),
      br_consume E (length (status_line ver code reason)) r)"
proof -
  let ?line = "version_str ver @ [0x20] @ code @ [0x20] @ reason"
  have sp: "0x20 \<notin> set (version_str ver)" "0x20 \<notin> set code"
    using assms(2-5) by (cases ver; force simp: in_range_def word_le_nat_alt)+
  have field: "\<forall>b\<in>set ?line. field_byte b"
    using assms(2-6) by (cases ver) (auto simp: field_byte_def in_range_def word_le_nat_alt)
  have "prefix_loop E r = Some (Ok (), r)"
    using assms(1) by (subst prefix_loop.simps) (cases ver; simp add: status_line_def io_simps)
  moreover have "take 5 (br_buffer E r) = lit ''HTTP/''"
    using assms(1) by (cases ver) (simp_all add: status_line_def)
  moreover have "read_line_in_place E r = Some (Ok (?line, length ?line + 2), r)"
    using read_line_crlf [OF _ field, of r rest] assms(1) by (simp add: status_line_def)
  moreover have "parse_version (version_str ver) = Some ver"
    by (simp add: parse_version_eq) (cases ver; simp)
  then have "parse_status_line H ?line = Some (ver, the (hl_status H code))"
    using sp status_digits [OF assms(3-5)] assms(2)
    by (simp add: parse_status_line_def split_on_append)
  ultimately show ?thesis
    by (simp add: read_status_line_def io_simps status_line_def crlf_def del: lit_simps)
qed

end

interpretation http_script: http_parser script_line script_incoming alist_lib "\<lambda>m. distinct (map fst m)" ..

text \<open>The outcomes for a head that is in the buffer.\<close>

lemma parse_response_head:
  assumes parser: "http_parser E incoming H plain"
    and buf: "br_buffer E r = status_line ver code reason @ header_wire kvs @ crlf @ rest"
    and code: "code = [a, b, c]" "in_range 0x31 0x39 a" "in_range 0x30 0x39 b" "in_range 0x30 0x39 c"
    and reason: "\<forall>b\<in>set reason. field_byte b" and kvs: "\<forall>kv\<in>set kvs. header_ok kv"
  shows "\<exists>r' m'. parse_response E H options (r, m) =
      Some (if ver < op_min_version options \<or> op_max_version options < ver
              then Err (HttpE (UnexpectedVersion ver))
            else if ver \<noteq> Http09
              \<and> unat (op_maximum_header_size options) < length (status_line ver code reason @ header_wire kvs)
              then Err (HttpE HeadersTooLong)
            else Ok (the (hl_status H code), ver), (r', m'))
    \<and> (ver \<noteq> Http09 \<and> op_min_version options \<le> ver \<and> ver \<le> op_max_version options
        \<and> length (status_line ver code reason @ header_wire kvs) \<le> unat (op_maximum_header_size options) \<longrightarrow>
        m' = insert_all H kvs m \<and> br_buffer E r' = rest \<and> incoming r' = incoming r \<and> br_capacity E r' = br_capacity E r)"
proof -
  let ?n = "length (status_line ver code reason)"
  let ?max = "unat (op_maximum_header_size options)"
  let ?r = "br_consume E ?n r"
  have status: "read_status_line E H r = Some (Ok ((ver, the (hl_status H code)), ?n), ?r)"
    by (rule http_parser.read_status_line_ok [OF parser buf code reason])
  have consumed: "br_buffer E ?r = header_wire kvs @ crlf @ rest" "incoming ?r = incoming r" "br_capacity E ?r = br_capacity E r"
    using byte_source.consume [of E incoming ?n r] parser buf
    by (simp_all add: http_parser_def line_source_def)
  obtain r' m' where headers: "read_headers_limited E H (?max - ?n) (?r, m) =
      Some (if length (header_wire kvs) \<le> ?max - ?n then Ok () else Err (HttpE HeadersTooLong), (r', m'))"
    "length (header_wire kvs) \<le> ?max - ?n \<longrightarrow>
      m' = insert_all H kvs m \<and> br_buffer E r' = rest \<and> incoming r' = incoming ?r \<and> br_capacity E r' = br_capacity E ?r"
    using http_parser.read_headers_wire [OF parser consumed(1) kvs, of "?max - ?n" m] by blast
  note parse = parse_response_def on_reader_def io_simps nat_checked_sub_def status
  consider (range) "ver < op_min_version options \<or> op_max_version options < ver"
    | (old) "\<not> (ver < op_min_version options \<or> op_max_version options < ver)" "ver = Http09"
    | (line) "\<not> (ver < op_min_version options \<or> op_max_version options < ver)" "ver \<noteq> Http09" "?max < ?n"
    | (head) "\<not> (ver < op_min_version options \<or> op_max_version options < ver)" "ver \<noteq> Http09" "?n \<le> ?max"
    by linarith
  then show ?thesis
  proof cases
    case head
    then have "parse_response E H options (r, m) =
        Some (if length (header_wire kvs) \<le> ?max - ?n then Ok (the (hl_status H code), ver)
          else Err (HttpE HeadersTooLong), (r', m'))"
      using headers(1) by (simp add: parse)
    with head headers(2) consumed(2,3) show ?thesis by (auto simp: less_diff_conv2 le_diff_conv2 not_le)
  qed (auto simp: parse not_le)
qed

section \<open>Properties\<close>

text \<open>C15: A well-formed response head in the buffer is parsed to its status, version and headers (a later
  header replacing an earlier one of the same name) and the body is left, unless the version is
  outside the configured range, or the head is longer than the configured size; an HTTP/0.9
  status line is not followed by headers.\<close>

theorem parse_response_result:
  assumes parser: "http_parser E incoming H plain"
    and buf: "br_buffer E r = status_line ver code reason @ header_wire kvs @ crlf @ rest"
    and code: "code = [a, b, c]" "in_range 0x31 0x39 a" "in_range 0x30 0x39 b" "in_range 0x30 0x39 c"
    and reason: "\<forall>b\<in>set reason. field_byte b" and kvs: "\<forall>kv\<in>set kvs. header_ok kv"
  shows "\<exists>r' m'. parse_response E H options (r, m) =
      Some (if ver < op_min_version options \<or> op_max_version options < ver
              then Err (HttpE (UnexpectedVersion ver))
            else if ver \<noteq> Http09
              \<and> unat (op_maximum_header_size options) < length (status_line ver code reason @ header_wire kvs)
              then Err (HttpE HeadersTooLong)
            else Ok (the (hl_status H code), ver), (r', m'))
    \<and> (ver \<noteq> Http09 \<and> op_min_version options \<le> ver \<and> ver \<le> op_max_version options
        \<and> length (status_line ver code reason @ header_wire kvs) \<le> unat (op_maximum_header_size options) \<longrightarrow>
        m' = insert_all H kvs m \<and> br_buffer E r' = rest \<and> incoming r' = incoming r \<and> br_capacity E r' = br_capacity E r)"
  by (rule parse_response_head [OF assms])

theorem parse_response_result_witness:
  "\<exists>r'. parse_response script_line alist_lib Options_new
      (\<lparr>sc_buf = lit ''HTTP/1.1 200 OK'' @ crlf @ lit ''Age: 7'' @ crlf @ crlf @ [1, 2], sc_free = 9, sc_rest = []\<rparr>, [])
    = Some (Ok (200, Http11), (r', [(lit ''age'', lit ''7'')]))"
proof -
  let ?code = "lit ''200''" and ?kvs = "[(lit ''Age'', lit ''7'')]"
  let ?r = "\<lparr>sc_buf = lit ''HTTP/1.1 200 OK'' @ crlf @ lit ''Age: 7'' @ crlf @ crlf @ [1, 2], sc_free = 9, sc_rest = []\<rparr>"
  have buf: "br_buffer script_line ?r = status_line Http11 ?code (lit ''OK'') @ header_wire ?kvs @ crlf @ [1, 2]"
    by (simp add: status_line_def header_wire_def header_line_def)
  have ok: "\<forall>kv\<in>set ?kvs. header_ok kv"
    by (simp add: header_ok_def token_def token_byte_def field_byte_def visible_def in_range_def word_le_nat_alt)
  have "\<exists>r' m'. parse_response script_line alist_lib Options_new (?r, []) =
      Some (Ok (200, Http11), (r', m')) \<and> m' = insert_all alist_lib ?kvs []"
    using parse_response_result [OF http_script.http_parser_axioms buf _ _ _ _ _ ok, of _ _ _ Options_new "[]"]
    by (auto simp: Options_new_def DEFAULT_MAXIMUM_HEADER_SIZE_def status_line_def header_wire_def header_line_def
        crlf_def field_byte_def in_range_def word_le_nat_alt less_Version_def less_eq_Version_def alist_lib_def status_of_digits_def)
  moreover have "insert_all alist_lib ?kvs [] = [(lit ''age'', lit ''7'')]"
    by (simp add: insert_all_def alist_lib_def lower_def ascii_lower_def in_range_def word_le_nat_alt)
  ultimately show ?thesis by auto
qed

end
