(* ===== verification/Http_Body.thy ===== *)
theory Http_Body
  imports Http_Head
begin

text \<open>
  The response body: \<open>Body\<close> of \<open>src/src/http/body.rs\<close>, with its transfer state machine. \<open>read\<close>
  into a buffer of \<open>n\<close> bytes returns the bytes stored. Parsing the body kind from the response and
  the trailers are at the end.
\<close>

datatype ChunkedState = CSize | CExtension u64 | CData u64 | CTrailer

datatype Transfer = TEmpty | TConnection | TLength u64 | TChunks ChunkedState | TTrailers

record 'r Body =
  bd_reader :: 'r
  bd_transfer :: Transfer
  bd_reusable :: bool

definition on_body_reader :: "('r, 'a) act \<Rightarrow> ('r Body, 'a) act" where
  "on_body_reader m = io_zoom bd_reader (\<lambda>t s. s\<lparr>bd_reader := t\<rparr>) m"

definition set_transfer :: "Transfer \<Rightarrow> ('r Body, unit) act" where
  "set_transfer t = io_modify (\<lambda>s. s\<lparr>bd_transfer := t\<rparr>)"

section \<open>Reading bytes\<close>

definition read_bytes :: "('r, 'x) line_env_scheme \<Rightarrow> nat \<Rightarrow> ('r Body, bytes) act" where
  "read_bytes E n s =
     (if br_buffer E (bd_reader s) \<noteq> [] then on_body_reader (br_read E n) s
      else on_body_reader (br_inner_read E n) s)"

section \<open>Chunks\<close>

definition max_hex :: nat where "max_hex = 8 * 2 * 2 + 1"

text \<open>The loop gives the position of the first byte that is no hex digit, if there is one in time.\<close>

partial_function (option) chunk_size_loop :: "('r, 'x) line_env_scheme \<Rightarrow> ('r, nat option) act" where
  "chunk_size_loop E r =
     (let len = min (length (br_buffer E r)) max_hex;
          index = position (\<lambda>b. \<not> ascii_hexdigit b) (take len (br_buffer E r)) in
      if index \<noteq> None then io_return index r
      else if len \<ge> max_hex then io_return None r
      else io_bind (br_fill E) (\<lambda>n.
        if n = 0 then io_throw (UrlE PartialFile) else chunk_size_loop E) r)"

definition read_chunk_size :: "('r, 'x) line_env_scheme \<Rightarrow> ('r Body, unit) act" where
  "read_chunk_size E =
     io_bind (on_body_reader (chunk_size_loop E)) (\<lambda>index.
     io_bind (case index of
         None \<Rightarrow> io_throw (HttpE ChunkTooLarge)
       | Some index \<Rightarrow>
           io_bind (io_get (\<lambda>s. take index (br_buffer E (bd_reader s)))) (\<lambda>digits.
           if \<not> utf8_valid digits then io_panic
           else
             io_bind (on_body_reader (io_modify (br_consume E index))) (\<lambda>_.
             io_lift (ok_or (HttpE ChunkTooLarge) (u64_from_str_radix 16 digits))))) (\<lambda>chunk_size.
     set_transfer (TChunks (CExtension chunk_size))))"

partial_function (option) newline_loop :: "('r, 'x) line_env_scheme \<Rightarrow> ('r, unit) act" where
  "newline_loop E r =
     (case le_memchr E newline (br_buffer E r) of
        Some index \<Rightarrow> io_modify (br_consume E (index + 1)) r
      | None \<Rightarrow>
          io_bind (io_modify (br_discard E)) (\<lambda>_.
          io_bind (br_fill E) (\<lambda>n.
          if n = 0 then io_throw (UrlE PartialFile) else newline_loop E)) r)"

definition read_until_newline :: "('r, 'x) line_env_scheme \<Rightarrow> ('r Body, unit) act" where
  "read_until_newline E =
     io_bind (on_body_reader (newline_loop E)) (\<lambda>_.
     io_bind (io_get bd_transfer) (\<lambda>t.
     case t of
       TChunks (CExtension sz) \<Rightarrow> set_transfer (if sz = 0 then TTrailers else TChunks (CData sz))
     | _ \<Rightarrow> set_transfer (TChunks CSize)))"

text \<open>Reading at most \<open>remaining\<close> bytes: what is left afterwards decides the next state.\<close>

definition read_counted ::
  "('r, 'x) line_env_scheme \<Rightarrow> nat \<Rightarrow> u64 \<Rightarrow> (u64 \<Rightarrow> Transfer) \<Rightarrow> ('r Body, bytes) act" where
  "read_counted E n remaining next =
     (case br_read_into E n (unat remaining) of
        None \<Rightarrow> io_return []
      | Some n' \<Rightarrow>
          io_bind (read_bytes E n') (\<lambda>data.
          if data = [] then io_throw (UrlE PartialFile)
          else
            case checked_sub remaining (word_of_nat (length data)) of
              None \<Rightarrow> io_panic
            | Some remaining \<Rightarrow>
                io_bind (set_transfer (next remaining)) (\<lambda>_. io_return data)))"

definition after_data :: "u64 \<Rightarrow> Transfer" where
  "after_data remaining = (if remaining = 0 then TChunks CTrailer else TChunks (CData remaining))"

definition after_length :: "u64 \<Rightarrow> Transfer" where
  "after_length remaining = (if remaining > 0 then TLength remaining else TEmpty)"

partial_function (option) read_chunks ::
  "('r, 'x) line_env_scheme \<Rightarrow> ChunkedState \<Rightarrow> nat \<Rightarrow> ('r Body, bytes) act" where
  "read_chunks E state n s =
     (case state of
        CData remaining \<Rightarrow> read_counted E n remaining after_data s
      | _ \<Rightarrow>
          io_bind (if state = CSize then read_chunk_size E else read_until_newline E) (\<lambda>_ s.
          case bd_transfer s of
            TChunks st \<Rightarrow> read_chunks E st n s
          | _ \<Rightarrow> io_return [] s) s)"

section \<open>Read for Body\<close>

definition body_read :: "('r, 'x) line_env_scheme \<Rightarrow> nat \<Rightarrow> ('r Body, bytes) act" where
  "body_read E n s =
     (case bd_transfer s of
        TEmpty \<Rightarrow> io_return [] s
      | TTrailers \<Rightarrow> io_return [] s
      | TChunks state \<Rightarrow> read_chunks E state n s
      | TConnection \<Rightarrow>
          (case br_read_into E n (2 ^ 64 - 1) of
             None \<Rightarrow> io_return [] s
           | Some n' \<Rightarrow>
               io_bind (read_bytes E n') (\<lambda>data.
               io_bind (if data = [] then set_transfer TEmpty else io_return ()) (\<lambda>_.
               io_return data)) s)
      | TLength remaining \<Rightarrow> read_counted E n remaining after_length s)"

definition body_remaining :: "'r Body \<Rightarrow> u64 option" where
  "body_remaining s = (case bd_transfer s of TEmpty \<Rightarrow> Some 0 | TLength remaining \<Rightarrow> Some remaining | _ \<Rightarrow> None)"

section \<open>Body::new\<close>

definition bodyless :: "bytes \<Rightarrow> u16 \<Rightarrow> bool" where
  "bodyless method status \<longleftrightarrow> method = lit ''HEAD'' \<or> status \<in> {204, 304}
     \<or> 100 \<le> status \<and> status < 200"

definition body_transfer ::
  "('m, 'y) header_lib_scheme \<Rightarrow> bytes \<Rightarrow> u16 \<Rightarrow> 'm \<Rightarrow> Transfer res" where
  "body_transfer H method status headers =
     (if bodyless method status then Ok TEmpty
      else
        res_bind (headers_get_str H (KName (lit ''transfer-encoding'')) headers) (\<lambda>encoding.
        case encoding of
          Some encoding \<Rightarrow>
            Ok (if list_ex (\<lambda>e. eq_ignore_ascii_case (trim e) (lit ''chunked'')) (split_on 0x2C encoding)
                then TChunks CSize else TConnection)
        | None \<Rightarrow>
            res_bind (headers_get_str H (KName (lit ''content-length'')) headers) (\<lambda>content_length.
            case content_length of
              Some len \<Rightarrow>
                map_ok TLength (ok_or (HttpE (InvalidHeader (lit ''content-length'') len)) (u64_parse len))
            | None \<Rightarrow> Ok TConnection)))"

definition body_new ::
  "('m, 'y) header_lib_scheme \<Rightarrow> 'r \<Rightarrow> bytes \<Rightarrow> u16 \<Rightarrow> 'm \<Rightarrow> 'r Body res" where
  "body_new H reader method status headers =
     res_bind (body_transfer H method status headers) (\<lambda>transfer.
     res_bind (headers_get_str H (KName (lit ''connection'')) headers) (\<lambda>conn.
     Ok \<lparr>bd_reader = reader, bd_transfer = transfer,
       bd_reusable = (case conn of Some conn \<Rightarrow> eq_ignore_ascii_case conn (lit ''keep-alive'') | None \<Rightarrow> False)\<rparr>))"

section \<open>Trailers\<close>

definition read_trailer ::
  "('r, 'x) line_env_scheme \<Rightarrow> ('m, 'y) header_lib_scheme \<Rightarrow> ('r Body, (bytes \<times> bytes option \<times> nat) option) act" where
  "read_trailer E H =
     io_bind (io_get bd_transfer) (\<lambda>t.
     if t \<noteq> TTrailers then io_panic
     else
       io_bind (on_body_reader (read_header_line_limited E H)) (\<lambda>header.
       io_bind (if header = None then set_transfer TEmpty else io_return ()) (\<lambda>_.
       io_return header)))"

partial_function (option) read_trailers_loop ::
  "('r, 'x) line_env_scheme \<Rightarrow> ('m, 'y) header_lib_scheme \<Rightarrow> 'm \<Rightarrow> ('r Body, 'm) act" where
  "read_trailers_loop E H headers s =
     io_bind (read_trailer E H) (\<lambda>header.
       case header of
         None \<Rightarrow> io_return headers
       | Some hdr \<Rightarrow>
           io_bind (io_lift (headers_insert H (KName (fst hdr))
               (VValue (case fst (snd hdr) of Some v \<Rightarrow> v | None \<Rightarrow> [])) headers)) (\<lambda>headers.
           read_trailers_loop E H headers)) s"

definition read_trailers ::
  "('r, 'x) line_env_scheme \<Rightarrow> ('m, 'y) header_lib_scheme \<Rightarrow> ('r Body, 'm) act" where
  "read_trailers E H = read_trailers_loop E H (hl_new H)"

end
