(* ===== verification/Net_Addr.thy ===== *)
theory Net_Addr
  imports Text
begin

text \<open>
  \<open>IpAddr\<close> of the standard library and its \<open>FromStr\<close>, which \<open>resolve_ips\<close> and the hosts file use
  (\<open>src/src/dns/resolver.rs\<close>, \<open>src/src/dns/hosts.rs\<close>): decimal octets without leading zeros, or up
  to eight groups of hex digits with one \<open>::\<close> and an optional IPv4 tail. A parser takes the text
  and gives the value with the text that is left.
\<close>

datatype IpAddr = V4 u32 | V6 "128 word"

type_synonym 'a ip_parser = "bytes \<Rightarrow> ('a \<times> bytes) option"

section \<open>Numbers and separators\<close>

fun take_digits :: "nat \<Rightarrow> bytes \<Rightarrow> nat list \<times> bytes" where
  "take_digits radix [] = ([], [])"
| "take_digits radix (b # bs) =
     (case to_digit radix b of
        None \<Rightarrow> ([], b # bs)
      | Some d \<Rightarrow> (let (ds, rest) = take_digits radix bs in (d # ds, rest)))"

definition digits_value :: "nat \<Rightarrow> nat list \<Rightarrow> nat" where
  "digits_value radix ds = foldl (\<lambda>acc d. acc * radix + d) 0 ds"

definition read_number :: "nat \<Rightarrow> nat \<Rightarrow> bool \<Rightarrow> nat \<Rightarrow> nat ip_parser" where
  "read_number radix max_digits allow_zero_prefix limit s =
     (let (ds, rest) = take_digits radix s in
      if ds = [] \<or> length ds > max_digits
        \<or> \<not> allow_zero_prefix \<and> hd ds = 0 \<and> length ds > 1 \<or> digits_value radix ds \<ge> limit
      then None else Some (digits_value radix ds, rest))"

definition read_char :: "u8 \<Rightarrow> unit ip_parser" where
  "read_char c s = (case s of b # bs \<Rightarrow> if b = c then Some ((), bs) else None | [] \<Rightarrow> None)"

definition read_separator :: "u8 \<Rightarrow> nat \<Rightarrow> 'a ip_parser \<Rightarrow> 'a ip_parser" where
  "read_separator c index inner s =
     (if index > 0 then Option.bind (read_char c s) (\<lambda>(_, s). inner s) else inner s)"

section \<open>IPv4\<close>

fun read_octets :: "nat \<Rightarrow> nat \<Rightarrow> nat list ip_parser" where
  "read_octets i 0 s = Some ([], s)"
| "read_octets i (Suc n) s =
     Option.bind (read_separator 0x2E i (read_number 10 3 False 256) s) (\<lambda>(v, s).
     Option.bind (read_octets (Suc i) n s) (\<lambda>(vs, s). Some (v # vs, s)))"

definition read_ipv4 :: "nat list ip_parser" where
  "read_ipv4 s = read_octets 0 4 s"

definition ipv4_word :: "nat list \<Rightarrow> u32" where
  "ipv4_word vs = word_of_nat (digits_value 256 vs)"

section \<open>IPv6\<close>

text \<open>
  \<open>read_groups\<close> reads up to \<open>n\<close> groups, starting with number \<open>i\<close>, and tells whether they ended with
  an IPv4 address, which stands for two groups.
\<close>

fun read_groups :: "nat \<Rightarrow> nat \<Rightarrow> bytes \<Rightarrow> nat list \<times> bool \<times> bytes" where
  "read_groups i 0 s = ([], False, s)"
| "read_groups i (Suc n) s =
     (case (if n > 0 then read_separator 0x3A i read_ipv4 s else None) of
        Some ([a, b, c, d], s) \<Rightarrow> ([a * 256 + b, c * 256 + d], True, s)
      | _ \<Rightarrow>
          (case read_separator 0x3A i (read_number 16 4 True 65536) s of
             None \<Rightarrow> ([], False, s)
           | Some (v, s) \<Rightarrow>
               (let (vs, v4, s) = read_groups (Suc i) n s in (v # vs, v4, s))))"

definition read_ipv6 :: "nat list ip_parser" where
  "read_ipv6 s =
     (let (head, head_v4, s) = read_groups 0 8 s in
      if length head = 8 then Some (head, s)
      else if head_v4 then None
      else
        Option.bind (read_char 0x3A s) (\<lambda>(_, s).
        Option.bind (read_char 0x3A s) (\<lambda>(_, s).
        let (tail, _, s) = read_groups 0 (8 - (length head + 1)) s in
        Some (head @ replicate (8 - (length head + length tail)) 0 @ tail, s))))"

definition ipv6_word :: "nat list \<Rightarrow> 128 word" where
  "ipv6_word vs = word_of_nat (digits_value 65536 vs)"

definition ip_parse :: "bytes \<Rightarrow> IpAddr option" where
  "ip_parse s =
     (case read_ipv4 s of
        Some (vs, rest) \<Rightarrow> if rest = [] then Some (V4 (ipv4_word vs)) else None
      | None \<Rightarrow>
          (case read_ipv6 s of
             Some (vs, rest) \<Rightarrow> if rest = [] then Some (V6 (ipv6_word vs)) else None
           | None \<Rightarrow> None))"

section \<open>Printing and parsing IPv4\<close>

definition show_ipv4 :: "nat list \<Rightarrow> bytes" where
  "show_ipv4 vs = (case vs of [a, b, c, d] \<Rightarrow>
     digits 10 a @ [0x2E] @ digits 10 b @ [0x2E] @ digits 10 c @ [0x2E] @ digits 10 d | _ \<Rightarrow> [])"

definition no_digit :: "nat \<Rightarrow> bytes \<Rightarrow> bool" where
  "no_digit radix s \<longleftrightarrow> (case s of [] \<Rightarrow> True | b # _ \<Rightarrow> to_digit radix b = None)"

fun digit_list :: "nat \<Rightarrow> nat \<Rightarrow> nat list" where
  "digit_list radix v = (if radix < 2 \<or> v < radix then [v]
     else digit_list radix (v div radix) @ [v mod radix])"

declare digit_list.simps [simp del]

lemma digits_list: "digits radix v = map digit_char (digit_list radix v)"
proof (induction v rule: less_induct)
  case (less v)
  show ?case
  proof (cases "radix < 2 \<or> v < radix")
    case True
    then show ?thesis by (simp add: digits.simps [of radix v] digit_list.simps [of radix v])
  next
    case False
    then show ?thesis using less.IH [of "v div radix"]
      by (simp add: digits.simps [of radix v] digit_list.simps [of radix v])
  qed
qed

lemma digit_list_less:
  "2 \<le> radix \<Longrightarrow> \<forall>d\<in>set (digit_list radix v). d < radix"
proof (induction v rule: less_induct)
  case (less v)
  show ?case
  proof (cases "v < radix")
    case False
    with less.prems have "v div radix < v" by simp
    from less.IH [OF this less.prems] less.prems show ?thesis
      by (subst digit_list.simps) auto
  qed (subst digit_list.simps, simp)
qed

lemma digits_value_list: "2 \<le> radix \<Longrightarrow> digits_value radix (digit_list radix v) = v"
proof (induction v rule: less_induct)
  case (less v)
  show ?case
  proof (cases "v < radix")
    case False
    then show ?thesis using less.IH [of "v div radix"] less.prems
      by (simp add: digit_list.simps [of radix v] digits_value_def)
  qed (simp add: digit_list.simps [of radix v] digits_value_def)
qed

lemma hd_digit_list: "2 \<le> radix \<Longrightarrow> 0 < v \<Longrightarrow> hd (digit_list radix v) \<noteq> 0"
proof (induction v rule: less_induct)
  case (less v)
  have ne: "digit_list radix w \<noteq> []" for w by (subst digit_list.simps) simp
  show ?case
  proof (cases "v < radix")
    case False
    then have "0 < v div radix" using less.prems by (simp add: div_greater_zero_iff)
    with False show ?thesis using less.IH [of "v div radix"] less.prems ne
      by (simp add: digit_list.simps [of radix v] hd_append)
  qed (use less.prems in \<open>simp add: digit_list.simps [of radix v]\<close>)
qed

lemma take_digits_map:
  assumes "\<forall>d\<in>set ds. d < radix" and "radix \<le> 36" and "no_digit radix s"
  shows "take_digits radix (map digit_char ds @ s) = (ds, s)"
  using assms
proof (induction ds)
  case Nil
  then show ?case by (cases s) (auto simp: no_digit_def)
qed (simp add: to_digit_char)

lemma read_number_digits:
  assumes "2 \<le> radix" and "radix \<le> 36" and "v < limit" and "limit \<le> radix ^ n" and "0 < n" and "no_digit radix s"
  shows "read_number radix n False limit (digits radix v @ s) = Some (v, s)"
proof -
  let ?ds = "digit_list radix v"
  have "take_digits radix (digits radix v @ s) = (?ds, s)"
    unfolding digits_list using assms by (intro take_digits_map digit_list_less) simp_all
  moreover have "length ?ds \<le> n"
    using length_digits [OF assms(1), of v n] assms(3,4,5) by (simp add: digits_list)
  moreover have "?ds \<noteq> []" by (subst digit_list.simps) simp
  moreover have "\<not> (hd ?ds = 0 \<and> 1 < length ?ds)"
  proof (cases "v = 0")
    case True
    then show ?thesis using assms(1) by (subst (1 2) digit_list.simps) simp
  qed (use hd_digit_list [OF assms(1), of v] in simp)
  moreover have "digits_value radix ?ds = v" by (rule digits_value_list [OF assms(1)])
  ultimately show ?thesis using assms(3) by (simp add: read_number_def Let_def not_le)
qed

lemma read_octets_4:
  "read_octets 0 4 s = read_octets 0 (Suc (Suc (Suc (Suc 0)))) s"
  by (simp add: numeral_eq_Suc)

lemma no_digit_dot: "no_digit 10 (0x2E # s)" "no_digit 10 []"
  by (simp_all add: no_digit_def to_digit_def in_range_def word_le_nat_alt)

lemma read_show_ipv4:
  assumes "a < 256" "b < 256" "c < 256" "d < 256" and "no_digit 10 s"
  shows "read_ipv4 (show_ipv4 [a, b, c, d] @ s) = Some ([a, b, c, d], s)"
proof -
  have n: "read_number 10 3 False 256 (digits 10 v @ t) = Some (v, t)" if "v < 256" "no_digit 10 t" for v t
    using that by (intro read_number_digits) simp_all
  show ?thesis
    unfolding read_ipv4_def show_ipv4_def read_octets_4
    using assms no_digit_dot by (simp add: read_separator_def read_char_def n)
qed

text \<open>No address starts with a letter that is not a hex digit.\<close>

lemma ip_parse_letter:
  assumes "to_digit 10 b = None" and "to_digit 16 b = None" and "b \<noteq> 0x3A"
  shows "ip_parse (b # bs) = None"
proof -
  have num: "read_number 10 k z l (b # bs) = None" "read_number 16 k z l (b # bs) = None" for k z l
    using assms by (simp_all add: read_number_def)
  have v4: "read_ipv4 (b # bs) = None"
    unfolding read_ipv4_def read_octets_4 by (simp add: read_separator_def num)
  have "read_groups 0 (Suc n) (b # bs) = ([], False, b # bs)" for n
    by (simp add: read_separator_def num v4)
  from this [of 7] have "read_ipv6 (b # bs) = None"
    using assms(3) by (simp add: read_ipv6_def read_char_def)
  with v4 show ?thesis by (simp add: ip_parse_def)
qed

end
