(* ===== verification/Dns_Lookup.thy ===== *)
theory Dns_Lookup
  imports Net_Addr
begin

text \<open>
  The DNS services of \<open>src/src/dns\<close>: \<open>Answer\<close> and \<open>Lookup\<close> (\<open>lookup.rs\<close>), the hosts file
  (\<open>hosts.rs\<close>) and name servers (\<open>name_server.rs\<close>). The wire format and the names belong to the
  \<open>simple_dns\<close> package, sockets and timeouts to \<open>xx_pulse\<close>: both are fields of \<open>dns_lib\<close>, over
  the state \<open>'w\<close> of the system. \<open>dl_lower\<close> is \<open>str::to_lowercase\<close>, whose Unicode tables are not
  written out.
\<close>

record packet =
  pk_id :: u16
  pk_rcode :: response_code
  pk_questions :: "question list"
  pk_answers :: "dns_record list"
  pk_name_servers :: "dns_record list"
  pk_additional_records :: "dns_record list"

record Answer =
  an_query :: question
  an_records :: "dns_record list"
  an_valid_until :: "nat option"

definition Answer_new :: "question \<Rightarrow> dns_record list \<Rightarrow> nat option \<Rightarrow> Answer" where
  "Answer_new query records valid_until =
     \<lparr>an_query = query, an_records = records, an_valid_until = valid_until\<rparr>"

record Response =
  rs_rcode :: response_code
  rs_questions :: "question list"
  rs_answers :: "dns_record list"
  rs_name_servers :: "dns_record list"
  rs_additional_records :: "dns_record list"

definition Response_from :: "packet \<Rightarrow> Response" where
  "Response_from p = \<lparr>rs_rcode = pk_rcode p, rs_questions = pk_questions p, rs_answers = pk_answers p,
     rs_name_servers = pk_name_servers p, rs_additional_records = pk_additional_records p\<rparr>"

text \<open>
  \<open>dl_write_query cap id q\<close> is \<open>Packet::new_query(id)\<close> with the flag for recursion and the
  question \<open>q\<close>, written into a buffer of \<open>cap\<close> bytes. \<open>dl_timeout\<close> gives \<open>None\<close> when the time is up.
  \<open>dl_join\<close> runs two lookups together.
\<close>

record 'w dns_lib =
  dl_lower :: "bytes \<Rightarrow> bytes"
  dl_name :: "bytes \<Rightarrow> nat + dns_name"
  dl_random_id :: "('w, u16) act"
  dl_write_query :: "nat \<Rightarrow> u16 \<Rightarrow> question \<Rightarrow> nat + bytes"
  dl_parse :: "bytes \<Rightarrow> nat + packet"
  dl_udp_connect :: "IpAddr \<Rightarrow> u16 \<Rightarrow> ('w, nat) act"
  dl_send :: "nat \<Rightarrow> bytes \<Rightarrow> ('w, nat) act"
  dl_recv_from :: "nat \<Rightarrow> IpAddr \<Rightarrow> u16 \<Rightarrow> nat \<Rightarrow> ('w, bytes) act"
  dl_timeout :: "nat \<Rightarrow> ('w, Response) act \<Rightarrow> 'w \<Rightarrow> (Response res option \<times> 'w) option"
  dl_join :: "('w, Answer) act \<Rightarrow> ('w, Answer) act \<Rightarrow> 'w \<Rightarrow> ((Answer res \<times> Answer res) \<times> 'w) option"

section \<open>The hosts file\<close>

record Results =
  res_a :: "dns_record list"
  res_aaaa :: "dns_record list"

type_synonym Hosts = "dns_name \<Rightarrow> Results option"

fun next_word :: "bytes \<Rightarrow> bytes \<times> bytes" where
  "next_word [] = ([], [])"
| "next_word (b # bs) = (if space_start (b # bs) > 0 then ([], b # bs)
     else (let (w, rest) = next_word bs in (b # w, rest)))"

lemma next_word_length: "length (snd (next_word bs)) \<le> length bs"
  by (induction bs) (auto simp: case_prod_unfold Let_def)

lemma next_word_progress: "space_start xs = 0 \<Longrightarrow> xs \<noteq> [] \<Longrightarrow> length (snd (next_word xs)) < length xs"
  by (cases xs) (auto simp: case_prod_unfold Let_def next_word_length less_Suc_eq_le)

lemma space_start_le: "space_start xs \<le> length xs"
  by (auto simp: space_start_def split: list.split)

text \<open>\<open>str::split_whitespace\<close>.\<close>

function split_whitespace :: "bytes \<Rightarrow> bytes list" where
  "split_whitespace xs =
     (if xs = [] then []
      else if space_start xs > 0 then split_whitespace (drop (space_start xs) xs)
      else (let (w, rest) = next_word xs in w # split_whitespace rest))"
  by pat_completeness auto
termination
proof (relation "measure length")
  fix xs :: bytes and x w rest
  assume "xs \<noteq> []" "\<not> 0 < space_start xs" "x = next_word xs" "(w, rest) = x"
  then show "(rest, xs) \<in> measure length"
    using next_word_progress [of xs] by (cases "next_word xs") auto
qed auto

declare split_whitespace.simps [simp del]

definition host_rdata :: "IpAddr \<Rightarrow> rdata" where
  "host_rdata ip = (case ip of V4 a \<Rightarrow> RData_A a | V6 a \<Rightarrow> RData_AAAA a)"

definition empty_results :: Results where
  "empty_results = \<lparr>res_a = [], res_aaaa = []\<rparr>"

definition push_host :: "('w, 'x) dns_lib_scheme \<Rightarrow> IpAddr \<Rightarrow> bytes \<Rightarrow> Hosts \<Rightarrow> Hosts" where
  "push_host L ip host hosts =
     (case dl_name L (dl_lower L host) of
        Inl e \<Rightarrow> hosts
      | Inr name \<Rightarrow>
          (let results = (case hosts name of Some r \<Rightarrow> r | None \<Rightarrow> empty_results);
               record = \<lparr>rec_name = name, rec_class = CLASS_IN, rec_ttl = 0, rec_data = host_rdata ip\<rparr>
           in hosts(name \<mapsto> (case ip of
                V4 _ \<Rightarrow> results\<lparr>res_a := res_a results @ [record]\<rparr>
              | V6 _ \<Rightarrow> results\<lparr>res_aaaa := res_aaaa results @ [record]\<rparr>))))"

definition hosts_line :: "('w, 'x) dns_lib_scheme \<Rightarrow> bytes \<Rightarrow> Hosts \<Rightarrow> Hosts" where
  "hosts_line L line hosts =
     (let line = trim (hd (split_on 0x23 line)) in
      if line = [] then hosts
      else
        case split_whitespace line of
          [] \<Rightarrow> hosts
        | ip # tokens \<Rightarrow>
            (case ip_parse ip of
               None \<Rightarrow> hosts
             | Some ip \<Rightarrow> fold (push_host L ip) tokens hosts))"

text \<open>\<open>Hosts::new\<close> on the lines of the file, a line that cannot be read ending it with its error.\<close>

fun hosts_load :: "('w, 'x) dns_lib_scheme \<Rightarrow> bytes res list \<Rightarrow> Hosts \<Rightarrow> Hosts res" where
  "hosts_load L [] hosts = Ok hosts"
| "hosts_load L (line # lines) hosts =
     res_bind line (\<lambda>line. hosts_load L lines (hosts_line L line hosts))"

definition hosts_new :: "('w, 'x) dns_lib_scheme \<Rightarrow> bytes res list \<Rightarrow> Hosts res" where
  "hosts_new L lines = hosts_load L lines (\<lambda>_. None)"

definition hosts_lookup :: "Hosts \<Rightarrow> question \<Rightarrow> ('w, Answer) act" where
  "hosts_lookup hosts query =
     (case hosts (qname query) of
        None \<Rightarrow> io_throw (DnsE NoData)
      | Some results \<Rightarrow>
          (let results = (case qtype query of
               QTYPE_TYPE TYPE_A \<Rightarrow> Some (res_a results)
             | QTYPE_TYPE TYPE_AAAA \<Rightarrow> Some (res_aaaa results)
             | _ \<Rightarrow> None)
           in case results of
                Some records \<Rightarrow> io_return (Answer_new query records None)
              | None \<Rightarrow> io_throw (DnsE NoData)))"

section \<open>Name servers\<close>

record NameServer =
  ns_ip :: IpAddr

definition MAX_PACKET_LENGTH :: nat where "MAX_PACKET_LENGTH = 900"

text \<open>Datagrams that do not parse or answer another message are skipped.\<close>

partial_function (option) recv_loop ::
  "('w, 'x) dns_lib_scheme \<Rightarrow> NameServer \<Rightarrow> u16 \<Rightarrow> nat \<Rightarrow> ('w, Response) act" where
  "recv_loop L ns mid socket w =
     io_bind (dl_recv_from L socket (ns_ip ns) 53 MAX_PACKET_LENGTH) (\<lambda>data.
       case dl_parse L data of
         Inl err \<Rightarrow> recv_loop L ns mid socket
       | Inr response \<Rightarrow>
           if pk_id response \<noteq> mid then recv_loop L ns mid socket
           else io_return (Response_from response)) w"

definition transact ::
  "('w, 'x) dns_lib_scheme \<Rightarrow> NameServer \<Rightarrow> u16 \<Rightarrow> question \<Rightarrow> ('w, Response) act" where
  "transact L ns mid query =
     (case dl_write_query L MAX_PACKET_LENGTH mid query of
        Inl e \<Rightarrow> io_throw (DnsE (OtherDns e))
      | Inr request \<Rightarrow>
          io_bind (dl_udp_connect L (ns_ip ns) 53) (\<lambda>socket.
          io_bind (dl_send L socket request) (\<lambda>_.
          recv_loop L ns mid socket)))"

definition record_matches :: "question \<Rightarrow> dns_record \<Rightarrow> bool" where
  "record_matches query r \<longleftrightarrow> QCLASS_CLASS (rec_class r) = qclass query
     \<and> QTYPE_TYPE (type_code (rec_data r)) = qtype query"

definition no_records :: "Response \<Rightarrow> error" where
  "no_records response = DnsE (NoRecords (rs_questions response)
     (case rs_name_servers response of [] \<Rightarrow> None | r # _ \<Rightarrow> Some r) (rs_rcode response))"

definition answer_from :: "question \<Rightarrow> Response \<Rightarrow> Answer res" where
  "answer_from query response =
     (if rs_rcode response = NoError then
        let all = rs_answers response @ rs_name_servers response @ rs_additional_records response;
            has_answer = list_ex (\<lambda>r. qname query = rec_name r) all;
            records = filter (record_matches query) all
        in if records \<noteq> [] then Ok (Answer_new query records None)
           else if has_answer then Err (DnsE NoData)
           else Err (no_records response)
      else Err (no_records response))"

lemma answer_from_response:
  fixes query p
  defines "all \<equiv> pk_answers p @ pk_name_servers p @ pk_additional_records p"
  defines "records \<equiv> filter (\<lambda>r. QCLASS_CLASS (rec_class r) = qclass query \<and> QTYPE_TYPE (type_code (rec_data r)) = qtype query) all"
  shows "answer_from query (Response_from p) =
    (if pk_rcode p = NoError \<and> records \<noteq> [] then Ok \<lparr>an_query = query, an_records = records, an_valid_until = None\<rparr>
     else if pk_rcode p = NoError \<and> (\<exists>r\<in>set all. rec_name r = qname query) then Err (DnsE NoData)
     else Err (DnsE (NoRecords (pk_questions p)
       (if pk_name_servers p = [] then None else Some (hd (pk_name_servers p))) (pk_rcode p))))"
proof -
  have "record_matches query = (\<lambda>r. QCLASS_CLASS (rec_class r) = qclass query \<and> QTYPE_TYPE (type_code (rec_data r)) = qtype query)"
    by (simp add: fun_eq_iff record_matches_def)
  then have "filter (record_matches query) all = records" by (simp add: records_def)
  moreover have "list_ex (\<lambda>r. qname query = rec_name r) all \<longleftrightarrow> (\<exists>r\<in>set all. rec_name r = qname query)"
    unfolding list_ex_iff by metis
  ultimately show ?thesis
    by (simp add: answer_from_def Response_from_def Let_def no_records_def Answer_new_def split: list.split
        flip: all_def del: filter_append)
qed

definition name_server_lookup ::
  "('w, 'x) dns_lib_scheme \<Rightarrow> NameServer \<Rightarrow> question \<Rightarrow> ('w, Answer) act" where
  "name_server_lookup L ns query =
     io_bind (dl_random_id L) (\<lambda>id w.
       case dl_timeout L 5 (transact L ns id query) w of
         None \<Rightarrow> None
       | Some (out, w) \<Rightarrow>
           io_bind (io_lift (case out of None \<Rightarrow> Err (UrlE DnsTimedOut) | Some r \<Rightarrow> r)) (\<lambda>response.
           io_lift (answer_from query response)) w)"

section \<open>The contract of Lookup\<close>

text \<open>
  What the resolver relies on: a service does not panic, and for a name one of whose two address
  queries succeeds, the records of the two answers contain an address.
\<close>

definition address_query :: "dns_name \<Rightarrow> record_type \<Rightarrow> question" where
  "address_query name t = \<lparr>qname = name, qtype = QTYPE_TYPE t, qclass = QCLASS_CLASS CLASS_IN,
     unicast_response = False\<rparr>"

definition is_address :: "rdata \<Rightarrow> bool" where
  "is_address d = (case d of RData_A _ \<Rightarrow> True | RData_AAAA _ \<Rightarrow> True | _ \<Rightarrow> False)"

definition answer_records :: "Answer res \<Rightarrow> dns_record list" where
  "answer_records r = (case r of Ok a \<Rightarrow> an_records a | _ \<Rightarrow> [])"

locale lookup_service =
  fixes lookup :: "question \<Rightarrow> ('w, Answer) act"
  assumes no_panic: "lookup q w \<noteq> Some (Panic, w')"
    and address: "lookup (address_query name TYPE_A) w1 = Some (ra, w1') \<Longrightarrow>
        lookup (address_query name TYPE_AAAA) w2 = Some (raaaa, w2') \<Longrightarrow> is_Ok ra \<or> is_Ok raaaa \<Longrightarrow>
        \<exists>r\<in>set (answer_records ra @ answer_records raaaa). is_address (rec_data r)"

subsection \<open>Hosts\<close>

definition hosts_inv :: "Hosts \<Rightarrow> bool" where
  "hosts_inv hosts \<longleftrightarrow> (\<forall>name results. hosts name = Some results \<longrightarrow>
     res_a results @ res_aaaa results \<noteq> []
     \<and> (\<forall>r\<in>set (res_a results). \<exists>a. rec_data r = RData_A a)
     \<and> (\<forall>r\<in>set (res_aaaa results). \<exists>a. rec_data r = RData_AAAA a)
     \<and> (\<forall>r\<in>set (res_a results @ res_aaaa results). rec_name r = name))"

lemma push_host_inv: "hosts_inv hosts \<Longrightarrow> hosts_inv (push_host L ip host hosts)"
  by (cases ip) (auto simp: push_host_def hosts_inv_def Let_def host_rdata_def empty_results_def
      split: sum.split option.splits)

lemma hosts_line_inv: "hosts_inv hosts \<Longrightarrow> hosts_inv (hosts_line L line hosts)"
proof -
  have "hosts_inv h \<Longrightarrow> hosts_inv (fold (push_host L ip) tokens h)" for ip tokens h
    by (induction tokens arbitrary: h) (auto intro: push_host_inv)
  then show "hosts_inv hosts \<Longrightarrow> hosts_inv (hosts_line L line hosts)"
    by (auto simp: hosts_line_def Let_def split: list.split option.split)
qed

lemma hosts_load_inv: "hosts_load L lines hosts = Ok h \<Longrightarrow> hosts_inv hosts \<Longrightarrow> hosts_inv h"
  by (induction lines arbitrary: hosts) (auto simp: res_bind_Ok_iff intro: hosts_line_inv)

lemma hosts_new_inv: "hosts_new L lines = Ok h \<Longrightarrow> hosts_inv h"
  unfolding hosts_new_def by (erule hosts_load_inv) (simp add: hosts_inv_def)

lemma hosts_lookup_service: "hosts_inv h \<Longrightarrow> lookup_service (hosts_lookup h)"
proof (rule lookup_service.intro)
  fix q w w' show "hosts_lookup h q w \<noteq> Some (Panic, w')"
    by (auto simp: hosts_lookup_def io_simps Let_def
        split: option.splits query_type.splits record_type.splits)
next
  fix name w1 ra w1' w2 raaaa w2'
  assume "hosts_inv h" "hosts_lookup h (address_query name TYPE_A) w1 = Some (ra, w1')"
    "hosts_lookup h (address_query name TYPE_AAAA) w2 = Some (raaaa, w2')" "is_Ok ra \<or> is_Ok raaaa"
  then show "\<exists>r\<in>set (answer_records ra @ answer_records raaaa). is_address (rec_data r)"
    by (cases "h name")
      (auto simp: hosts_lookup_def address_query_def io_simps answer_records_def Answer_new_def
        hosts_inv_def is_address_def neq_Nil_conv, fastforce+)
qed

definition loaded_hosts :: "('w, 'x) dns_lib_scheme \<Rightarrow> bytes res list \<Rightarrow> Hosts" where
  "loaded_hosts L lines = (case hosts_new L lines of Ok h \<Rightarrow> h | _ \<Rightarrow> (\<lambda>_. None))"

interpretation hosts_file: lookup_service "hosts_lookup (loaded_hosts L lines)" for L lines
  by (rule hosts_lookup_service, cases "hosts_new L lines")
    (auto simp: loaded_hosts_def hosts_new_inv, auto simp: hosts_inv_def)

subsection \<open>Name servers\<close>

text \<open>
  A timeout neither panics by itself nor turns a result into another one; the socket operations
  report failures as errors.
\<close>

text \<open>\<open>datagrams L ip socket ds w w'\<close>: the datagrams \<open>ds\<close> are received one after the other from port 53 of \<open>ip\<close>.\<close>

fun datagrams :: "('w, 'x) dns_lib_scheme \<Rightarrow> IpAddr \<Rightarrow> nat \<Rightarrow> bytes list \<Rightarrow> 'w \<Rightarrow> 'w \<Rightarrow> bool" where
  "datagrams L ip socket [] w w' \<longleftrightarrow> w' = w"
| "datagrams L ip socket (d # ds) w w' \<longleftrightarrow>
     (\<exists>w1. dl_recv_from L socket ip 53 MAX_PACKET_LENGTH w = Some (Ok d, w1) \<and> datagrams L ip socket ds w1 w')"

definition for_query :: "('w, 'x) dns_lib_scheme \<Rightarrow> u16 \<Rightarrow> bytes \<Rightarrow> bool" where
  "for_query L mid d \<longleftrightarrow> (case dl_parse L d of Inl _ \<Rightarrow> False | Inr p \<Rightarrow> pk_id p = mid)"

locale dns_net =
  fixes L :: "('w, 'x) dns_lib_scheme"
  assumes timeout: "dl_timeout L d m w = Some (Some r, w') \<Longrightarrow> \<exists>w'. m w = Some (r, w')"
    and calls: "dl_random_id L w \<noteq> Some (Panic, w')" "dl_udp_connect L ip port w \<noteq> Some (Panic, w')"
      "dl_send L s data w \<noteq> Some (Panic, w')" "dl_recv_from L s ip port n w \<noteq> Some (Panic, w')"
begin

abbreviation transacted :: "IpAddr \<Rightarrow> u16 \<Rightarrow> nat \<Rightarrow> Response \<Rightarrow> 'w \<Rightarrow> 'w \<Rightarrow> bool" where
  "transacted ip mid socket resp w w' \<equiv> (\<exists>ds data p. datagrams L ip socket (ds @ [data]) w w'
     \<and> (\<forall>d\<in>set ds. \<not> for_query L mid d) \<and> dl_parse L data = Inr p \<and> pk_id p = mid \<and> resp = Response_from p)"

lemma recv_loop_result:
  assumes "recv_loop L ns mid socket w = Some out"
  shows "fst out \<noteq> Panic \<and> (\<forall>resp. fst out = Ok resp \<longrightarrow> transacted (ns_ip ns) mid socket resp w (snd out))"
proof -
  have "L = L \<longrightarrow> fst out \<noteq> Panic \<and> (\<forall>resp. fst out = Ok resp \<longrightarrow> transacted (ns_ip ns) mid socket resp w (snd out))"
  proof (rule recv_loop.raw_induct [where P = "\<lambda>L' ns mid socket w out. L' = L \<longrightarrow> fst out \<noteq> Panic
      \<and> (\<forall>resp. fst out = Ok resp \<longrightarrow> transacted (ns_ip ns) mid socket resp w (snd out))", OF _ assms], rule impI)
    fix rec L' ns mid socket w out
    assume ih: "\<And>L' ns mid socket w out. rec L' ns mid socket w = Some out \<Longrightarrow> L' = L \<longrightarrow> fst out \<noteq> Panic
      \<and> (\<forall>resp. fst out = Ok resp \<longrightarrow> transacted (ns_ip ns) mid socket resp w (snd out))"
      and step: "io_bind (dl_recv_from L' socket (ns_ip ns) 53 MAX_PACKET_LENGTH) (\<lambda>data.
        case dl_parse L' data of
          Inl err \<Rightarrow> rec L' ns mid socket
        | Inr response \<Rightarrow>
            if pk_id response \<noteq> mid then rec L' ns mid socket
            else io_return (Response_from response)) w = Some out" and L: "L' = L"
    let ?recv = "dl_recv_from L socket (ns_ip ns) 53 MAX_PACKET_LENGTH w"
    obtain res w1 where recv: "?recv = Some (res, w1)" using step L by (cases ?recv) auto
    show "fst out \<noteq> Panic \<and> (\<forall>resp. fst out = Ok resp \<longrightarrow> transacted (ns_ip ns) mid socket resp w (snd out))"
    proof (cases res)
      case (Ok data)
      show ?thesis
      proof (cases "for_query L mid data")
        case True
        then obtain p where p: "dl_parse L data = Inr p" "pk_id p = mid" by (auto simp: for_query_def split: sum.splits)
        with step L recv Ok have "out = (Ok (Response_from p), w1)" by (simp add: io_simps)
        moreover have "datagrams L (ns_ip ns) socket ([] @ [data]) w w1" using recv Ok by simp
        ultimately show ?thesis using p
          by (simp del: datagrams.simps) (intro exI [of _ "[]"] exI [of _ data], simp)
      next
        case False
        then have "rec L ns mid socket w1 = Some out"
          using step L recv Ok by (auto simp: for_query_def split: sum.splits if_splits)
        from ih [OF this] recv Ok False show ?thesis
          by auto (metis append_Cons datagrams.simps(2) set_ConsD)
      qed
    qed (use step L recv calls(4) in auto)
  qed
  then show ?thesis by simp
qed

lemma transact_result:
  assumes "transact L ns mid query w = Some (res, w')"
  shows "res \<noteq> Panic" and "res = Ok resp \<Longrightarrow> \<exists>request socket w1 n w2. dl_write_query L MAX_PACKET_LENGTH mid query = Inr request
    \<and> dl_udp_connect L (ns_ip ns) 53 w = Some (Ok socket, w1) \<and> dl_send L socket request w1 = Some (Ok n, w2)
    \<and> transacted (ns_ip ns) mid socket resp w2 w'"
proof -
  show "res \<noteq> Panic"
    using assms recv_loop_result [of ns mid]
    by (force simp: transact_def io_bind_def io_throw_def calls split: sum.splits bind_splits result.splits)
  assume ok: "res = Ok resp"
  from assms [unfolded ok] obtain request socket w1 n w2 where
    "dl_write_query L MAX_PACKET_LENGTH mid query = Inr request" "dl_udp_connect L (ns_ip ns) 53 w = Some (Ok socket, w1)"
    "dl_send L socket request w1 = Some (Ok n, w2)" "recv_loop L ns mid socket w2 = Some (Ok resp, w')"
    by (auto simp: transact_def io_Ok split: sum.splits)
  with recv_loop_result [OF this(4)] show "\<exists>request socket w1 n w2. dl_write_query L MAX_PACKET_LENGTH mid query = Inr request
    \<and> dl_udp_connect L (ns_ip ns) 53 w = Some (Ok socket, w1) \<and> dl_send L socket request w1 = Some (Ok n, w2)
    \<and> transacted (ns_ip ns) mid socket resp w2 w'" by auto
qed

text \<open>The outcome of a lookup: that of the response if there is one in time, or the error of the transport.\<close>

lemma name_server_lookup_result:
  assumes "name_server_lookup L ns query w = Some (res, w')"
  obtains (responded) mid w1 resp w2 w3 where "dl_random_id L w = Some (Ok mid, w1)"
      "dl_timeout L 5 (transact L ns mid query) w1 = Some (Some (Ok resp), w2)"
      "transact L ns mid query w1 = Some (Ok resp, w3)" "res = answer_from query resp"
  | (failed) e where "res = Err e" "\<And>mid w1 resp w2. dl_random_id L w = Some (Ok mid, w1) \<Longrightarrow>
      dl_timeout L 5 (transact L ns mid query) w1 \<noteq> Some (Some (Ok resp), w2)"
proof (cases "dl_random_id L w")
  case None
  with assms show ?thesis by (simp add: name_server_lookup_def)
next
  case (Some rid)
  obtain id w1 where rid: "rid = (id, w1)" by (cases rid)
  show ?thesis
  proof (cases id)
    case (Ok mid)
    from assms Some rid Ok obtain r w2 where t: "dl_timeout L 5 (transact L ns mid query) w1 = Some (r, w2)"
      by (auto simp: name_server_lookup_def split: option.splits)
    consider "r = None" | r' w3 where "r = Some r'" "transact L ns mid query w1 = Some (r', w3)"
      using timeout [of 5 "transact L ns mid query" w1] t by (cases r) auto
    then show ?thesis
    proof cases
      case 1
      with assms Some rid Ok t show ?thesis by (intro failed [of "UrlE DnsTimedOut"]) (auto simp: name_server_lookup_def io_simps)
    next
      case 2
      show ?thesis
      proof (cases r')
        case (Ok resp)
        with assms Some rid \<open>id = Ok mid\<close> t 2 show ?thesis
          by (intro responded [of mid w1 resp w2 w3]) (auto simp: name_server_lookup_def io_simps)
      next
        case (Err e)
        with assms Some rid Ok t 2 show ?thesis by (intro failed [of e]) (auto simp: name_server_lookup_def io_simps)
      next
        case Panic
        with transact_result(1) [OF 2(2)] show ?thesis by simp
      qed
    qed
  next
    case (Err e)
    with assms Some rid show ?thesis by (intro failed [of e]) (auto simp: name_server_lookup_def)
  next
    case Panic
    with Some rid calls(1) show ?thesis by simp
  qed
qed

lemma answer_from_records:
  assumes "answer_from query resp = Ok a"
  shows "an_records a \<noteq> []" and "\<forall>r\<in>set (an_records a). record_matches query r"
    and "an_query a = query"
  using assms by (auto simp: answer_from_def Let_def Answer_new_def split: if_splits)

lemma name_server_service: "lookup_service (name_server_lookup L ns)"
proof (rule lookup_service.intro)
  fix q w w' show "name_server_lookup L ns q w \<noteq> Some (Panic, w')"
    by (auto simp: answer_from_def Let_def elim!: name_server_lookup_result split: if_splits)
next
  fix name w1 ra w1' w2 raaaa w2'
  assume a: "name_server_lookup L ns (address_query name TYPE_A) w1 = Some (ra, w1')"
    "name_server_lookup L ns (address_query name TYPE_AAAA) w2 = Some (raaaa, w2')"
    "is_Ok ra \<or> is_Ok raaaa"
  have found: "\<exists>r\<in>set (answer_records res). is_address (rec_data r)"
    if "name_server_lookup L ns (address_query name t) w = Some (res, w')" "is_Ok res" "t \<in> {TYPE_A, TYPE_AAAA}"
    for t w res w'
  proof -
    from that(2) obtain a where res: "res = Ok a" by (cases res) auto
    with that(1) obtain resp where "answer_from (address_query name t) resp = Ok a"
      by (auto elim!: name_server_lookup_result)
    note records = answer_from_records [OF this]
    let ?r = "hd (an_records a)"
    have r: "?r \<in> set (an_records a)" using records(1) by simp
    then have "type_code (rec_data ?r) \<in> {TYPE_A, TYPE_AAAA}"
      using records(2) that(3) by (auto simp: record_matches_def address_query_def)
    with r show ?thesis
      unfolding res answer_records_def is_address_def
      by (cases "rec_data ?r") (auto intro!: bexI [of _ ?r])
  qed
  show "\<exists>r\<in>set (answer_records ra @ answer_records raaaa). is_address (rec_data r)"
    using a(3) found [OF a(1)] found [OF a(2)] by auto
qed

end

sublocale dns_net \<subseteq> name_server: lookup_service "name_server_lookup L ns" for ns
  by (rule name_server_service)

end
