(* ===== verification/Dns_Resolver.thy ===== *)
theory Dns_Resolver
  imports Dns_Lookup Io
begin

text \<open>
  The resolver of \<open>src/src/dns/resolver.rs\<close> over its services: the hosts file first, then the name
  servers of \<open>/etc/resolv.conf\<close> (\<open>src/src/dns/config.rs\<close>) in their order, up to three rounds.
\<close>

record LookupIp =
  li_v4 :: "u32 list"
  li_v6 :: "128 word list"

definition LookupIp_default :: LookupIp where
  "LookupIp_default = \<lparr>li_v4 = [], li_v6 = []\<rparr>"

definition from_ip :: "IpAddr \<Rightarrow> LookupIp" where
  "from_ip ip = (case ip of
     V4 a \<Rightarrow> LookupIp_default\<lparr>li_v4 := li_v4 LookupIp_default @ [a]\<rparr>
   | V6 a \<Rightarrow> LookupIp_default\<lparr>li_v6 := li_v6 LookupIp_default @ [a]\<rparr>)"

definition push_record :: "dns_record \<Rightarrow> LookupIp \<Rightarrow> LookupIp" where
  "push_record r this = (case rec_data r of
     RData_A ip \<Rightarrow> this\<lparr>li_v4 := li_v4 this @ [ip]\<rparr>
   | RData_AAAA ip \<Rightarrow> this\<lparr>li_v6 := li_v6 this @ [ip]\<rparr>
   | _ \<Rightarrow> this)"

definition push_records :: "dns_record list \<Rightarrow> LookupIp \<Rightarrow> LookupIp" where
  "push_records records this = fold push_record records this"

definition lookup_is_empty :: "LookupIp \<Rightarrow> bool" where
  "lookup_is_empty this \<longleftrightarrow> li_v4 this = [] \<and> li_v6 this = []"

section \<open>Configuration\<close>

text \<open>What the \<open>resolv_conf\<close> package gives.\<close>

record resolve_config =
  rc_nameservers :: "IpAddr list"
  rc_ndots :: u32
  rc_attempts :: u32
  rc_rotate :: bool
  rc_timeout :: u32

record Config =
  cf_name_servers :: "NameServer list"
  cf_ndots :: u32
  cf_attempts :: u32
  cf_rotate :: bool
  cf_timeout :: nat

definition NameServer_new :: "IpAddr \<Rightarrow> NameServer" where
  "NameServer_new ip = \<lparr>ns_ip = ip\<rparr>"

definition config_new :: "(bytes \<Rightarrow> nat + resolve_config) \<Rightarrow> bytes res \<Rightarrow> Config res" where
  "config_new parse contents =
     res_bind contents (\<lambda>data.
     case parse data of
       Inl e \<Rightarrow> Err (Foreign e)
     | Inr c \<Rightarrow> Ok \<lparr>cf_name_servers = map NameServer_new (rc_nameservers c), cf_ndots = rc_ndots c,
         cf_attempts = rc_attempts c, cf_rotate = rc_rotate c, cf_timeout = unat (rc_timeout c)\<rparr>)"

section \<open>Resolver\<close>

type_synonym 'w service = "question \<Rightarrow> ('w, Answer) act"

text \<open>\<open>join(..).await.flatten()?\<close> gives an error if one of the two failed, here the first one's.\<close>

definition resolver_new ::
  "('w, 'x) dns_lib_scheme \<Rightarrow> Config res \<Rightarrow> Hosts res \<Rightarrow> 'w service list res" where
  "resolver_new L config hosts =
     res_bind config (\<lambda>config. res_bind hosts (\<lambda>hosts.
     Ok (hosts_lookup hosts # map (name_server_lookup L) (cf_name_servers config))))"

definition note_answer :: "Answer res \<Rightarrow> LookupIp \<times> error option \<times> bool \<Rightarrow> (LookupIp \<times> error option \<times> bool) option" where
  "note_answer r st = (case st of (result, err, success) \<Rightarrow>
     (case r of
        Ok a \<Rightarrow> Some (push_records (an_records a) result, err, True)
      | Err e \<Rightarrow> Some (result, Some e, success)
      | Panic \<Rightarrow> None))"

text \<open>Asking the services in order, for both address types at once, until one answers.\<close>

fun ask_services ::
  "('w, 'x) dns_lib_scheme \<Rightarrow> dns_name \<Rightarrow> 'w service list \<Rightarrow> LookupIp \<Rightarrow> error option \<Rightarrow>
    'w \<Rightarrow> ((error, LookupIp + LookupIp \<times> error option) result \<times> 'w) option" where
  "ask_services L name [] result err w = Some (Ok (Inr (result, err)), w)"
| "ask_services L name (service # services) result err w =
     (case dl_join L (service (address_query name TYPE_A)) (service (address_query name TYPE_AAAA)) w of
        None \<Rightarrow> None
      | Some ((a, aaaa), w) \<Rightarrow>
          (case Option.bind (note_answer a (result, err, False)) (note_answer aaaa) of
             None \<Rightarrow> Some (Panic, w)
           | Some (result, err, success) \<Rightarrow>
               if success then Some (Ok (Inl result), w)
               else ask_services L name services result err w))"

fun ask_rounds ::
  "('w, 'x) dns_lib_scheme \<Rightarrow> dns_name \<Rightarrow> 'w service list \<Rightarrow> nat \<Rightarrow> LookupIp \<Rightarrow> error option \<Rightarrow>
    ('w, LookupIp) act" where
  "ask_rounds L name services 0 result err w =
     (case err of Some e \<Rightarrow> Some (Err e, w) | None \<Rightarrow> Some (Panic, w))"
| "ask_rounds L name services (Suc n) result err w =
     io_bind (ask_services L name services result err) (\<lambda>out.
       case out of
         Inl result \<Rightarrow> io_return result
       | Inr (result, err) \<Rightarrow> ask_rounds L name services n result err) w"

definition resolve_ips_lookup ::
  "('w, 'x) dns_lib_scheme \<Rightarrow> 'w service list \<Rightarrow> dns_name \<Rightarrow> ('w, LookupIp) act" where
  "resolve_ips_lookup L services name = ask_rounds L name services 3 LookupIp_default None"

definition resolve_ips ::
  "('w, 'x) dns_lib_scheme \<Rightarrow> 'w service list \<Rightarrow> bytes \<Rightarrow> ('w, LookupIp) act" where
  "resolve_ips L services name =
     (case ip_parse name of
        Some ip \<Rightarrow> io_return (from_ip ip)
      | None \<Rightarrow>
          (case dl_name L (dl_lower L name) of
             Inl e \<Rightarrow> io_throw (DnsE (OtherDns e))
           | Inr name \<Rightarrow> resolve_ips_lookup L services name))"

section \<open>Results\<close>

lemma push_records_append:
  "push_records rs this = \<lparr>li_v4 = li_v4 this @ li_v4 (push_records rs LookupIp_default),
     li_v6 = li_v6 this @ li_v6 (push_records rs LookupIp_default)\<rparr>"
proof (induction rs arbitrary: this)
  case (Cons r rs)
  from Cons [of "push_record r this"] Cons [of "push_record r LookupIp_default"] show ?case
    by (cases "rec_data r") (simp_all add: push_records_def push_record_def LookupIp_default_def)
qed (simp add: push_records_def LookupIp_default_def)

lemma push_records_empty:
  "lookup_is_empty (push_records rs this) \<longleftrightarrow> lookup_is_empty this \<and> (\<forall>r\<in>set rs. \<not> is_address (rec_data r))"
proof (induction rs arbitrary: this)
  case (Cons r rs)
  from Cons [of "push_record r this"] show ?case
    by (cases "rec_data r")
      (auto simp: push_records_def push_record_def lookup_is_empty_def is_address_def)
qed (simp add: push_records_def)

text \<open>\<open>join\<close> runs each of the two computations, in some state of the system.\<close>

locale dns_resolver = dns_net L for L :: "('w, 'x) dns_lib_scheme" +
  assumes join: "dl_join L m1 m2 w = Some ((r1, r2), w') \<Longrightarrow>
    (\<exists>w1 w1'. m1 w1 = Some (r1, w1')) \<and> (\<exists>w2 w2'. m2 w2 = Some (r2, w2'))"
begin

lemma ask_services_result:
  assumes "\<forall>s\<in>set services. lookup_service s" and "ask_services L name services result err w = Some (out, w')"
  shows "\<exists>v. out = Ok v \<and> (\<forall>r. v = Inl r \<longrightarrow> \<not> lookup_is_empty r)
    \<and> (\<forall>r e. v = Inr (r, e) \<longrightarrow> services \<noteq> [] \<or> err \<noteq> None \<longrightarrow> e \<noteq> None)"
  using assms
proof (induction services arbitrary: result err w)
  case (Cons s services)
  have svc: "lookup_service s" using Cons.prems(1) by simp
  from Cons.prems(2) obtain a aaaa w1 where
    j: "dl_join L (s (address_query name TYPE_A)) (s (address_query name TYPE_AAAA)) w = Some ((a, aaaa), w1)"
    by (cases "dl_join L (s (address_query name TYPE_A)) (s (address_query name TYPE_AAAA)) w") auto
  from join [OF j] obtain u1 u1' u2 u2' where
    r: "s (address_query name TYPE_A) u1 = Some (a, u1')" "s (address_query name TYPE_AAAA) u2 = Some (aaaa, u2')"
    by blast
  then have np: "a \<noteq> Panic" "aaaa \<noteq> Panic" using lookup_service.no_panic [OF svc] by auto
  have addr: "is_Ok a \<or> is_Ok aaaa \<Longrightarrow>
      \<not> lookup_is_empty (push_records (answer_records aaaa) (push_records (answer_records a) result))"
    using lookup_service.address [OF svc r] by (auto simp: push_records_empty)
  show ?case
  proof (cases "is_Ok a \<or> is_Ok aaaa")
    case True
    have "ask_services L name (s # services) result err w =
        Some (Ok (Inl (push_records (answer_records aaaa) (push_records (answer_records a) result))), w1)"
      using True np j by (cases a; cases aaaa) (simp_all add: note_answer_def answer_records_def push_records_def)
    with addr [OF True] Cons.prems(2) show ?thesis by simp
  next
    case False
    then obtain e1 e2 where "a = Err e1" "aaaa = Err e2" using np by (cases a; cases aaaa) auto
    then have step: "ask_services L name (s # services) result err w = ask_services L name services result (Some e2) w1"
      using j by (simp add: note_answer_def)
    have "\<forall>s\<in>set services. lookup_service s" using Cons.prems(1) by simp
    from Cons.IH [OF this Cons.prems(2) [unfolded step]] show ?thesis by auto
  qed
qed auto

lemma ask_rounds_result:
  assumes "\<forall>s\<in>set services. lookup_service s" and "services \<noteq> []" and "0 < n \<or> err \<noteq> None"
    and "ask_rounds L name services n result err w = Some (out, w')"
  shows "out \<noteq> Panic \<and> (\<forall>r. out = Ok r \<longrightarrow> \<not> lookup_is_empty r)"
  using assms(3,4)
proof (induction n arbitrary: result err w)
  case (Suc n)
  then obtain v w1 where a: "ask_services L name services result err w = Some (v, w1)"
    by (cases "ask_services L name services result err w") auto
  from ask_services_result [OF assms(1) a] assms(2) consider
    (answer) r where "v = Ok (Inl r)" "\<not> lookup_is_empty r" | (round) r e where "v = Ok (Inr (r, Some e))"
    by (metis not_None_eq old.prod.exhaust sumE)
  then show ?case
  proof cases
    case answer
    with Suc.prems(2) a show ?thesis by (auto simp: io_simps)
  next
    case round
    with Suc.prems(2) a have "ask_rounds L name services n r (Some e) w1 = Some (out, w')" by simp
    with Suc.IH [of "Some e" r w1] show ?thesis by simp
  qed
qed auto

end

text \<open>A host that is an IPv4 address.\<close>

lemma resolve_ips_ipv4:
  assumes "a < 256" "b < 256" "c < 256" "d < 256"
  shows "resolve_ips L services (show_ipv4 [a, b, c, d]) w
    = Some (Ok \<lparr>li_v4 = [ipv4_word [a, b, c, d]], li_v6 = []\<rparr>, w)"
proof -
  have "read_ipv4 (show_ipv4 [a, b, c, d]) = Some ([a, b, c, d], [])"
    using read_show_ipv4 [OF assms, of "[]"] by (simp add: no_digit_def)
  then show ?thesis
    by (simp add: resolve_ips_def ip_parse_def from_ip_def LookupIp_default_def io_simps)
qed

section \<open>A scripted system\<close>

text \<open>
  The state is the list of datagrams to be received. A datagram is a message id followed by the
  last label of a name and an address, as one A record in the additional section.
\<close>

definition script_packet :: "bytes \<Rightarrow> nat + packet" where
  "script_packet data = (case data of
     mid # label # addr \<Rightarrow> Inr \<lparr>pk_id = ucast mid, pk_rcode = NoError, pk_questions = [], pk_answers = [],
       pk_name_servers = [], pk_additional_records =
         [\<lparr>rec_name = [[label]], rec_class = CLASS_IN, rec_ttl = 60, rec_data = RData_A (from_be_bytes addr)\<rparr>]\<rparr>
   | _ \<Rightarrow> Inl 1)"

definition script_dns :: "bytes list dns_lib" where
  "script_dns = \<lparr>dl_lower = map ascii_lower, dl_name = (\<lambda>s. if s = [] then Inl 1 else Inr (split_on 0x2E s)),
     dl_random_id = io_return 7, dl_write_query = (\<lambda>cap mid q. Inr []), dl_parse = script_packet,
     dl_udp_connect = (\<lambda>ip port. io_return 0), dl_send = (\<lambda>s data. io_return (length data)),
     dl_recv_from = (\<lambda>s ip port n w. case w of [] \<Rightarrow> Some (Err (Foreign 0), []) | d # w \<Rightarrow> Some (Ok d, w)),
     dl_timeout = (\<lambda>d m w. map_option (\<lambda>(r, w). (Some r, w)) (m w)),
     dl_join = (\<lambda>m1 m2 w. case m1 w of None \<Rightarrow> None | Some (r1, w) \<Rightarrow>
       map_option (\<lambda>(r2, w). ((r1, r2), w)) (m2 w))\<rparr>"

interpretation script_dns: dns_resolver script_dns
  by unfold_locales (auto simp: script_dns_def io_simps split: option.splits list.splits)

section \<open>Lines of the hosts file\<close>

lemma digit_bytes: "x \<in> set (digits 10 v) \<Longrightarrow> 0x30 \<le> unat x \<and> unat x \<le> 0x39"
  using digit_list_less [of 10 v] by (auto simp: digits_list unat_digit_char)

lemma digit_visible: "x \<in> set (digits 10 v) \<Longrightarrow> visible x \<and> x \<noteq> 0x23"
  using digit_bytes [of x v] by (auto simp: visible_def in_range_def word_le_nat_alt)

lemma trim_inner:
  assumes "\<forall>x\<in>set xs. visible x" "\<forall>x\<in>set ys. visible x" "xs \<noteq> []" "ys \<noteq> []"
  shows "trim (xs @ zs @ ys) = xs @ zs @ ys"
proof -
  obtain x xs' where xs: "xs = x # xs'" using assms(3) by (cases xs) auto
  obtain y ys' where ys: "ys = ys' @ [y]" using assms(4) by (cases ys rule: rev_cases) auto
  have "trim_start (xs @ zs @ ys) = xs @ zs @ ys" using assms(1) by (simp add: xs)
  moreover have "trim_end ((xs @ zs @ ys') @ [y]) = (xs @ zs @ ys') @ [y]"
    using assms(2) by (intro trim_end_visible) (simp add: ys)
  ultimately show ?thesis by (simp add: trim_def ys)
qed

lemma next_word_visible:
  "\<forall>x\<in>set xs. visible x \<Longrightarrow> next_word (xs @ 0x20 # ys) = (xs, 0x20 # ys)"
  "\<forall>x\<in>set xs. visible x \<Longrightarrow> next_word xs = (xs, [])"
proof -
  have "space_start (0x20 # ys) = 1" by (simp add: space_start_def ascii_space_def)
  then show "\<forall>x\<in>set xs. visible x \<Longrightarrow> next_word (xs @ 0x20 # ys) = (xs, 0x20 # ys)"
    "\<forall>x\<in>set xs. visible x \<Longrightarrow> next_word xs = (xs, [])"
    by (induction xs) (auto simp: space_start_visible)
qed

lemma split_whitespace_visible: "\<forall>x\<in>set xs. visible x \<Longrightarrow> xs \<noteq> [] \<Longrightarrow> split_whitespace xs = [xs]"
  by (cases xs; subst split_whitespace.simps)
    (auto simp: space_start_visible next_word_visible split_whitespace.simps [of "[]"])

lemma split_whitespace_pair:
  assumes "\<forall>x\<in>set xs. visible x" "\<forall>x\<in>set ys. visible x" "xs \<noteq> []" "ys \<noteq> []"
  shows "split_whitespace (xs @ 0x20 # ys) = [xs, ys]"
proof -
  have "space_start (0x20 # ys) = 1" by (simp add: space_start_def ascii_space_def)
  then have "split_whitespace (0x20 # ys) = [ys]"
    using split_whitespace_visible [OF assms(2,4)] by (subst split_whitespace.simps) simp
  moreover have "space_start (xs @ 0x20 # ys) = 0"
    using assms(1,3) by (cases xs) (auto simp: space_start_visible)
  ultimately show ?thesis
    using assms(3) next_word_visible(1) [OF assms(1), of ys] by (subst split_whitespace.simps) simp
qed

lemma hosts_line_ipv4:
  assumes ip: "a < 256" "b < 256" "c < 256" "d < 256"
    and host: "host \<noteq> []" "\<forall>x\<in>set host. visible x \<and> x \<noteq> 0x23" "dl_name L (dl_lower L host) = Inr n"
  shows "\<exists>r. hosts_line L (show_ipv4 [a, b, c, d] @ 0x20 # host) h = h(n \<mapsto> r)
    \<and> res_a r = (case h n of Some r \<Rightarrow> res_a r | None \<Rightarrow> []) @
        [\<lparr>rec_name = n, rec_class = CLASS_IN, rec_ttl = 0, rec_data = RData_A (ipv4_word [a, b, c, d])\<rparr>]
    \<and> res_aaaa r = (case h n of Some r \<Rightarrow> res_aaaa r | None \<Rightarrow> [])"
proof -
  let ?ip = "show_ipv4 [a, b, c, d]"
  have vis: "\<forall>x\<in>set ?ip. visible x \<and> x \<noteq> 0x23" "?ip \<noteq> []"
    using digit_visible by (auto simp: show_ipv4_def visible_def in_range_def word_le_nat_alt)
  have line: "trim (?ip @ 0x20 # host) = ?ip @ 0x20 # host"
    using trim_inner [of ?ip host "[0x20]"] vis host by auto
  have "hd (split_on 0x23 (?ip @ 0x20 # host)) = ?ip @ 0x20 # host"
    using vis(1) host(2) by (subst split_on_none) auto
  moreover have "split_whitespace (?ip @ 0x20 # host) = [?ip, host]"
    using vis host(1,2) by (intro split_whitespace_pair) auto
  moreover have "ip_parse ?ip = Some (V4 (ipv4_word [a, b, c, d]))"
    using read_show_ipv4 [OF ip, of "[]"] by (simp add: ip_parse_def no_digit_def)
  ultimately show ?thesis
    using host(3) by (auto simp: hosts_line_def Let_def line push_host_def host_rdata_def empty_results_def split: option.split)
qed

section \<open>Properties\<close>

text \<open>A resolver with a hosts file of one line and no name server, asked for that name.\<close>

abbreviation one_line :: bytes where
  "one_line \<equiv> show_ipv4 [10, 0, 0, 1] @ 0x20 # lit ''host''"

abbreviation no_servers :: "Config res" where
  "no_servers \<equiv> Ok \<lparr>cf_name_servers = [], cf_ndots = 1, cf_attempts = 2, cf_rotate = False, cf_timeout = 5\<rparr>"

lemma one_line_resolver:
  obtains services r w' where "resolver_new script_dns no_servers (hosts_new script_dns [Ok one_line]) = Ok services"
    "hosts_new script_dns [Ok one_line] = Ok [[lit ''host''] \<mapsto> r]" "res_aaaa r = []"
    "res_a r = [\<lparr>rec_name = [lit ''host''], rec_class = CLASS_IN, rec_ttl = 0, rec_data = RData_A (ipv4_word [10, 0, 0, 1])\<rparr>]"
    "dl_name script_dns (dl_lower script_dns (lit ''host'')) = Inr [lit ''host'']" "ip_parse (lit ''host'') = None"
    "resolve_ips script_dns services (lit ''host'') [] = Some (Ok \<lparr>li_v4 = [0x0A000001], li_v6 = []\<rparr>, w')"
proof -
  have name: "dl_name script_dns (dl_lower script_dns (lit ''host'')) = Inr [lit ''host'']"
    by (simp add: script_dns_def ascii_lower_def in_range_def word_le_nat_alt)
  have "\<forall>x\<in>set (lit ''host''). visible x \<and> x \<noteq> 0x23"
    by (simp add: visible_def in_range_def word_le_nat_alt)
  from hosts_line_ipv4 [of 10 0 0 1, OF _ _ _ _ _ this name, of "\<lambda>_. None"] obtain r where
    r: "hosts_line script_dns one_line (\<lambda>_. None) = [[lit ''host''] \<mapsto> r]" "res_aaaa r = []"
      "res_a r = [\<lparr>rec_name = [lit ''host''], rec_class = CLASS_IN, rec_ttl = 0, rec_data = RData_A (ipv4_word [10, 0, 0, 1])\<rparr>]"
    by auto
  have h: "hosts_new script_dns [Ok one_line] = Ok [[lit ''host''] \<mapsto> r]"
    by (simp only: hosts_new_def hosts_load.simps res_bind.simps r(1))
  define services where s2: "services = [hosts_lookup [[lit ''host''] \<mapsto> r] :: bytes list service]"
  have s1: "resolver_new script_dns no_servers (hosts_new script_dns [Ok one_line]) = Ok services"
    unfolding h s2 by (simp add: resolver_new_def)
  have ip: "ip_parse (lit ''host'') = None"
    by (simp add: ip_parse_letter to_digit_def in_range_def word_le_nat_alt)
  have "\<exists>w'. resolve_ips script_dns services (lit ''host'') [] = Some (Ok \<lparr>li_v4 = [0x0A000001], li_v6 = []\<rparr>, w')"
    using name ip r(2,3) by (auto simp: resolve_ips_def resolve_ips_lookup_def s2 numeral_3_eq_3 io_bind_def hosts_lookup_def
        address_query_def script_dns_def io_simps note_answer_def Answer_new_def push_records_def push_record_def
        LookupIp_default_def ipv4_word_def digits_value_def)
  with that [OF s1 h r(2,3) name ip] show ?thesis by blast
qed

text \<open>C32: A resolver made from the configuration and the hosts file never panics, and what it returns for a
  name has at least one address.\<close>

theorem resolve_ips_result:
  assumes net: "dns_resolver L" and new: "resolver_new L config (hosts_new L lines) = Ok services"
    and run: "resolve_ips L services name w = Some (out, w')"
  shows "out \<noteq> Panic \<and> (\<forall>addrs. out = Ok addrs \<longrightarrow> \<not> lookup_is_empty addrs)"
proof -
  obtain c hosts where c: "config = Ok c" and h: "hosts_new L lines = Ok hosts"
    and services: "services = hosts_lookup hosts # map (name_server_lookup L) (cf_name_servers c)"
    using new by (auto simp: resolver_new_def res_bind_Ok_iff)
  have "\<forall>s\<in>set services. lookup_service s"
    using hosts_lookup_service [OF hosts_new_inv [OF h]] dns_net.name_server_service [OF dns_resolver.axioms(1) [OF net]]
    by (auto simp: services)
  note rounds = dns_resolver.ask_rounds_result [OF net this, of 3 None _ LookupIp_default w out w']
  show ?thesis
  proof (cases "ip_parse name")
    case (Some ip)
    with run show ?thesis
      by (auto simp: resolve_ips_def io_simps from_ip_def lookup_is_empty_def LookupIp_default_def
          split: IpAddr.splits)
  next
    case None
    with run services rounds show ?thesis
      by (cases "dl_name L (dl_lower L name)")
        (auto simp: resolve_ips_def resolve_ips_lookup_def io_simps)
  qed
qed

theorem resolve_ips_result_witness:
  "\<exists>services addrs w'. resolver_new script_dns no_servers (hosts_new script_dns [Ok one_line]) = Ok services
    \<and> resolve_ips script_dns services (lit ''host'') [] = Some (Ok addrs, w') \<and> \<not> lookup_is_empty addrs"
proof -
  obtain services w' where s: "resolver_new script_dns no_servers (hosts_new script_dns [Ok one_line]) = Ok services"
    and run: "resolve_ips script_dns services (lit ''host'') [] = Some (Ok \<lparr>li_v4 = [0x0A000001], li_v6 = []\<rparr>, w')"
    using one_line_resolver by metis
  from resolve_ips_result [OF script_dns.dns_resolver_axioms s run] s run show ?thesis by blast
qed

text \<open>A host that is an IPv4 address is resolved to it without asking any service.\<close>

theorem resolve_ipv4_literal:
  assumes "a < 256" "b < 256" "c < 256" "d < 256"
  shows "resolve_ips L services (show_ipv4 [a, b, c, d]) w
    = Some (Ok \<lparr>li_v4 = [ipv4_word [a, b, c, d]], li_v6 = []\<rparr>, w)"
  by (rule resolve_ips_ipv4 [OF assms])

theorem resolve_ipv4_literal_witness:
  "resolve_ips script_dns [] (show_ipv4 [127, 0, 0, 1]) [] = Some (Ok \<lparr>li_v4 = [0x7F000001], li_v6 = []\<rparr>, [])"
  using resolve_ipv4_literal [of 127 0 0 1 script_dns "[]" "[]"]
  by (simp add: ipv4_word_def digits_value_def)

text \<open>C16: The outcome of \<open>lookup\<close> on a name server. Either no response came in time, or something on the way failed,
  and it is an error; or the query was sent from a new socket with a random id, the datagrams received from port 53 of
  the server up to the first one that parses and has this id were skipped, and this one decides: if its code is
  \<open>NoError\<close>, the answer is all of its records of the class and type asked for, those of the answer section, then of the
  authority and of the additional section, each in their order; if there are none, the error is
  \<open>NoData\<close> when some record has the name asked for; otherwise, and for every other code, it is \<open>NoRecords\<close> with
  the questions, the first authority record and the code of the response.\<close>

theorem name_server_answer:
  assumes net: "dns_net L" and run: "name_server_lookup L ns query w = Some (out, w')"
  shows "(\<exists>e. out = Err e) \<and> (\<forall>mid w1 resp w2. dl_random_id L w = Some (Ok mid, w1) \<longrightarrow>
        dl_timeout L 5 (transact L ns mid query) w1 \<noteq> Some (Some (Ok resp), w2))
    \<or> (\<exists>mid w1 request socket w2 n w3 ds data p w4 all records.
        dl_random_id L w = Some (Ok mid, w1) \<and> dl_write_query L 900 mid query = Inr request
      \<and> dl_udp_connect L (ns_ip ns) 53 w1 = Some (Ok socket, w2) \<and> dl_send L socket request w2 = Some (Ok n, w3)
      \<and> datagrams L (ns_ip ns) socket (ds @ [data]) w3 w4 \<and> (\<forall>d\<in>set ds. \<not> for_query L mid d)
      \<and> dl_parse L data = Inr p \<and> pk_id p = mid
      \<and> all = pk_answers p @ pk_name_servers p @ pk_additional_records p
      \<and> records = filter (\<lambda>r. QCLASS_CLASS (rec_class r) = qclass query \<and> QTYPE_TYPE (type_code (rec_data r)) = qtype query) all
      \<and> out = (if pk_rcode p = NoError \<and> records \<noteq> []
               then Ok \<lparr>an_query = query, an_records = records, an_valid_until = None\<rparr>
               else if pk_rcode p = NoError \<and> (\<exists>r\<in>set all. rec_name r = qname query) then Err (DnsE NoData)
               else Err (DnsE (NoRecords (pk_questions p)
                 (if pk_name_servers p = [] then None else Some (hd (pk_name_servers p))) (pk_rcode p)))))"
  using run
proof (cases rule: dns_net.name_server_lookup_result [OF net, consumes 1, case_names responded failed])
  case (responded mid w1 resp w2 w4)
  from dns_net.transact_result(2) [OF net responded(3) refl] obtain request socket w2 n w3 ds data p where
    "dl_write_query L MAX_PACKET_LENGTH mid query = Inr request" "dl_udp_connect L (ns_ip ns) 53 w1 = Some (Ok socket, w2)"
    "dl_send L socket request w2 = Some (Ok n, w3)" "datagrams L (ns_ip ns) socket (ds @ [data]) w3 w4"
    "\<forall>d\<in>set ds. \<not> for_query L mid d" "dl_parse L data = Inr p" "pk_id p = mid" "resp = Response_from p"
    by blast
  note found = this
  note out = responded(4) [unfolded found(8) answer_from_response]
  show ?thesis
    by (rule disjI2, (rule exI)+, intro conjI, rule responded(1), rule found(1) [unfolded MAX_PACKET_LENGTH_def])
      (rule found(2-7) refl out)+
next
  case (failed e)
  then show ?thesis by blast
qed

text \<open>The first datagram has another id and is skipped.\<close>

theorem name_server_answer_witness:
  "\<exists>a w'. name_server_lookup script_dns \<lparr>ns_ip = V4 1\<rparr> (address_query [[0x61]] TYPE_A) [[9, 0x61, 1, 1, 1, 1], [7, 0x61, 10, 0, 0, 1]]
      = Some (Ok a, w') \<and> an_records a \<noteq> []"
proof -
  have "\<exists>a w'. name_server_lookup script_dns \<lparr>ns_ip = V4 1\<rparr> (address_query [[0x61]] TYPE_A) [[9, 0x61, 1, 1, 1, 1], [7, 0x61, 10, 0, 0, 1]]
      = Some (Ok a, w')"
    by (simp add: name_server_lookup_def script_dns_def transact_def io_simps recv_loop.simps script_packet_def
        answer_from_def Response_from_def record_matches_def address_query_def Let_def)
  then obtain a w' where run: "name_server_lookup script_dns \<lparr>ns_ip = V4 1\<rparr> (address_query [[0x61]] TYPE_A)
      [[9, 0x61, 1, 1, 1, 1], [7, 0x61, 10, 0, 0, 1]] = Some (Ok a, w')" by blast
  from name_server_answer [OF script_dns.dns_net_axioms run] run show ?thesis by (elim disjE exE conjE) (simp_all split: if_splits)
qed





text \<open>A line of the hosts file with an IPv4 address and a host name adds the address to the entry of
  the name and leaves every other entry alone.\<close>

theorem hosts_line_adds:
  assumes ip: "a < 256" "b < 256" "c < 256" "d < 256"
    and host: "host \<noteq> []" "\<forall>x\<in>set host. visible x \<and> x \<noteq> 0x23" "dl_name L (dl_lower L host) = Inr n"
  shows "\<exists>r. hosts_line L (show_ipv4 [a, b, c, d] @ 0x20 # host) h = h(n \<mapsto> r)
    \<and> res_a r = (case h n of Some r \<Rightarrow> res_a r | None \<Rightarrow> []) @
        [\<lparr>rec_name = n, rec_class = CLASS_IN, rec_ttl = 0, rec_data = RData_A (ipv4_word [a, b, c, d])\<rparr>]
    \<and> res_aaaa r = (case h n of Some r \<Rightarrow> res_aaaa r | None \<Rightarrow> [])"
  by (rule hosts_line_ipv4 [OF assms])

theorem hosts_line_adds_witness:
  "\<exists>r. hosts_line script_dns (show_ipv4 [10, 0, 0, 1] @ 0x20 # lit ''host'') (\<lambda>_. None) [lit ''host''] = Some r \<and> res_aaaa r = []"
proof -
  have "dl_name script_dns (dl_lower script_dns (lit ''host'')) = Inr [lit ''host'']"
    by (simp add: script_dns_def ascii_lower_def in_range_def word_le_nat_alt)
  moreover have "\<forall>x\<in>set (lit ''host''). visible x \<and> x \<noteq> 0x23"
    by (simp add: visible_def in_range_def word_le_nat_alt)
  ultimately show ?thesis
    using hosts_line_adds [of 10 0 0 1 "lit ''host''" script_dns "[lit ''host'']" "\<lambda>_. None"] by auto
qed

end
