(* ===== verification/Net_Conn.thy ===== *)
theory Net_Conn
  imports Dns_Resolver Url_Request
begin

text \<open>
  TCP connections: \<open>ConnectOptions\<close> and \<open>Conn\<close> of \<open>src/src/net/conn.rs\<close>. The sockets of
  \<open>xx_pulse\<close>, the clock and the interrupt check of \<open>xx_core\<close> are operations on the state of the
  system, added to those the resolver uses. A \<open>Conn\<close> is the handle of its socket; the last argument
  of \<open>nl_recv\<close> and \<open>nl_send\<close> is the flag \<open>DontWait\<close>.
\<close>

section \<open>Statistics and options\<close>

record ConnectStats =
  cs_dns_resolve :: nat
  cs_tcp_tries :: u32
  cs_tcp_connect :: nat

definition ConnectStats_default :: ConnectStats where
  "ConnectStats_default = \<lparr>cs_dns_resolve = 0, cs_tcp_tries = 0, cs_tcp_connect = 0\<rparr>"

type_synonym sock = nat

record 'w net_lib = "'w dns_lib" +
  nl_now :: "'w \<Rightarrow> nat"
  nl_socket :: "IpAddr \<Rightarrow> u16 \<Rightarrow> ('w, sock) act"
  nl_connect :: "sock \<Rightarrow> IpAddr \<Rightarrow> u16 \<Rightarrow> ('w, unit) act"
  nl_check_interrupt :: "('w, unit) act"
  nl_timeout :: "nat \<Rightarrow> ('w \<times> ConnectStats, sock) act \<Rightarrow>
    'w \<times> ConnectStats \<Rightarrow> (sock res option \<times> 'w \<times> ConnectStats) option"
  nl_set_recvbuf_size :: "sock \<Rightarrow> i32 \<Rightarrow> ('w, unit) act"
  nl_set_sendbuf_size :: "sock \<Rightarrow> i32 \<Rightarrow> ('w, unit) act"
  nl_set_tcp_nodelay :: "sock \<Rightarrow> bool \<Rightarrow> ('w, unit) act"
  nl_set_tcp_keepalive :: "sock \<Rightarrow> bool \<Rightarrow> i32 \<Rightarrow> ('w, unit) act"
  nl_poll_now :: "sock \<Rightarrow> poll_flag list \<Rightarrow> ('w, nat \<times> poll_flag list) act"
  nl_check_interrupt_if_zero :: "nat \<Rightarrow> ('w, unit) act"
  nl_recv :: "sock \<Rightarrow> nat \<Rightarrow> bool \<Rightarrow> ('w, bytes) act"
  nl_send :: "sock \<Rightarrow> bytes list \<Rightarrow> bool \<Rightarrow> ('w, nat) act"
  nl_poll :: "sock \<Rightarrow> poll_flag list \<Rightarrow> ('w, poll_flag list) act"
  nl_shutdown :: "sock \<Rightarrow> Shutdown \<Rightarrow> ('w, unit) act"
  nl_close :: "sock \<Rightarrow> ('w, unit) act"

record 'w ConnectOptions =
  co_resolver :: "'w service list"
  co_host :: bytes
  co_port :: u16
  co_strategy :: IpStrategy
  co_timeout :: "nat option"
  co_recvbuf_size :: "i32 option"
  co_sendbuf_size :: "i32 option"
  co_tcp_nodelay :: bool
  co_tcp_keepalive :: "i32 option"

definition with_resolver :: "'w service list \<Rightarrow> bytes \<Rightarrow> u16 \<Rightarrow> 'w ConnectOptions" where
  "with_resolver resolver host port =
     \<lparr>co_resolver = resolver, co_host = host, co_port = port, co_strategy = IpDefault, co_timeout = None,
      co_recvbuf_size = None, co_sendbuf_size = None, co_tcp_nodelay = False, co_tcp_keepalive = None\<rparr>"

definition set_port :: "u16 \<Rightarrow> 'w ConnectOptions \<Rightarrow> 'w ConnectOptions" where
  "set_port port o1 = o1\<lparr>co_port := port\<rparr>"

definition set_strategy :: "IpStrategy \<Rightarrow> 'w ConnectOptions \<Rightarrow> 'w ConnectOptions" where
  "set_strategy strategy o1 = o1\<lparr>co_strategy := strategy\<rparr>"

definition set_timeout :: "nat option \<Rightarrow> 'w ConnectOptions \<Rightarrow> 'w ConnectOptions" where
  "set_timeout timeout o1 = o1\<lparr>co_timeout := timeout\<rparr>"

definition set_recvbuf_size :: "i32 \<Rightarrow> 'w ConnectOptions \<Rightarrow> 'w ConnectOptions" where
  "set_recvbuf_size n o1 = o1\<lparr>co_recvbuf_size := Some n\<rparr>"

definition set_sendbuf_size :: "i32 \<Rightarrow> 'w ConnectOptions \<Rightarrow> 'w ConnectOptions" where
  "set_sendbuf_size n o1 = o1\<lparr>co_sendbuf_size := Some n\<rparr>"

definition set_tcp_nodelay :: "bool \<Rightarrow> 'w ConnectOptions \<Rightarrow> 'w ConnectOptions" where
  "set_tcp_nodelay enable o1 = o1\<lparr>co_tcp_nodelay := enable\<rparr>"

definition set_tcp_keepalive :: "i32 \<Rightarrow> 'w ConnectOptions \<Rightarrow> 'w ConnectOptions" where
  "set_tcp_keepalive idle o1 = o1\<lparr>co_tcp_keepalive := Some idle\<rparr>"

section \<open>Connecting\<close>

text \<open>The statistics are passed by mutable reference: they are a second component of the state.\<close>

definition on_net :: "('w, 'a) act \<Rightarrow> ('w \<times> ConnectStats, 'a) act" where
  "on_net m = io_zoom fst (\<lambda>w s. (w, snd s)) m"

definition on_stats :: "(ConnectStats \<Rightarrow> ConnectStats) \<Rightarrow> ('w \<times> ConnectStats, unit) act" where
  "on_stats f = io_modify (\<lambda>s. (fst s, f (snd s)))"

definition elapsed :: "('w, 'x) net_lib_scheme \<Rightarrow> nat \<Rightarrow> 'w \<Rightarrow> nat" where
  "elapsed N start w = nl_now N w - start"

text \<open>\<open>start\<close> is the time at which the first attempt began, \<open>err\<close> the error of the last one.\<close>

fun connect_each ::
  "('w, 'x) net_lib_scheme \<Rightarrow> u16 \<Rightarrow> nat \<Rightarrow> IpAddr list \<Rightarrow> error option \<Rightarrow> ('w \<times> ConnectStats, sock) act" where
  "connect_each N port start [] err s =
     (case err of Some e \<Rightarrow> io_throw e s | None \<Rightarrow> io_throw NoAddresses s)"
| "connect_each N port start (ip # addrs) err s =
     io_bind (on_net (nl_socket N ip port)) (\<lambda>socket.
     io_bind (on_stats (\<lambda>st. st\<lparr>cs_tcp_tries := cs_tcp_tries st + 1\<rparr>)) (\<lambda>_ s.
     case on_net (nl_connect N socket ip port) s of
       None \<Rightarrow> None
     | Some (Ok _, s) \<Rightarrow> Some (Ok socket, (fst s, (snd s)\<lparr>cs_tcp_connect := elapsed N start (fst s)\<rparr>))
     | Some (Err e, s) \<Rightarrow>
         io_bind (on_net (nl_check_interrupt N)) (\<lambda>_. connect_each N port start addrs (Some e)) s
     | Some (Panic, s) \<Rightarrow> Some (Panic, s))) s"

definition connect_addrs ::
  "('w, 'x) net_lib_scheme \<Rightarrow> IpAddr list \<Rightarrow> 'w ConnectOptions \<Rightarrow> ('w \<times> ConnectStats, sock) act" where
  "connect_addrs N addrs options s = connect_each N (co_port options) (nl_now N (fst s)) addrs None s"

definition connect_to ::
  "('w, 'x) net_lib_scheme \<Rightarrow> 'w ConnectOptions \<Rightarrow> LookupIp \<Rightarrow> ('w \<times> ConnectStats, sock) act" where
  "connect_to N options addrs =
     (let v4 = map V4 (li_v4 addrs); v6 = map V6 (li_v6 addrs)
      in case co_strategy options of
           PreferIpv4 \<Rightarrow> connect_addrs N (v4 @ v6) options
         | Ipv4Only \<Rightarrow> connect_addrs N v4 options
         | Ipv6Only \<Rightarrow> connect_addrs N v6 options
         | _ \<Rightarrow> connect_addrs N (v6 @ v4) options)"

definition if_some :: "'a option \<Rightarrow> ('a \<Rightarrow> ('s, unit) act) \<Rightarrow> ('s, unit) act" where
  "if_some v f = (case v of Some x \<Rightarrow> f x | None \<Rightarrow> io_return ())"

definition set_options :: "('w, 'x) net_lib_scheme \<Rightarrow> 'w ConnectOptions \<Rightarrow> sock \<Rightarrow> ('w, unit) act" where
  "set_options N options socket =
     io_bind (if_some (co_recvbuf_size options) (nl_set_recvbuf_size N socket)) (\<lambda>_.
     io_bind (if_some (co_sendbuf_size options) (nl_set_sendbuf_size N socket)) (\<lambda>_.
     io_bind (if co_tcp_nodelay options then nl_set_tcp_nodelay N socket True else io_return ()) (\<lambda>_.
     if_some (co_tcp_keepalive options) (nl_set_tcp_keepalive N socket True))))"

definition connect_timed ::
  "('w, 'x) net_lib_scheme \<Rightarrow> 'w ConnectOptions \<Rightarrow> LookupIp \<Rightarrow> ('w \<times> ConnectStats, sock) act" where
  "connect_timed N options addrs s =
     (case co_timeout options of
        None \<Rightarrow> connect_to N options addrs s
      | Some duration \<Rightarrow>
          map_option (\<lambda>(out, s). (case out of None \<Rightarrow> Err ConnectTimeout | Some r \<Rightarrow> r, s))
            (nl_timeout N duration (connect_to N options addrs) s))"

definition connect_stats ::
  "('w, 'x) net_lib_scheme \<Rightarrow> 'w ConnectOptions \<Rightarrow> ('w, sock \<times> ConnectStats) act" where
  "connect_stats N options w =
     (let now = nl_now N w in
      io_bind (resolve_ips N (co_resolver options) (co_host options)) (\<lambda>addrs w.
      case connect_timed N options addrs (w, ConnectStats_default\<lparr>cs_dns_resolve := elapsed N now w\<rparr>) of
        None \<Rightarrow> None
      | Some (out, w, stats) \<Rightarrow>
          io_bind (io_lift out) (\<lambda>socket.
          io_bind (set_options N options socket) (\<lambda>_. io_return (socket, stats))) w) w)"

definition connect :: "('w, 'x) net_lib_scheme \<Rightarrow> 'w ConnectOptions \<Rightarrow> ('w, sock) act" where
  "connect N options = io_bind (connect_stats N options) (\<lambda>out. io_return (fst out))"

definition has_peer_hungup :: "('w, 'x) net_lib_scheme \<Rightarrow> sock \<Rightarrow> ('w, bool) act" where
  "has_peer_hungup N socket =
     (let flags = [RdHangUp, HangUp, PollError] in
      io_bind (nl_poll_now N socket flags) (\<lambda>(n, events).
      io_return (if n = 0 then False else list_ex (\<lambda>f. f \<in> set flags) events)))"

section \<open>What connecting does\<close>

text \<open>
  The calls on sockets the rest of the system sees. \<open>refuse\<close> gives the error of a connection attempt
  that fails. \<open>tcp_net\<close> is a system in which the other calls succeed; a timer either lets the
  connection attempts finish or ends them.
\<close>

datatype net_event =
    EvConnect sock IpAddr u16
  | EvRecvbuf sock i32
  | EvSendbuf sock i32
  | EvNodelay sock bool
  | EvKeepalive sock bool i32

fun attempt_of :: "net_event \<Rightarrow> (IpAddr \<times> u16) option" where
  "attempt_of (EvConnect s ip port) = Some (ip, port)"
| "attempt_of _ = None"

lemma attempt_of_Some: "attempt_of e = Some (ip, port) \<longleftrightarrow> (\<exists>s. e = EvConnect s ip port)"
  by (cases e) auto

text \<open>The addresses a strategy allows, in the order of preference.\<close>

definition address_order :: "IpStrategy \<Rightarrow> LookupIp \<Rightarrow> IpAddr list" where
  "address_order strategy addrs =
     (if strategy \<in> {IpDefault, PreferIpv6, Ipv6Only} then map V6 (li_v6 addrs) else [])
     @ (if strategy \<noteq> Ipv6Only then map V4 (li_v4 addrs) else [])
     @ (if strategy = PreferIpv4 then map V6 (li_v6 addrs) else [])"

definition option_events :: "'w ConnectOptions \<Rightarrow> sock \<Rightarrow> net_event list" where
  "option_events options s =
     (case co_recvbuf_size options of Some n \<Rightarrow> [EvRecvbuf s n] | None \<Rightarrow> [])
     @ (case co_sendbuf_size options of Some n \<Rightarrow> [EvSendbuf s n] | None \<Rightarrow> [])
     @ (if co_tcp_nodelay options then [EvNodelay s True] else [])
     @ (case co_tcp_keepalive options of Some idle \<Rightarrow> [EvKeepalive s True idle] | None \<Rightarrow> [])"

definition attempts_fail :: "(IpAddr \<Rightarrow> u16 \<Rightarrow> error option) \<Rightarrow> u16 \<Rightarrow> IpAddr list \<Rightarrow> error option \<Rightarrow> error" where
  "attempts_fail refuse port addrs err =
     (if addrs = [] then (case err of Some e \<Rightarrow> e | None \<Rightarrow> NoAddresses) else the (refuse (last addrs) port))"

locale tcp_net =
  fixes N :: "('w, 'x) net_lib_scheme" and events :: "'w \<Rightarrow> net_event list"
    and refuse :: "IpAddr \<Rightarrow> u16 \<Rightarrow> error option"
  assumes socket: "\<exists>s w'. nl_socket N ip port w = Some (Ok s, w') \<and> events w' = events w"
    and connect: "\<exists>w'. nl_connect N s ip port w =
        Some (case refuse ip port of None \<Rightarrow> Ok () | Some e \<Rightarrow> Err e, w') \<and> events w' = events w @ [EvConnect s ip port]"
    and interrupt: "\<exists>w'. nl_check_interrupt N w = Some (Ok (), w') \<and> events w' = events w"
    and timeout: "m ws = Some (r, ws') \<Longrightarrow> nl_timeout N d m ws = Some (Some r, ws')
        \<or> (\<exists>ws'. nl_timeout N d m ws = Some (None, ws'))"
    and set_recvbuf: "\<exists>w'. nl_set_recvbuf_size N s n w = Some (Ok (), w') \<and> events w' = events w @ [EvRecvbuf s n]"
    and set_sendbuf: "\<exists>w'. nl_set_sendbuf_size N s n w = Some (Ok (), w') \<and> events w' = events w @ [EvSendbuf s n]"
    and set_nodelay: "\<exists>w'. nl_set_tcp_nodelay N s b w = Some (Ok (), w') \<and> events w' = events w @ [EvNodelay s b]"
    and set_keepalive: "\<exists>w'. nl_set_tcp_keepalive N s b n w = Some (Ok (), w') \<and> events w' = events w @ [EvKeepalive s b n]"
begin

text \<open>Either the first address that accepts is used, or all of them fail.\<close>

lemma connect_each_hit:
  assumes "\<forall>ip\<in>set tried. refuse ip port \<noteq> None" and "refuse ip port = None"
  shows "\<exists>s w' st' evs. connect_each N port start (tried @ ip # rest) err (w, st) = Some (Ok s, w', st')
    \<and> events w' = events w @ evs @ [EvConnect s ip port]
    \<and> map attempt_of evs = map (\<lambda>ip. Some (ip, port)) tried
    \<and> cs_tcp_tries st' = cs_tcp_tries st + word_of_nat (length tried + 1)
    \<and> cs_dns_resolve st' = cs_dns_resolve st"
  using assms
proof (induction tried arbitrary: err w st)
  case Nil
  obtain s w1 where s: "nl_socket N ip port w = Some (Ok s, w1)" "events w1 = events w" using socket by blast
  obtain w2 where "nl_connect N s ip port w1 = Some (Ok (), w2)" "events w2 = events w1 @ [EvConnect s ip port]"
    using connect [of s ip port w1] Nil.prems(2) by auto
  with s show ?case by (auto simp: on_net_def on_stats_def io_simps)
next
  case (Cons a tried)
  obtain s w1 where s: "nl_socket N a port w = Some (Ok s, w1)" "events w1 = events w" using socket by blast
  obtain e where e: "refuse a port = Some e" using Cons.prems(1) by auto
  obtain w2 where c: "nl_connect N s a port w1 = Some (Err e, w2)" "events w2 = events w1 @ [EvConnect s a port]"
    using connect [of s a port w1] e by auto
  obtain w3 where i: "nl_check_interrupt N w2 = Some (Ok (), w3)" "events w3 = events w2" using interrupt by blast
  let ?st = "st\<lparr>cs_tcp_tries := cs_tcp_tries st + 1\<rparr>"
  have "connect_each N port start ((a # tried) @ ip # rest) err (w, st) =
      connect_each N port start (tried @ ip # rest) (Some e) (w3, ?st)"
    using s c i by (simp add: on_net_def on_stats_def io_simps)
  moreover obtain t w' st' evs where "connect_each N port start (tried @ ip # rest) (Some e) (w3, ?st) = Some (Ok t, w', st')"
    "events w' = events w3 @ evs @ [EvConnect t ip port]" "map attempt_of evs = map (\<lambda>ip. Some (ip, port)) tried"
    "cs_tcp_tries st' = cs_tcp_tries ?st + word_of_nat (length tried + 1)" "cs_dns_resolve st' = cs_dns_resolve ?st"
    using Cons.IH [of "Some e" w3 ?st] Cons.prems by auto
  ultimately show ?case using s(2) c(2) i(2)
    by (intro exI [of _ t] exI [of _ w'] exI [of _ st'] exI [of _ "EvConnect s a port # evs"]) simp
qed

lemma connect_each_fail:
  assumes "\<forall>ip\<in>set addrs. refuse ip port \<noteq> None"
  shows "\<exists>w' st' evs. connect_each N port start addrs err (w, st) =
      Some (Err (attempts_fail refuse port addrs err), w', st')
    \<and> events w' = events w @ evs \<and> map attempt_of evs = map (\<lambda>ip. Some (ip, port)) addrs"
  using assms
proof (induction addrs arbitrary: err w st)
  case Nil
  then show ?case by (cases err) (auto simp: io_simps attempts_fail_def)
next
  case (Cons a addrs)
  obtain s w1 where s: "nl_socket N a port w = Some (Ok s, w1)" "events w1 = events w" using socket by blast
  obtain e where e: "refuse a port = Some e" using Cons.prems by auto
  obtain w2 where c: "nl_connect N s a port w1 = Some (Err e, w2)" "events w2 = events w1 @ [EvConnect s a port]"
    using connect [of s a port w1] e by auto
  obtain w3 where i: "nl_check_interrupt N w2 = Some (Ok (), w3)" "events w3 = events w2" using interrupt by blast
  let ?st = "st\<lparr>cs_tcp_tries := cs_tcp_tries st + 1\<rparr>"
  have "connect_each N port start (a # addrs) err (w, st) = connect_each N port start addrs (Some e) (w3, ?st)"
    using s c i by (simp add: on_net_def on_stats_def io_simps)
  moreover obtain w' st' evs where "connect_each N port start addrs (Some e) (w3, ?st) =
      Some (Err (attempts_fail refuse port addrs (Some e)), w', st')"
    "events w' = events w3 @ evs" "map attempt_of evs = map (\<lambda>ip. Some (ip, port)) addrs"
    using Cons.IH [of "Some e" w3 ?st] Cons.prems by auto
  moreover have "attempts_fail refuse port addrs (Some e) = attempts_fail refuse port (a # addrs) err"
    using e by (simp add: attempts_fail_def)
  ultimately show ?case using s(2) c(2) i(2)
    by (intro exI [of _ w'] exI [of _ st'] exI [of _ "EvConnect s a port # evs"]) simp
qed

lemma set_options_events:
  "\<exists>w'. set_options N options s w = Some (Ok (), w') \<and> events w' = events w @ option_events options s"
proof -
  obtain w1 where 1: "if_some (co_recvbuf_size options) (nl_set_recvbuf_size N s) w = Some (Ok (), w1)"
    "events w1 = events w @ (case co_recvbuf_size options of Some n \<Rightarrow> [EvRecvbuf s n] | None \<Rightarrow> [])"
    using set_recvbuf by (cases "co_recvbuf_size options") (fastforce simp: if_some_def io_simps)+
  obtain w2 where 2: "if_some (co_sendbuf_size options) (nl_set_sendbuf_size N s) w1 = Some (Ok (), w2)"
    "events w2 = events w1 @ (case co_sendbuf_size options of Some n \<Rightarrow> [EvSendbuf s n] | None \<Rightarrow> [])"
    using set_sendbuf by (cases "co_sendbuf_size options") (fastforce simp: if_some_def io_simps)+
  obtain w3 where 3: "(if co_tcp_nodelay options then nl_set_tcp_nodelay N s True else io_return ()) w2 = Some (Ok (), w3)"
    "events w3 = events w2 @ (if co_tcp_nodelay options then [EvNodelay s True] else [])"
    using set_nodelay by (cases "co_tcp_nodelay options") (fastforce simp: io_simps)+
  obtain w4 where 4: "if_some (co_tcp_keepalive options) (nl_set_tcp_keepalive N s True) w3 = Some (Ok (), w4)"
    "events w4 = events w3 @ (case co_tcp_keepalive options of Some n \<Rightarrow> [EvKeepalive s True n] | None \<Rightarrow> [])"
    using set_keepalive by (cases "co_tcp_keepalive options") (fastforce simp: if_some_def io_simps)+
  from 1 2 3 4 show ?thesis by (simp add: set_options_def option_events_def)
qed

lemma connect_to_order:
  "connect_to N options addrs = connect_addrs N (address_order (co_strategy options) addrs) options"
  by (cases "co_strategy options") (simp_all add: connect_to_def address_order_def Let_def)

text \<open>\<open>connect\<close> with or without a timer, when the timer does not end it.\<close>

lemma connect_timed_runs:
  assumes "connect_to N options addrs ws = Some (r, ws')"
  shows "connect_timed N options addrs ws = Some (r, ws')
    \<or> co_timeout options \<noteq> None \<and> (\<exists>ws'. connect_timed N options addrs ws = Some (Err ConnectTimeout, ws'))"
proof (cases "co_timeout options")
  case None
  with assms show ?thesis by (simp add: connect_timed_def)
next
  case (Some d)
  from timeout [where m = "connect_to N options addrs", OF assms, of d] show ?thesis
  proof
    assume "nl_timeout N d (connect_to N options addrs) ws = Some (Some r, ws')"
    with Some show ?thesis by (simp add: connect_timed_def)
  next
    assume "\<exists>ws'. nl_timeout N d (connect_to N options addrs) ws = Some (None, ws')"
    with Some show ?thesis by (auto simp: connect_timed_def)
  qed
qed

lemma connect_stats_hit:
  assumes r: "resolve_ips N (co_resolver options) (co_host options) w = Some (Ok addrs, w1)"
    and order: "address_order (co_strategy options) addrs = tried @ ip # rest"
    and refused: "\<forall>ip\<in>set tried. refuse ip (co_port options) \<noteq> None" "refuse ip (co_port options) = None"
  shows "(\<exists>s st w' evs. connect_stats N options w = Some (Ok (s, st), w')
      \<and> events w' = events w1 @ evs @ [EvConnect s ip (co_port options)] @ option_events options s
      \<and> map attempt_of evs = map (\<lambda>ip. Some (ip, co_port options)) tried
      \<and> cs_tcp_tries st = word_of_nat (length tried + 1))
    \<or> co_timeout options \<noteq> None \<and> (\<exists>w'. connect_stats N options w = Some (Err ConnectTimeout, w'))"
proof -
  let ?st = "ConnectStats_default\<lparr>cs_dns_resolve := elapsed N (nl_now N w) w1\<rparr>"
  from connect_each_hit [OF refused, of "nl_now N w1" rest None w1 ?st] obtain s w2 st evs where
    c: "connect_to N options addrs (w1, ?st) = Some (Ok s, w2, st)"
      "events w2 = events w1 @ evs @ [EvConnect s ip (co_port options)]"
      "map attempt_of evs = map (\<lambda>ip. Some (ip, co_port options)) tried"
      "cs_tcp_tries st = word_of_nat (length tried + 1)"
    by (auto simp: connect_to_order connect_addrs_def order ConnectStats_default_def)
  obtain w3 where "set_options N options s w2 = Some (Ok (), w3)" "events w3 = events w2 @ option_events options s"
    using set_options_events by blast
  with c r connect_timed_runs [OF c(1)] show ?thesis
    by (auto simp: connect_stats_def Let_def io_simps)
qed

lemma connect_stats_fail:
  assumes r: "resolve_ips N (co_resolver options) (co_host options) w = Some (Ok addrs, w1)"
    and refused: "\<forall>ip\<in>set (address_order (co_strategy options) addrs). refuse ip (co_port options) \<noteq> None"
  shows "(\<exists>w' evs. connect_stats N options w = Some
        (Err (attempts_fail refuse (co_port options) (address_order (co_strategy options) addrs) None), w')
      \<and> events w' = events w1 @ evs
      \<and> map attempt_of evs = map (\<lambda>ip. Some (ip, co_port options)) (address_order (co_strategy options) addrs))
    \<or> co_timeout options \<noteq> None \<and> (\<exists>w'. connect_stats N options w = Some (Err ConnectTimeout, w'))"
proof -
  let ?st = "ConnectStats_default\<lparr>cs_dns_resolve := elapsed N (nl_now N w) w1\<rparr>"
  from connect_each_fail [OF refused, of "nl_now N w1" None w1 ?st] obtain w2 st evs where
    c: "connect_to N options addrs (w1, ?st) = Some
        (Err (attempts_fail refuse (co_port options) (address_order (co_strategy options) addrs) None), w2, st)"
      "events w2 = events w1 @ evs"
      "map attempt_of evs = map (\<lambda>ip. Some (ip, co_port options)) (address_order (co_strategy options) addrs)"
    by (auto simp: connect_to_order connect_addrs_def)
  with r connect_timed_runs [OF c(1)] show ?thesis
    by (auto simp: connect_stats_def Let_def io_simps)
qed

end

section \<open>A scripted network\<close>

text \<open>
  Connections succeed unless \<open>refuse\<close> gives an error; there is no name server. Sockets are
  numbered in the order they are made; every attempt takes a unit of time.
\<close>

record net_world =
  nw_events :: "net_event list"
  nw_sockets :: nat

definition log_event :: "net_event \<Rightarrow> ('z net_world_scheme, unit) act" where
  "log_event e = io_modify (\<lambda>w. w\<lparr>nw_events := nw_events w @ [e]\<rparr>)"

definition script_net :: "(IpAddr \<Rightarrow> u16 \<Rightarrow> error option) \<Rightarrow> 'z net_world_scheme net_lib" where
  "script_net refuse = \<lparr>
     dl_lower = map ascii_lower, dl_name = (\<lambda>s. if s = [] then Inl 1 else Inr (split_on 0x2E s)),
     dl_random_id = io_return 7, dl_write_query = (\<lambda>cap mid q. Inr []), dl_parse = (\<lambda>_. Inl 1),
     dl_udp_connect = (\<lambda>ip port. io_throw (Foreign 101)), dl_send = (\<lambda>s data. io_return (length data)),
     dl_recv_from = (\<lambda>s ip port n. io_throw (Foreign 101)),
     dl_timeout = (\<lambda>d m w. map_option (\<lambda>(r, w). (Some r, w)) (m w)),
     dl_join = (\<lambda>m1 m2 w. case m1 w of None \<Rightarrow> None | Some (r1, w) \<Rightarrow>
       map_option (\<lambda>(r2, w). ((r1, r2), w)) (m2 w)),
     nl_now = (\<lambda>w. length (nw_events w)),
     nl_socket = (\<lambda>ip port w. Some (Ok (nw_sockets w), w\<lparr>nw_sockets := Suc (nw_sockets w)\<rparr>)),
     nl_connect = (\<lambda>s ip port. io_bind (log_event (EvConnect s ip port)) (\<lambda>_.
       io_lift (case refuse ip port of None \<Rightarrow> Ok () | Some e \<Rightarrow> Err e))),
     nl_check_interrupt = io_return (),
     nl_timeout = (\<lambda>d m w. map_option (\<lambda>(r, w). (Some r, w)) (m w)),
     nl_set_recvbuf_size = (\<lambda>s n. log_event (EvRecvbuf s n)),
     nl_set_sendbuf_size = (\<lambda>s n. log_event (EvSendbuf s n)),
     nl_set_tcp_nodelay = (\<lambda>s b. log_event (EvNodelay s b)),
     nl_set_tcp_keepalive = (\<lambda>s b n. log_event (EvKeepalive s b n)),
     nl_poll_now = (\<lambda>s flags. io_return (0, [])),
     nl_check_interrupt_if_zero = (\<lambda>n. io_return ()), nl_recv = (\<lambda>s n now. io_return []),
     nl_send = (\<lambda>s bufs now. io_return (length (concat bufs))),
     nl_poll = (\<lambda>s flags. io_return flags), nl_shutdown = (\<lambda>s how. io_return ()), nl_close = (\<lambda>s. io_return ())\<rparr>"

interpretation script_net: tcp_net "script_net refuse" nw_events refuse
  by unfold_locales (auto simp: script_net_def log_event_def io_simps)

section \<open>Properties\<close>

text \<open>C20: A connection is made to the first address that accepts it, in the order the strategy gives and
  after one failed attempt for each address before it, and gets the socket options asked for; the
  number of tries reported is the number of attempts. If no address accepts, the error is the one
  of the last attempt, or \<open>NO_ADDRESSES\<close> when the strategy leaves none. With a timeout the only other
  outcome is \<open>CONNECT_TIMEOUT\<close>.\<close>

theorem connect_stats_result:
  assumes net: "tcp_net N events refuse"
    and r: "resolve_ips N (co_resolver options) (co_host options) w = Some (Ok addrs, w1)"
    and order: "order = address_order (co_strategy options) addrs" and port: "port = co_port options"
    and tried: "tried = takeWhile (\<lambda>ip. refuse ip port \<noteq> None) order"
  shows "co_timeout options \<noteq> None \<and> (\<exists>w'. connect_stats N options w = Some (Err ConnectTimeout, w'))
    \<or> (\<exists>out w' evs end. connect_stats N options w = Some (out, w') \<and> events w' = events w1 @ evs @ end
      \<and> map attempt_of evs = map (\<lambda>ip. Some (ip, port)) tried
      \<and> (if tried = order then end = [] \<and> out = Err (if order = [] then NoAddresses else the (refuse (last order) port))
         else \<exists>s st. out = Ok (s, st) \<and> cs_tcp_tries st = word_of_nat (length tried + 1)
           \<and> end = EvConnect s (order ! length tried) port # option_events options s))"
proof (cases "tried = order")
  case True
  then have "\<forall>ip\<in>set (address_order (co_strategy options) addrs). refuse ip (co_port options) \<noteq> None"
    using tried order port by (metis set_takeWhileD)
  from tcp_net.connect_stats_fail [OF net r this] True order port show ?thesis
    by (auto simp: attempts_fail_def)
next
  case False
  then obtain ip rest where drop: "dropWhile (\<lambda>ip. refuse ip port \<noteq> None) order = ip # rest"
    using tried by (metis append_Nil2 list.exhaust takeWhile_dropWhile_id)
  then have split: "order = tried @ ip # rest" and accept: "refuse ip port = None"
    using tried takeWhile_dropWhile_id [of "\<lambda>ip. refuse ip port \<noteq> None" order] by (auto simp: dropWhile_eq_Cons_conv)
  have refused: "\<forall>ip\<in>set tried. refuse ip port \<noteq> None"
    using tried by (metis set_takeWhileD)
  have nth: "order ! length tried = ip" by (simp add: split)
  from tcp_net.connect_stats_hit [OF net r split [unfolded order] refused [unfolded port] accept [unfolded port]] False nth port
  show ?thesis by fastforce
qed

text \<open>A resolver with one service that has two addresses for every name.\<close>

definition two_addresses :: "'w service list" where
  "two_addresses = [\<lambda>q. if qtype q = QTYPE_TYPE TYPE_A then io_return (Answer_new q
     [\<lparr>rec_name = qname q, rec_class = CLASS_IN, rec_ttl = 0, rec_data = RData_A 1\<rparr>,
      \<lparr>rec_name = qname q, rec_class = CLASS_IN, rec_ttl = 0, rec_data = RData_A 2\<rparr>] None)
     else io_throw (DnsE NoData)]"

lemma two_addresses_resolve:
  "resolve_ips (script_net refuse) two_addresses (lit ''host'') w = Some (Ok \<lparr>li_v4 = [1, 2], li_v6 = []\<rparr>, w)"
proof -
  have "ip_parse (lit ''host'') = None"
    by (simp add: ip_parse_letter to_digit_def in_range_def word_le_nat_alt)
  then show ?thesis
    by (simp add: resolve_ips_def resolve_ips_lookup_def numeral_3_eq_3 script_net_def two_addresses_def address_query_def
        io_simps note_answer_def Answer_new_def push_records_def push_record_def LookupIp_default_def)
qed

theorem connect_stats_result_witness:
  "\<exists>out w' evs end. connect_stats (script_net (\<lambda>ip port. if ip = V4 1 then Some (Foreign 111) else None))
      (set_tcp_nodelay True (with_resolver two_addresses (lit ''host'') 80)) \<lparr>nw_events = [], nw_sockets = 4\<rparr>
    = Some (out, w') \<and> nw_events w' = evs @ end \<and> map attempt_of evs = [Some (V4 1, 80)]
    \<and> (\<exists>s st. out = Ok (s, st) \<and> cs_tcp_tries st = 2 \<and> end = [EvConnect s (V4 2) 80, EvNodelay s True])"
proof -
  let ?refuse = "\<lambda>ip port. if ip = V4 1 then Some (Foreign 111) else None"
  let ?options = "set_tcp_nodelay True (with_resolver two_addresses (lit ''host'') 80)"
  let ?w = "\<lparr>nw_events = [], nw_sockets = 4\<rparr>"
  have r: "resolve_ips (script_net ?refuse) (co_resolver ?options) (co_host ?options) ?w
      = Some (Ok \<lparr>li_v4 = [1, 2], li_v6 = []\<rparr>, ?w)"
    using two_addresses_resolve by (simp add: set_tcp_nodelay_def with_resolver_def del: lit_simps)
  from connect_stats_result [OF script_net.tcp_net_axioms r refl refl refl] show ?thesis
    by (auto simp: set_tcp_nodelay_def with_resolver_def address_order_def option_events_def simp del: lit_simps)
qed

text \<open>A host that is an IPv4 address is connected to with one attempt, at that address; a request for IPv6
  only ends in \<open>NO_ADDRESSES\<close> without an attempt.\<close>

theorem connect_ipv4_literal:
  assumes net: "tcp_net N events refuse" and octets: "a < 256" "b < 256" "c < 256" "d < 256"
    and options: "co_host options = show_ipv4 [a, b, c, d]" "co_timeout options = None"
    and ip: "ip = V4 (ipv4_word [a, b, c, d])"
  shows "\<exists>out w' s. connect N options w = Some (out, w')
    \<and> (if co_strategy options = Ipv6Only then out = Err NoAddresses \<and> events w' = events w
       else case refuse ip (co_port options) of
         None \<Rightarrow> out = Ok s \<and> events w' = events w @ EvConnect s ip (co_port options) # option_events options s
       | Some e \<Rightarrow> out = Err e \<and> (\<exists>t. events w' = events w @ [EvConnect t ip (co_port options)]))"
proof -
  let ?addrs = "\<lparr>li_v4 = [ipv4_word [a, b, c, d]], li_v6 = []\<rparr>"
  have r: "resolve_ips N (co_resolver options) (co_host options) w = Some (Ok ?addrs, w)"
    unfolding options(1) by (rule resolve_ips_ipv4 [OF octets])
  have order: "address_order (co_strategy options) ?addrs = (if co_strategy options = Ipv6Only then [] else [ip])"
    by (simp add: address_order_def ip)
  show ?thesis
  proof (cases "co_strategy options = Ipv6Only \<or> refuse ip (co_port options) \<noteq> None")
    case True
    then have "\<forall>ip\<in>set (address_order (co_strategy options) ?addrs). refuse ip (co_port options) \<noteq> None"
      by (auto simp: order)
    from tcp_net.connect_stats_fail [OF net r this] options(2) order True show ?thesis
      by (auto simp: connect_def attempts_fail_def map_eq_Cons_conv attempt_of_Some split: option.split)
  next
    case False
    then have "address_order (co_strategy options) ?addrs = [] @ ip # []" by (simp add: order)
    from tcp_net.connect_stats_hit [OF net r this] False options(2) show ?thesis
      by (fastforce simp: connect_def io_simps)
  qed
qed

theorem connect_ipv4_literal_witness:
  "\<exists>w' s. connect (script_net (\<lambda>ip port. None)) (with_resolver [] (show_ipv4 [127, 0, 0, 1]) 80)
      \<lparr>nw_events = [], nw_sockets = 4\<rparr> = Some (Ok s, w') \<and> nw_events w' = [EvConnect s (V4 0x7F000001) 80]"
proof -
  have "\<exists>out w' s. connect (script_net (\<lambda>ip port. None)) (with_resolver [] (show_ipv4 [127, 0, 0, 1]) 80)
      \<lparr>nw_events = [], nw_sockets = 4\<rparr> = Some (out, w') \<and> out = Ok s \<and> nw_events w' = [EvConnect s (V4 0x7F000001) 80]"
    using connect_ipv4_literal [OF script_net.tcp_net_axioms, of 127 0 0 1 "with_resolver [] (show_ipv4 [127, 0, 0, 1]) 80" _
        "\<lambda>ip port. None" "\<lparr>nw_events = [], nw_sockets = 4\<rparr>"]
    by (simp add: with_resolver_def option_events_def ipv4_word_def digits_value_def)
  then show ?thesis by blast
qed

end
