(* ===== verification/Tls_Conn.thy ===== *)
theory Tls_Conn
  imports Net_Conn Byte_Source
begin

text \<open>
  TLS connections: \<open>TlsConn\<close> and its two halves (\<open>src/src/tls/conn.rs\<close>). The \<open>ClientConnection\<close> of
  \<open>rustls\<close> is a value with the operations of \<open>tls_lib\<close>; \<open>read_tls\<close> and \<open>write_tls\<close> are given the
  transport's read and write as functions, the role of the two \<open>Adapter\<close> types, and work on the
  state of that transport and of the connection. Log output, with the certificate it prints,
  is left out.
\<close>

section \<open>rustls\<close>

text \<open>
  \<open>tl_process\<close> is \<open>process_new_packets\<close> with the \<open>plaintext_bytes_to_read\<close> of its result; \<open>tl_read n\<close>
  is \<open>reader().read\<close> into a buffer of \<open>n\<close> bytes, \<open>tl_write\<close> is \<open>writer().write_vectored\<close>.
\<close>

type_synonym client_config = nat

record 't tls_lib =
  tl_server_name :: "bytes \<Rightarrow> bytes res"
  tl_new :: "client_config \<Rightarrow> bytes \<Rightarrow> 't res"
  tl_is_handshaking :: "'t \<Rightarrow> bool"
  tl_wants_read :: "'t \<Rightarrow> bool"
  tl_wants_write :: "'t \<Rightarrow> bool"
  tl_process :: "('t, nat) act"
  tl_read :: "nat \<Rightarrow> ('t, bytes) act"
  tl_write :: "bytes list \<Rightarrow> ('t, nat) act"

record ('s, 't) tls_io = "'t tls_lib" +
  tl_read_tls :: "(nat \<Rightarrow> ('s, bytes) act) \<Rightarrow> ('s \<times> 't, nat) act"
  tl_write_tls :: "(bytes list \<Rightarrow> ('s, nat) act) \<Rightarrow> ('s \<times> 't, nat) act"

definition on_conn :: "('w, 'a) act \<Rightarrow> ('w \<times> 't, 'a) act" where
  "on_conn m = io_zoom fst (\<lambda>w s. (w, snd s)) m"

definition on_tls :: "('t, 'a) act \<Rightarrow> ('w \<times> 't, 'a) act" where
  "on_tls m = io_zoom snd (\<lambda>t s. (fst s, t)) m"

section \<open>Handshake\<close>

record TlsConnectStats =
  ts_stats :: ConnectStats
  ts_tls_connect :: nat

definition tls_stats_from :: "ConnectStats \<Rightarrow> TlsConnectStats" where
  "tls_stats_from stats = \<lparr>ts_stats = stats, ts_tls_connect = 0\<rparr>"

record 't TlsConn =
  tc_connection :: sock
  tc_tls :: 't

text \<open>The read of a handshake step: an error of the peer's data is followed by a last write.\<close>

definition handshake_read ::
  "('w, 'x) net_lib_scheme \<Rightarrow> ('w, 't, 'y) tls_io_scheme \<Rightarrow> sock \<Rightarrow> bool \<Rightarrow> ('w \<times> 't, bool) act" where
  "handshake_read N T socket eof =
     io_bind (tl_read_tls T (\<lambda>n. nl_recv N socket n False)) (\<lambda>n.
     if n = 0 then io_return True
     else (\<lambda>s. case on_tls (tl_process T) s of
         None \<Rightarrow> None
       | Some (Ok _, s) \<Rightarrow> Some (Ok eof, s)
       | Some (Panic, s) \<Rightarrow> Some (Panic, s)
       | Some (Err err, s) \<Rightarrow>
           (case tl_write_tls T (\<lambda>bufs. nl_send N socket bufs True) s of
              None \<Rightarrow> None
            | Some (Panic, s) \<Rightarrow> Some (Panic, s)
            | Some (_, s) \<Rightarrow> Some (Err err, s))))"

text \<open>One round of the loop: \<open>None\<close> to leave it, or the new value of \<open>eof\<close>.\<close>

definition handshake_step ::
  "('w, 'x) net_lib_scheme \<Rightarrow> ('w, 't, 'y) tls_io_scheme \<Rightarrow> sock \<Rightarrow> bool \<Rightarrow> ('w \<times> 't, bool option) act" where
  "handshake_step N T socket eof =
     io_bind (io_get (\<lambda>s. tl_is_handshaking T (snd s))) (\<lambda>handshaking.
     io_bind (io_get (\<lambda>s. (if tl_wants_write T (snd s) then [PollOut] else [])
         @ (if tl_wants_read T (snd s) then [PollIn] else []))) (\<lambda>flags.
     io_bind (on_conn (nl_poll N socket flags)) (\<lambda>flags.
     io_bind (if PollOut \<in> set flags
       then io_bind (tl_write_tls T (\<lambda>bufs. nl_send N socket bufs False)) (\<lambda>n. io_return (if n = 0 then True else eof))
       else io_return eof) (\<lambda>eof.
     if \<not> handshaking \<and> \<not> eof then io_return None
     else
       io_bind (if PollIn \<in> set flags then handshake_read N T socket eof else io_return eof) (\<lambda>eof.
       io_bind (io_get (\<lambda>s. (tl_is_handshaking T (snd s), tl_wants_write T (snd s)))) (\<lambda>(now, wants_write).
       if handshaking \<and> \<not> now \<and> wants_write then io_return (Some eof)
       else if \<not> handshaking \<or> \<not> now then io_return None
       else if eof then io_throw EofDuringHandshake
       else io_return (Some eof)))))))"

partial_function (option) handshake_loop ::
  "('w, 'x) net_lib_scheme \<Rightarrow> ('w, 't, 'y) tls_io_scheme \<Rightarrow> sock \<Rightarrow> bool \<Rightarrow> ('w \<times> 't, unit) act" where
  "handshake_loop N T socket eof s =
     io_bind (handshake_step N T socket eof) (\<lambda>next.
       case next of None \<Rightarrow> io_return () | Some eof \<Rightarrow> handshake_loop N T socket eof) s"

definition tls_connect ::
  "('w, 'x) net_lib_scheme \<Rightarrow> ('w, 't, 'y) tls_io_scheme \<Rightarrow> sock \<Rightarrow> TlsConnectStats \<Rightarrow> ('w \<times> 't, TlsConnectStats) act" where
  "tls_connect N T socket stats =
     io_bind (io_get (\<lambda>s. nl_now N (fst s))) (\<lambda>now.
     io_bind (handshake_loop N T socket False) (\<lambda>_.
     io_get (\<lambda>s. stats\<lparr>ts_tls_connect := elapsed N now (fst s)\<rparr>)))"

definition tls_connect_stats_config ::
  "('w, 'x) net_lib_scheme \<Rightarrow> ('w, 't, 'y) tls_io_scheme \<Rightarrow> 'w ConnectOptions \<Rightarrow> client_config \<Rightarrow>
    ('w, 't TlsConn \<times> TlsConnectStats) act" where
  "tls_connect_stats_config N T options config =
     io_bind (io_lift (res_bind (tl_server_name T (co_host options)) (tl_new T config))) (\<lambda>tls.
     io_bind (connect_stats N options) (\<lambda>(socket, stats) w.
     case tls_connect N T socket (tls_stats_from stats) (w, tls) of
       None \<Rightarrow> None
     | Some (out, w, tls) \<Rightarrow> Some (map_ok (Pair \<lparr>tc_connection = socket, tc_tls = tls\<rparr>) out, w)))"

section \<open>Reading and writing\<close>

text \<open>
  \<open>tls_first\<close> is the read of plaintext that \<open>rustls\<close> has already: nothing, or \<open>WouldBlock\<close>, means
  that more has to come from the peer.
\<close>

definition tls_first :: "('t, bytes) act \<Rightarrow> ('w \<times> 't, bytes option) act" where
  "tls_first rd s =
     (case on_tls rd s of
        None \<Rightarrow> None
      | Some (Ok data, s) \<Rightarrow> Some (Ok (if data = [] then None else Some data), s)
      | Some (Err e, s) \<Rightarrow> if e = Kind KWouldBlock then Some (Ok None, s) else Some (Err e, s)
      | Some (Panic, s) \<Rightarrow> Some (Panic, s))"

partial_function (option) tls_read_loop ::
  "('w, 'x) net_lib_scheme \<Rightarrow> ('w, 't, 'y) tls_io_scheme \<Rightarrow> sock \<Rightarrow> ('t, bytes) act \<Rightarrow> ('w \<times> 't, bytes) act" where
  "tls_read_loop N T socket rd s =
     io_bind (tl_read_tls T (\<lambda>n. nl_recv N socket n False)) (\<lambda>n.
     if n = 0 then io_return []
     else
       io_bind (on_tls (tl_process T)) (\<lambda>plaintext.
       if plaintext = 0 then io_bind (on_conn (nl_check_interrupt N)) (\<lambda>_. tls_read_loop N T socket rd)
       else on_tls rd)) s"

definition tls_read ::
  "('w, 'x) net_lib_scheme \<Rightarrow> ('w, 't, 'y) tls_io_scheme \<Rightarrow> sock \<Rightarrow> ('t, bytes) act \<Rightarrow> ('w \<times> 't, bytes) act" where
  "tls_read N T socket rd =
     io_bind (tls_first rd) (\<lambda>data.
     case data of Some data \<Rightarrow> io_return data | None \<Rightarrow> tls_read_loop N T socket rd)"

definition tls_recv ::
  "('w, 'x) net_lib_scheme \<Rightarrow> ('w, 't, 'y) tls_io_scheme \<Rightarrow> sock \<Rightarrow> nat \<Rightarrow> ('w \<times> 't, bytes) act" where
  "tls_recv N T socket n = tls_read N T socket (tl_read T n)"

text \<open>Sending what \<open>rustls\<close> has to send; the result tells whether the transport took nothing.\<close>

partial_function (option) tls_flush_loop ::
  "('w, 'x) net_lib_scheme \<Rightarrow> ('w, 't, 'y) tls_io_scheme \<Rightarrow> sock \<Rightarrow> nat \<Rightarrow> ('w \<times> 't, bool) act" where
  "tls_flush_loop N T socket wrote s =
     (if tl_wants_write T (snd s) then
        io_bind (tl_write_tls T (\<lambda>bufs. nl_send N socket bufs False)) (\<lambda>n.
        if n = 0 then io_return True
        else io_bind (on_conn (nl_check_interrupt_if_zero N wrote)) (\<lambda>_. tls_flush_loop N T socket wrote)) s
      else io_return False s)"

partial_function (option) tls_write ::
  "('w, 'x) net_lib_scheme \<Rightarrow> ('w, 't, 'y) tls_io_scheme \<Rightarrow> sock \<Rightarrow> ('t, nat) act \<Rightarrow> ('w \<times> 't, nat) act" where
  "tls_write N T socket wr s =
     io_bind (on_tls wr) (\<lambda>wrote.
     io_bind (tls_flush_loop N T socket wrote) (\<lambda>stopped.
     if stopped \<or> wrote \<noteq> 0 then io_return wrote else tls_write N T socket wr)) s"

definition tls_send ::
  "('w, 'x) net_lib_scheme \<Rightarrow> ('w, 't, 'y) tls_io_scheme \<Rightarrow> sock \<Rightarrow> bytes list \<Rightarrow> ('w \<times> 't, nat) act" where
  "tls_send N T socket bufs = tls_write N T socket (tl_write T bufs)"

section \<open>The two halves\<close>

text \<open>
  The halves share the connection behind a mutex that is free while a half waits for its socket:
  \<open>fill\<close> and \<open>snd\<close> of a half are operations on its own state and the shared connection, which the
  other half may have used meanwhile.
\<close>

definition half_adapter_read :: "('r, 'x) buf_read_scheme \<Rightarrow> nat \<Rightarrow> ('r, bytes) act" where
  "half_adapter_read B n r =
     (if br_buffer B r \<noteq> []
      then (let data = take n (br_buffer B r) in Some (Ok data, br_consume B (length data) r))
      else Some (Err (Kind KWouldBlock), r))"

definition half_buffered ::
  "('r, 'x) buf_read_scheme \<Rightarrow> ('r, 't, 'y) tls_io_scheme \<Rightarrow> ('r \<times> 't, bool) act" where
  "half_buffered B T s =
     (if br_buffer B (fst s) \<noteq> [] then
        io_bind (tl_read_tls T (half_adapter_read B)) (\<lambda>_.
        io_bind (on_tls (tl_process T)) (\<lambda>plaintext. io_return (plaintext \<noteq> 0))) s
      else io_return False s)"

partial_function (option) read_half_read ::
  "('r, 'x) buf_read_scheme \<Rightarrow> ('r, 't, 'y) tls_io_scheme \<Rightarrow> ('r \<times> 't, nat) act \<Rightarrow> ('t, bytes) act \<Rightarrow>
    ('r \<times> 't, bytes) act" where
  "read_half_read B T fill rd s =
     io_bind (tls_first rd) (\<lambda>data.
     case data of
       Some data \<Rightarrow> io_return data
     | None \<Rightarrow>
         io_bind (half_buffered B T) (\<lambda>plaintext.
         if plaintext then read_half_read B T fill rd
         else io_bind fill (\<lambda>_. read_half_read B T fill rd))) s"

text \<open>\<open>write_tls\<close> into a fresh buffer: \<open>ub\<close> is the \<open>Write\<close> of \<open>UninitBuf\<close>.\<close>

definition half_take ::
  "(bytes, 't, 'y) tls_io_scheme \<Rightarrow> (bytes list \<Rightarrow> (bytes, nat) act) \<Rightarrow> ('w \<times> 't, bytes) act" where
  "half_take T ub s =
     (case tl_write_tls T ub ([], snd s) of
        None \<Rightarrow> None
      | Some (out, buf, t) \<Rightarrow> Some (map_ok (\<lambda>_. buf) out, (fst s, t)))"

partial_function (option) write_half_write ::
  "(bytes, 't, 'y) tls_io_scheme \<Rightarrow> (bytes list \<Rightarrow> (bytes, nat) act) \<Rightarrow> (bytes \<Rightarrow> ('w \<times> 't, nat) act) \<Rightarrow>
    ('t, nat) act \<Rightarrow> ('w \<times> 't, nat) act" where
  "write_half_write T ub send wr s =
     io_bind (on_tls wr) (\<lambda>wrote s.
     if \<not> tl_wants_write T (snd s) then io_return wrote s
     else
       io_bind (half_take T ub) (\<lambda>buf.
       io_bind (send buf) (\<lambda>n.
       if n = 0 \<or> wrote \<noteq> 0 then io_return wrote else write_half_write T ub send wr)) s) s"

partial_function (option) write_half_flush ::
  "(bytes, 't, 'y) tls_io_scheme \<Rightarrow> (bytes list \<Rightarrow> (bytes, nat) act) \<Rightarrow> (bytes \<Rightarrow> ('w \<times> 't, nat) act) \<Rightarrow>
    ('w \<times> 't, unit) act" where
  "write_half_flush T ub send s =
     (if \<not> tl_wants_write T (snd s) then io_return () s
      else io_bind (half_take T ub) (\<lambda>buf. io_bind (send buf) (\<lambda>_. write_half_flush T ub send)) s)"

end
