(* ===== verification/Http_Transfer.thy ===== *)
theory Http_Transfer
  imports Http_Body Tls_Conn
begin

text \<open>
  The client side of an exchange and the redirect loop: \<open>get_connection_for\<close>, \<open>send_request\<close> and
  \<open>transfer\<close> of \<open>src/src/http/transfer.rs\<close>, with \<open>HttpConn\<close> (\<open>http/stream.rs\<close>), \<open>Stats\<close>
  (\<open>http/stats.rs\<close>) and \<open>Response::fetch\<close> (\<open>http/response.rs\<close>).

  \<open>http_env\<close> collects the libraries the code is written against. A \<open>BufWriter\<close> or \<open>BufReader\<close> owns
  its connection: its operations work on it and on the state \<open>'w\<close> of the system. \<open>he_resolver\<close> and
  \<open>he_tls_config\<close> are what \<open>get_resolver\<close> and \<open>get_tls_client_config\<close> (\<open>env.rs\<close>, theory \<open>Env\<close>) return
  on the calling thread.
\<close>

section \<open>Connections and statistics\<close>

datatype 't HttpConn = PlainConn sock | SecureConn "'t TlsConn"

record Stats =
  st_redirect :: "nat option"
  st_connect :: "ConnectStats option"
  st_tls_connect :: "nat option"
  st_stall :: nat
  st_wait :: nat
  st_response :: nat

definition Stats_default :: Stats where
  "Stats_default = \<lparr>st_redirect = None, st_connect = None, st_tls_connect = None, st_stall = 0, st_wait = 0, st_response = 0\<rparr>"

definition stats_from :: "ConnectStats \<Rightarrow> Stats" where
  "stats_from stats = Stats_default\<lparr>st_connect := Some stats\<rparr>"

definition stats_from_tls :: "TlsConnectStats \<Rightarrow> Stats" where
  "stats_from_tls stats = Stats_default\<lparr>st_connect := Some (ts_stats stats), st_tls_connect := Some (ts_tls_connect stats)\<rparr>"

record ('w, 't, 'v, 'b) conn_lib =
  cl_writer :: "'t HttpConn \<Rightarrow> 'v"
  cl_write :: "bytes \<Rightarrow> ('v \<times> 'w, unit) act"
  cl_flush :: "('v \<times> 'w, unit) act"
  cl_into_conn :: "'v \<Rightarrow> 't HttpConn"
  cl_reader :: "'t HttpConn \<Rightarrow> 'b"

record ('w, 't, 'v, 'b, 'u, 'm) http_env =
  he_urls :: "'u url_lib"
  he_headers :: "'m header_lib"
  he_lines :: "('b \<times> 'w) line_env"
  he_net :: "'w net_lib"
  he_tls :: "('w, 't) tls_io"
  he_conns :: "('w, 't, 'v, 'b) conn_lib"
  he_resolver :: "'w service list"
  he_tls_config :: client_config

section \<open>get\_connection\_for\<close>

definition connection_options ::
  "('w, 't, 'v, 'b, 'u, 'm, 'x) http_env_scheme \<Rightarrow> ('u, 'm) Request \<Rightarrow> 'u \<Rightarrow> bytes \<Rightarrow> 'w ConnectOptions" where
  "connection_options X request url host =
     (let port = (case ul_port (he_urls X) url of Some port \<Rightarrow> port | None \<Rightarrow> op_port (rq_options request));
          options = with_resolver (he_resolver X) host port;
          options = set_strategy (op_strategy (rq_options request)) options;
          options = set_timeout (op_timeout (rq_options request)) options;
          options = set_tcp_nodelay True options;
          options = set_tcp_keepalive 60 options;
          options = (case op_recvbuf_size (rq_options request) of Some n \<Rightarrow> set_recvbuf_size n options | None \<Rightarrow> options);
          options = (case op_sendbuf_size (rq_options request) of Some n \<Rightarrow> set_sendbuf_size n options | None \<Rightarrow> options)
      in if co_port options = 0
         then set_port (if op_secure (rq_options request) then 443 else 80) options else options)"

definition get_connection_for ::
  "('w, 't, 'v, 'b, 'u, 'm, 'x) http_env_scheme \<Rightarrow> ('u, 'm) Request \<Rightarrow> 'u \<Rightarrow> ('w, 't HttpConn \<times> Stats option) act" where
  "get_connection_for X request url =
     (case ul_host_str (he_urls X) url of
        None \<Rightarrow> io_panic
      | Some host \<Rightarrow>
          (let options = connection_options X request url host in
           if op_secure (rq_options request) then
             io_bind (tls_connect_stats_config (he_net X) (he_tls X) options (he_tls_config X)) (\<lambda>(conn, stats).
             io_return (SecureConn conn, Some (stats_from_tls stats)))
           else
             io_bind (connect_stats (he_net X) options) (\<lambda>(conn, stats).
             io_return (PlainConn conn, Some (stats_from stats)))))"

section \<open>send\_request\<close>

fun write_each :: "('w, 't, 'v, 'b, 'x) conn_lib_scheme \<Rightarrow> bytes list \<Rightarrow> ('v \<times> 'w, unit) act" where
  "write_each W [] = io_return ()"
| "write_each W (piece # pieces) = io_bind (cl_write W piece) (\<lambda>_. write_each W pieces)"

definition request_line :: "bytes \<Rightarrow> bytes \<Rightarrow> Version \<Rightarrow> bytes" where
  "request_line method path version =
     (case version of
        Http09 \<Rightarrow> method @ [0x20] @ path
      | ver \<Rightarrow> method @ [0x20] @ path @ [0x20] @ version_str ver) @ [0x0D, 0x0A]"

definition header_pieces :: "bytes \<times> bytes \<Rightarrow> bytes list" where
  "header_pieces kv = [fst kv @ [0x3A, 0x20], snd kv, [0x0D, 0x0A]]"

text \<open>A stream payload is read to its end by \<open>pipe_from\<close>.\<close>

definition send_body ::
  "('w, 't, 'v, 'b, 'u, 'm, 'x) http_env_scheme \<Rightarrow> Payload option \<Rightarrow> ('v \<times> 'w, Payload option) act" where
  "send_body X body =
     (case body of
        None \<Rightarrow> io_return None
      | Some payload \<Rightarrow>
          io_bind (case payload of
              PayloadBytes data \<Rightarrow> io_bind (cl_write (he_conns X) data) (\<lambda>_. io_return payload)
            | PayloadStream data \<Rightarrow> io_bind (cl_write (he_conns X) data) (\<lambda>_. io_return (PayloadStream []))) (\<lambda>payload.
          io_bind (io_zoom snd (\<lambda>w s. (fst s, w)) (nl_check_interrupt (he_net X))) (\<lambda>_.
          io_return (Some payload))))"

definition send_request ::
  "('w, 't, 'v, 'b, 'u, 'm, 'x) http_env_scheme \<Rightarrow> ('u, 'm) Request \<Rightarrow> Version \<Rightarrow> 'u \<Rightarrow> Payload option \<Rightarrow>
    ('v \<times> 'w, Payload option) act" where
  "send_request X request version url body =
     (let path = ul_path_and_query (he_urls X) url in
      io_bind (cl_write (he_conns X) (request_line (rq_method request) path version)) (\<lambda>_.
      io_bind (write_each (he_conns X) (concat (map header_pieces (hl_entries (he_headers X) (rq_headers request))))) (\<lambda>_.
      io_bind (cl_write (he_conns X) [0x0D, 0x0A]) (\<lambda>_.
      io_bind (send_body X body) (\<lambda>body.
      io_bind (cl_flush (he_conns X)) (\<lambda>_. io_return body))))))"

section \<open>One exchange\<close>

record ('u, 'm) RawResponse =
  rr_stats :: Stats
  rr_version :: Version
  rr_status :: u16
  rr_headers :: 'm
  rr_url :: "'u option"

definition receive_response ::
  "('w, 't, 'v, 'b, 'u, 'm, 'x) http_env_scheme \<Rightarrow> ('u, 'm) Request \<Rightarrow> Stats \<Rightarrow> 't HttpConn \<Rightarrow> 'm \<Rightarrow>
    ('w, ('u, 'm) RawResponse \<times> 'b) act" where
  "receive_response X request stats conn headers w =
     (let start = nl_now (he_net X) w in
      case br_fill (he_lines X) (cl_reader (he_conns X) conn, w) of
        None \<Rightarrow> None
      | Some (Err e, r) \<Rightarrow> Some (Err e, snd r)
      | Some (Panic, r) \<Rightarrow> Some (Panic, snd r)
      | Some (Ok _, r) \<Rightarrow>
          (let wait = elapsed (he_net X) start (snd r) in
           map_option (\<lambda>(out, (reader, w), headers).
               (map_ok (\<lambda>(status, version).
                  (\<lparr>rr_stats = stats\<lparr>st_wait := wait, st_response := elapsed (he_net X) start w\<rparr>,
                    rr_version = version, rr_status = status, rr_headers = headers, rr_url = None\<rparr>, reader)) out, w))
             (parse_response (he_lines X) (he_headers X) (rq_options request) (r, headers))))"

definition exchange ::
  "('w, 't, 'v, 'b, 'u, 'm, 'x) http_env_scheme \<Rightarrow> ('u, 'm) Request \<Rightarrow> 'u \<Rightarrow> Payload option \<Rightarrow> 'm \<Rightarrow>
    ('w, ('u, 'm) RawResponse \<times> 'b \<times> Payload option) act" where
  "exchange X request url body headers =
     io_bind (get_connection_for X request url) (\<lambda>(conn, stats) w.
     let stats = (case stats of Some stats \<Rightarrow> stats | None \<Rightarrow> Stats_default);
         stall = nl_now (he_net X) w
     in case send_request X request Http11 url body (cl_writer (he_conns X) conn, w) of
          None \<Rightarrow> None
        | Some (Err e, s) \<Rightarrow> Some (Err e, snd s)
        | Some (Panic, s) \<Rightarrow> Some (Panic, snd s)
        | Some (Ok body, s) \<Rightarrow>
            io_bind (receive_response X request (stats\<lparr>st_stall := elapsed (he_net X) stall (snd s)\<rparr>)
                (cl_into_conn (he_conns X) (fst s)) (hl_clear (he_headers X) headers)) (\<lambda>(response, reader).
            io_return (response, reader, body)) (snd s))"

section \<open>transfer\<close>

definition is_redirection :: "u16 \<Rightarrow> bool" where
  "is_redirection status \<longleftrightarrow> 300 \<le> status \<and> status < 400"

definition REDIRECT_REUSE_THRESHOLD :: u64 where
  "REDIRECT_REUSE_THRESHOLD = 4 * 1024"

text \<open>What follows a response: \<open>None\<close> to return it, or the URL of the next request.\<close>

definition next_url ::
  "('w, 't, 'v, 'b, 'u, 'm, 'x) http_env_scheme \<Rightarrow> ('u, 'm) Request \<Rightarrow> 'u \<Rightarrow> nat \<Rightarrow> 'u \<Rightarrow> ('u, 'm) RawResponse \<Rightarrow>
    'b \<Rightarrow> 'u option res" where
  "next_url X request req_url remaining url response reader =
     (if remaining > 0 \<and> is_redirection (rr_status response) then
        res_bind (headers_get_str (he_headers X) (KName (lit ''location'')) (rr_headers response)) (\<lambda>location.
        case location of
          None \<Rightarrow> Ok None
        | Some location \<Rightarrow>
            res_bind (body_new (he_headers X) reader (rq_method request) (rr_status response) (rr_headers response)) (\<lambda>_.
            res_bind (ok_or (UrlE (InvalidRedirectUrl location)) (ul_join (he_urls X) url location)) (\<lambda>new_url.
            if ul_scheme (he_urls X) new_url \<noteq> ul_scheme (he_urls X) req_url
            then Err (UrlE (RedirectForbidden (ul_scheme (he_urls X) new_url)))
            else Ok (Some new_url))))
      else Ok None)"

fun transfer_loop ::
  "('w, 't, 'v, 'b, 'u, 'm, 'x) http_env_scheme \<Rightarrow> ('u, 'm) Request \<Rightarrow> 'u \<Rightarrow> nat \<Rightarrow> 'u \<Rightarrow> 'u option \<Rightarrow>
    Payload option \<Rightarrow> 'm \<Rightarrow> ('w, ('u, 'm) RawResponse \<times> 'b \<times> Payload option) act" where
  "transfer_loop X request req_url remaining url redirected body headers w =
     io_bind (exchange X request url body headers) (\<lambda>(response, reader, body).
     io_bind (io_lift (next_url X request req_url remaining url response reader)) (\<lambda>nx.
     case (nx, remaining) of
       (Some new_url, Suc remaining) \<Rightarrow>
         transfer_loop X request req_url remaining new_url (Some new_url) body (rr_headers response)
     | _ \<Rightarrow> io_return (response\<lparr>rr_url := redirected\<rparr>, reader, body))) w"

declare transfer_loop.simps [simp del]

text \<open>The \<open>Host\<close> header is added unless the caller has set one.\<close>

definition ensure_host ::
  "('w, 't, 'v, 'b, 'u, 'm, 'x) http_env_scheme \<Rightarrow> 'u \<Rightarrow> ('u, 'm) Request \<Rightarrow> ('u, 'm) Request res" where
  "ensure_host X req_url request =
     (if Http11 \<le> Http11 \<and> \<not> headers_contains_key (he_headers X) (KName (lit ''host'')) (rq_headers request) then
        (case ul_host_str (he_urls X) req_url of
           None \<Rightarrow> Panic
         | Some host \<Rightarrow> map_ok (\<lambda>m. request\<lparr>rq_headers := m\<rparr>)
             (headers_insert (he_headers X) (KName (lit ''host'')) (VStr host) (rq_headers request)))
      else Ok request)"

definition transfer ::
  "('w, 't, 'v, 'b, 'u, 'm, 'x) http_env_scheme \<Rightarrow> (('u, 'm) Request \<times> 'w, ('u, 'm) RawResponse \<times> 'b) act" where
  "transfer X =
     io_bind (io_zoom (\<lambda>s. rq_request (fst s)) (\<lambda>b s. ((fst s)\<lparr>rq_request := b\<rparr>, snd s)) finalize) (\<lambda>req_url s.
     case ensure_host X req_url (fst s) of
       Err e \<Rightarrow> Some (Err e, s)
     | Panic \<Rightarrow> Some (Panic, s)
     | Ok request \<Rightarrow>
         (let taken = request\<lparr>rq_body := None\<rparr> in
          case transfer_loop X taken req_url (unat (op_follow_redirect (rq_options taken))) req_url None (rq_body request)
              (hl_new (he_headers X)) (snd s) of
            None \<Rightarrow> None
          | Some (Err e, w) \<Rightarrow> Some (Err e, taken, w)
          | Some (Panic, w) \<Rightarrow> Some (Panic, taken, w)
          | Some (Ok (response, reader, body), w) \<Rightarrow> Some (Ok (response, reader), taken\<lparr>rq_body := body\<rparr>, w)))"

section \<open>Response\<close>

record ('b, 'u, 'm) Response =
  rp_response :: "('u, 'm) RawResponse"
  rp_body :: "'b Body"

definition response_fetch ::
  "('w, 't, 'v, 'b, 'u, 'm, 'x) http_env_scheme \<Rightarrow> (('u, 'm) Request \<times> 'w, ('b, 'u, 'm) Response) act" where
  "response_fetch X =
     io_bind (transfer X) (\<lambda>(response, reader) s.
     Some (map_ok (\<lambda>body. \<lparr>rp_response = response, rp_body = body\<rparr>)
       (body_new (he_headers X) reader (rq_method (fst s)) (rr_status response) (rr_headers response)), s))"

end
