(* ===== verification/Ws_Wire.thy ===== *)
theory Ws_Wire
  imports Byte_Source
begin

text \<open>
  The WebSocket wire format: opcodes and the two-byte frame packet (\<open>src/src/ws/wire.rs\<close>),
  close codes (\<open>src/src/ws/mod.rs\<close>), and the frame header with its length encoding
  (\<open>FrameHeader\<close>, \<open>decode_length\<close>, \<open>encode_len\<close> of \<open>src/src/ws/stream.rs\<close>). The lemmas give the
  accessors of the packet, the round trip of the length and of the whole header over any
  reader of type \<open>byte_source\<close>, and the size of a written header.
\<close>

section \<open>Opcodes and the packet layout\<close>

datatype Op = Op_Invalid | Op_Continuation | Op_Text | Op_Binary | Op_Close | Op_Ping | Op_Pong

text \<open>\<open>self.op as u8\<close>: the discriminant, and \<open>-1\<close> wraps to 255.\<close>

fun op_as_u8 :: "Op \<Rightarrow> u8" where
  "op_as_u8 Op_Invalid = -1"
| "op_as_u8 Op_Continuation = 0x0"
| "op_as_u8 Op_Text = 0x1"
| "op_as_u8 Op_Binary = 0x2"
| "op_as_u8 Op_Close = 0x8"
| "op_as_u8 Op_Ping = 0x9"
| "op_as_u8 Op_Pong = 0xa"

text \<open>\<open>Op::from_u8\<close> (derived \<open>FromPrimitive\<close>): no unsigned value is the discriminant \<open>-1\<close>.\<close>

definition op_from_u8 :: "u8 \<Rightarrow> Op option" where
  "op_from_u8 v = List.find (\<lambda>op. op_as_u8 op = v)
     [Op_Continuation, Op_Text, Op_Binary, Op_Close, Op_Ping, Op_Pong]"

text \<open>\<open>unwrap_or_default()\<close> with the default \<open>Invalid\<close>.\<close>

definition op_of_wire :: "u8 \<Rightarrow> Op" where
  "op_of_wire v = (case op_from_u8 v of Some op \<Rightarrow> op | None \<Rightarrow> Op_Invalid)"

fun is_control :: "Op \<Rightarrow> bool" where
  "is_control Op_Ping = True"
| "is_control Op_Pong = True"
| "is_control Op_Close = True"
| "is_control _ = False"

text \<open>
  The packet declaration: fields \<open>fin: u1, resv: u3, op: u4, masked: u1, len: u7\<close>, laid out from
  the most significant bit of the first byte. A setter stores the low bits of its argument.
\<close>

definition minimum_packet_size :: nat where
  "minimum_packet_size = 2"

definition get_fin :: "bytes \<Rightarrow> u8" where
  "get_fin w = drop_bit 7 (w ! 0)"

definition get_op :: "bytes \<Rightarrow> u8" where
  "get_op w = w ! 0 AND 0x0f"

definition get_masked :: "bytes \<Rightarrow> u8" where
  "get_masked w = drop_bit 7 (w ! 1)"

definition get_len :: "bytes \<Rightarrow> u8" where
  "get_len w = w ! 1 AND 0x7f"

definition set_fin :: "u8 \<Rightarrow> bytes \<Rightarrow> bytes" where
  "set_fin v w = w[0 := (w ! 0 AND 0x7f) OR push_bit 7 (v AND 1)]"

definition set_resv :: "u8 \<Rightarrow> bytes \<Rightarrow> bytes" where
  "set_resv v w = w[0 := (w ! 0 AND 0x8f) OR push_bit 4 (v AND 7)]"

definition set_op :: "u8 \<Rightarrow> bytes \<Rightarrow> bytes" where
  "set_op v w = w[0 := (w ! 0 AND 0xf0) OR (v AND 0x0f)]"

definition set_masked :: "u8 \<Rightarrow> bytes \<Rightarrow> bytes" where
  "set_masked v w = w[1 := (w ! 1 AND 0x7f) OR push_bit 7 (v AND 1)]"

definition set_len :: "u8 \<Rightarrow> bytes \<Rightarrow> bytes" where
  "set_len v w = w[1 := (w ! 1 AND 0x80) OR (v AND 0x7f)]"

lemmas packet_defs = get_fin_def get_op_def get_masked_def get_len_def
  set_fin_def set_resv_def set_op_def set_masked_def set_len_def

definition bool_u8 :: "bool \<Rightarrow> u8" where
  "bool_u8 b = (if b then 1 else 0)"

section \<open>Close codes\<close>

datatype CloseCode = CC_Normal | CC_GoingAway | CC_ProtocolError | CC_UnsupportedDataKind
  | CC_Reserved | CC_NoStatusCode | CC_NoClose | CC_InvalidMessageData | CC_PolicyViolation
  | CC_MessageTooLong | CC_ExtensionsExpected | CC_InternalServerError | CC_TlsHandshakeFailure

fun close_code_u16 :: "CloseCode \<Rightarrow> u16" where
  "close_code_u16 CC_Normal = 1000"
| "close_code_u16 CC_GoingAway = 1001"
| "close_code_u16 CC_ProtocolError = 1002"
| "close_code_u16 CC_UnsupportedDataKind = 1003"
| "close_code_u16 CC_Reserved = 1004"
| "close_code_u16 CC_NoStatusCode = 1005"
| "close_code_u16 CC_NoClose = 1006"
| "close_code_u16 CC_InvalidMessageData = 1007"
| "close_code_u16 CC_PolicyViolation = 1008"
| "close_code_u16 CC_MessageTooLong = 1009"
| "close_code_u16 CC_ExtensionsExpected = 1010"
| "close_code_u16 CC_InternalServerError = 1011"
| "close_code_u16 CC_TlsHandshakeFailure = 1015"

section \<open>The length field\<close>

definition decode_length :: "u8 \<Rightarrow> ('r, 'x) buf_read_scheme \<Rightarrow> ('r, u64) act" where
  "decode_length len R =
     (if len < 0x7e then io_return (ucast len)
      else if len = 0x7e then io_bind (br_read_u16_be R) (\<lambda>v. io_return (ucast v))
      else br_read_u64_be R)"

definition encode_len :: "u64 \<Rightarrow> u8 \<times> bytes" where
  "encode_len len =
     (if len < 0x7e then (ucast len, [])
      else if len \<le> 0xffff then (0x7e, to_be_bytes 2 (ucast len :: u16))
      else (0x7f, to_be_bytes 8 len))"

section \<open>Frame headers\<close>

record FrameHeader =
  fh_fin :: bool
  fh_op :: Op
  fh_mask :: "u32 option"
  fh_len :: u64

definition FrameHeader_read :: "('r, 'x) buf_read_scheme \<Rightarrow> ('r, FrameHeader option) act" where
  "FrameHeader_read R =
     io_bind (br_try_read_type R minimum_packet_size) (\<lambda>header.
       case header of None \<Rightarrow> io_return None
       | Some wire \<Rightarrow>
           io_bind (decode_length (get_len wire) R) (\<lambda>len.
           io_bind (if get_masked wire \<noteq> 0
                    then io_bind (br_read_u32_be R) (\<lambda>m. io_return (Some m))
                    else io_return None) (\<lambda>mask_key.
           io_return (Some \<lparr>fh_fin = get_fin wire \<noteq> 0, fh_op = op_of_wire (get_op wire),
             fh_mask = mask_key, fh_len = len\<rparr>))))"

text \<open>
  \<open>Cursor<&mut [u8]>\<close>: the state is the part of the slice already written; \<open>write_all\<close> fails with
  \<open>WriteZero\<close> once the slice of \<open>cap\<close> bytes is full.
\<close>

definition write_zero :: error where
  "write_zero = Foreign 0"

definition cursor_write_all :: "nat \<Rightarrow> bytes \<Rightarrow> (bytes, unit) act" where
  "cursor_write_all cap data written =
     (if length written + length data \<le> cap then Some (Ok (), written @ data)
      else Some (Err write_zero, written @ take (cap - length written) data))"

definition FrameHeader_packet :: "FrameHeader \<Rightarrow> u8 \<Rightarrow> bytes" where
  "FrameHeader_packet h len =
     set_len len (set_masked (bool_u8 (fh_mask h \<noteq> None)) (set_op (op_as_u8 (fh_op h))
       (set_resv 0 (set_fin (bool_u8 (fh_fin h)) (replicate minimum_packet_size 0)))))"

definition FrameHeader_write :: "nat \<Rightarrow> FrameHeader \<Rightarrow> (bytes, unit) act" where
  "FrameHeader_write cap h =
     (let (len, ext) = encode_len (fh_len h) in
      io_bind (cursor_write_all cap (FrameHeader_packet h len)) (\<lambda>_.
      io_bind (cursor_write_all cap ext) (\<lambda>_.
      case fh_mask h of
        Some m \<Rightarrow> cursor_write_all cap (to_be_bytes 4 m)
      | None \<Rightarrow> io_return ())))"

text \<open>The bytes a successful write appends.\<close>

definition header_bytes :: "FrameHeader \<Rightarrow> bytes" where
  "header_bytes h = (let (len, ext) = encode_len (fh_len h) in
     FrameHeader_packet h len @ ext
       @ (case fh_mask h of Some m \<Rightarrow> to_be_bytes 4 m | None \<Rightarrow> []))"

section \<open>The packet and its accessors\<close>

lemma op_of_wire_as_u8: "op \<noteq> Op_Invalid \<Longrightarrow> op_of_wire (op_as_u8 op) = op"
  by (cases op) (simp_all add: op_of_wire_def op_from_u8_def)

lemma empty_packet: "replicate minimum_packet_size (0 :: u8) = [0, 0]"
  by (simp add: minimum_packet_size_def numeral_2_eq_2)

lemma FrameHeader_packet_eq:
  "FrameHeader_packet h len =
     [(push_bit 7 (bool_u8 (fh_fin h) AND 1) AND 0xf0) OR (op_as_u8 (fh_op h) AND 0x0f),
      (push_bit 7 (bool_u8 (fh_mask h \<noteq> None) AND 1) AND 0x80) OR (len AND 0x7f)]"
  by (cases "fh_fin h"; cases "fh_mask h")
    (simp_all add: FrameHeader_packet_def empty_packet packet_defs bool_u8_def)

lemma length_FrameHeader_packet [simp]: "length (FrameHeader_packet h len) = 2"
  by (simp add: FrameHeader_packet_eq)

lemma get_op_packet:
  "fh_op h \<noteq> Op_Invalid \<Longrightarrow> get_op (FrameHeader_packet h len) = op_as_u8 (fh_op h)"
  by (cases "fh_op h"; cases "fh_fin h")
    (simp_all add: FrameHeader_packet_eq packet_defs bool_u8_def)

lemma get_fin_packet: "get_fin (FrameHeader_packet h len) = bool_u8 (fh_fin h)"
  by (cases "fh_op h"; cases "fh_fin h")
    (simp_all add: FrameHeader_packet_eq packet_defs bool_u8_def)

lemma low_bits_len: "(len :: u8) < 0x80 \<Longrightarrow> len AND 0x7f = len"
proof -
  assume "len < 0x80"
  then have "unat (take_bit 7 len) = unat len"
    by (simp add: unsigned_take_bit_eq take_bit_nat_eq_self_iff word_less_nat_alt)
  then show ?thesis by (simp add: word_unat_eq_iff take_bit_eq_mask mask_eq_exp_minus_1)
qed

lemma get_len_packet: "len < 0x80 \<Longrightarrow> get_len (FrameHeader_packet h len) = len"
  by (cases "fh_mask h")
    (simp_all add: FrameHeader_packet_eq packet_defs bool_u8_def bit.conj_disj_distrib2
      low_bits_len and.assoc)

lemma get_masked_packet:
  "len < 0x80 \<Longrightarrow> get_masked (FrameHeader_packet h len) \<noteq> 0 \<longleftrightarrow> fh_mask h \<noteq> None"
proof -
  have "drop_bit 7 (x AND 0x7f) = (0 :: u8)" for x :: u8
    by (rule bit_word_eqI) (simp add: bit_simps)
  then show ?thesis
    by (cases "fh_mask h")
      (simp_all add: FrameHeader_packet_eq packet_defs bool_u8_def drop_bit_or)
qed

section \<open>Length and header codec\<close>

lemma encode_len_field: "fst (encode_len len) < 0x80"
proof (cases "len < 0x7e")
  case True
  then have "ucast len < (0x80 :: u8)"
    by (simp add: word_less_nat_alt unat_ucast_fits)
  with True show ?thesis by (simp add: encode_len_def)
qed (simp add: encode_len_def)

lemma length_encode_len: "length (snd (encode_len len)) =
    (if len < 0x7e then 0 else if len \<le> 0xffff then 2 else 8)"
  by (simp add: encode_len_def)

text \<open>A written header: two bytes, the extended length, the mask key.\<close>

lemma length_header_bytes:
  "length (header_bytes h) = 2 + length (snd (encode_len (fh_len h)))
     + (if fh_mask h = None then 0 else 4)"
  by (auto simp: header_bytes_def split: prod.splits option.splits)

lemma length_header_bytes_le: "length (header_bytes h) \<le> 14"
  by (simp add: length_header_bytes length_encode_len)

lemma FrameHeader_write_Ok:
  assumes "length written + length (header_bytes h) \<le> cap"
  shows "FrameHeader_write cap h written = Some (Ok (), written @ header_bytes h)"
  using assms
  by (cases "fh_mask h")
    (auto simp: FrameHeader_write_def header_bytes_def cursor_write_all_def io_simps
      split: prod.splits)

context byte_source
begin

lemma decode_encode_len:
  assumes "encode_len len = (l, ext)" and "pend r = ext @ rest"
  shows "\<exists>r'. decode_length l R r = Some (Ok len, r') \<and> pend r' = rest"
proof -
  consider (short) "len < 0x7e" | (mid) "\<not> len < 0x7e" "len \<le> 0xffff"
    | (long) "\<not> len < 0x7e" "\<not> len \<le> 0xffff"
    by blast
  then show ?thesis
  proof cases
    case short
    then have u: "unat len < 126" by (simp add: word_less_nat_alt)
    then have "ucast len < (0x7e :: u8)"
      by (simp add: word_less_nat_alt unat_ucast_fits)
    with short assms u show ?thesis
      by (auto simp: encode_len_def decode_length_def io_simps ucast_down_up)
  next
    case mid
    then have u: "unat len < 2 ^ 16" by (simp add: word_le_nat_alt)
    from mid assms have "l = 0x7e" and p: "pend r = to_be_bytes 2 (ucast len :: u16) @ rest"
      by (auto simp: encode_len_def)
    moreover from read_u16 [of r] p obtain r' where
      "br_read_u16_be R r = Some (Ok (ucast len), r')" and "pend r' = rest"
      by (auto simp: from_to_be_bytes)
    ultimately show ?thesis
      using u by (auto simp: decode_length_def io_simps ucast_down_up)
  next
    case long
    with assms have "l = 0x7f" and p: "pend r = to_be_bytes 8 len @ rest"
      by (auto simp: encode_len_def)
    moreover from read_u64 [of r] p obtain r' where
      "br_read_u64_be R r = Some (Ok len, r')" and "pend r' = rest"
      by (auto simp: from_to_be_bytes)
    ultimately show ?thesis by (auto simp: decode_length_def)
  qed
qed

text \<open>Reading a written header gives it back and leaves what follows it.\<close>

lemma read_header_bytes:
  assumes op: "fh_op h \<noteq> Op_Invalid" and p: "pend r = header_bytes h @ rest"
  shows "\<exists>r'. FrameHeader_read R r = Some (Ok (Some h), r') \<and> pend r' = rest"
proof -
  obtain l ext where enc: "encode_len (fh_len h) = (l, ext)" by fastforce
  then have l: "l < 0x80" using encode_len_field [of "fh_len h"] by simp
  let ?w = "FrameHeader_packet h l"
  let ?key = "case fh_mask h of Some m \<Rightarrow> to_be_bytes 4 m | None \<Rightarrow> []"
  from p enc have p: "pend r = ?w @ ext @ ?key @ rest" by (simp add: header_bytes_def)
  with try_read_type [of 2 r] obtain r1 where
    r1: "br_try_read_type R 2 r = Some (Ok (Some ?w), r1)" "pend r1 = ext @ ?key @ rest"
    by auto
  from decode_encode_len [OF enc r1(2)] obtain r2 where
    r2: "decode_length l R r1 = Some (Ok (fh_len h), r2)" "pend r2 = ?key @ rest"
    by blast
  have op': "op_of_wire (get_op ?w) = fh_op h"
    using op by (simp add: get_op_packet op_of_wire_as_u8)
  have fin': "get_fin ?w \<noteq> 0 \<longleftrightarrow> fh_fin h" by (simp add: get_fin_packet bool_u8_def)
  show ?thesis
  proof (cases "fh_mask h")
    case None
    with l have "get_masked ?w = 0" using get_masked_packet [of l h] by blast
    with r1 r2 None op' fin' l show ?thesis
      by (auto simp: FrameHeader_read_def minimum_packet_size_def io_simps get_len_packet)
  next
    case (Some m)
    with l have "get_masked ?w \<noteq> 0" using get_masked_packet [of l h] by blast
    moreover from read_u32 [of r2] r2 Some obtain r3 where
      "br_read_u32_be R r2 = Some (Ok m, r3)" and "pend r3 = rest"
      by (auto simp: from_to_be_bytes)
    ultimately show ?thesis
      using r1 r2 Some op' fin' l
      by (auto simp: FrameHeader_read_def minimum_packet_size_def io_simps get_len_packet)
  qed
qed

lemma read_header_eof: "pend r = [] \<Longrightarrow> \<exists>r'. FrameHeader_read R r = Some (Ok None, r') \<and> pend r' = []"
  using try_read_type_eof [of r 2]
  by (auto simp: FrameHeader_read_def minimum_packet_size_def io_simps)

end

section \<open>Properties\<close>

text \<open>C7: Writing a frame header into the 16-byte scratch buffer always succeeds and takes at most 14
  bytes, and reading it back from any buffered stream that starts with those bytes gives the
  header and leaves exactly what follows.\<close>

theorem header_roundtrip:
  assumes "byte_source R incoming" and "fh_op h \<noteq> Op_Invalid"
    and "FrameHeader_write 16 h [] = Some (res, bs)" and "pending R incoming r = bs @ rest"
  shows "res = Ok () \<and> length bs \<le> 14
    \<and> (\<exists>r'. FrameHeader_read R r = Some (Ok (Some h), r') \<and> pending R incoming r' = rest)"
proof -
  have "FrameHeader_write 16 h [] = Some (Ok (), header_bytes h)"
    using FrameHeader_write_Ok [of "[]" h 16] length_header_bytes_le [of h] by simp
  with assms have "res = Ok ()" and "bs = header_bytes h" by simp_all
  with assms byte_source.read_header_bytes [OF assms(1,2)] show ?thesis
    by (simp add: length_header_bytes_le)
qed

text \<open>A masked frame of 300 bytes, delivered in three segments.\<close>

theorem header_roundtrip_witness:
  "\<exists>r'. FrameHeader_read script_ops
      \<lparr>sc_buf = [], sc_free = 64, sc_rest = [[0x82], [0xfe, 1, 0x2c, 1], [2, 3, 4, 9]]\<rparr>
    = Some (Ok (Some \<lparr>fh_fin = True, fh_op = Op_Binary, fh_mask = Some 0x01020304, fh_len = 300\<rparr>), r')
    \<and> pending script_ops script_incoming r' = [9]"
proof -
  let ?h = "\<lparr>fh_fin = True, fh_op = Op_Binary, fh_mask = Some 0x01020304, fh_len = 300\<rparr>"
  have w: "FrameHeader_write 16 ?h [] = Some (Ok (), [0x82, 0xfe, 1, 0x2c, 1, 2, 3, 4])"
    by (simp add: FrameHeader_write_def encode_len_def FrameHeader_packet_eq bool_u8_def
        cursor_write_all_def io_simps to_be_bytes_def)
  show ?thesis
    using header_roundtrip [OF script.byte_source_axioms _ w,
        of "\<lparr>sc_buf = [], sc_free = 64, sc_rest = [[0x82], [0xfe, 1, 0x2c, 1], [2, 3, 4, 9]]\<rparr>" "[9]"]
    by (simp add: pending_script)
qed

end
