(* ===== verification/Ws_Frame.thy ===== *)
theory Ws_Frame
  imports Ws_Wire
begin

text \<open>
  Frames as the library hands them to its user and takes them from it: \<open>ControlFrame\<close>, \<open>Frame\<close>
  and \<open>BorrowedFrame\<close> of \<open>src/src/ws/mod.rs\<close>.
\<close>

section \<open>Control frames\<close>

record ControlFrame =
  cf_data :: bytes
  cf_offset :: nat
  cf_length :: nat

definition CONTROL_MAX_LENGTH :: nat where
  "CONTROL_MAX_LENGTH = 0x7d"

definition ControlFrame_new :: ControlFrame where
  "ControlFrame_new = \<lparr>cf_data = replicate CONTROL_MAX_LENGTH 0, cf_offset = 0, cf_length = 0\<rparr>"

text \<open>\<open>&self.data[offset..length]\<close> panics when the range is not inside the array.\<close>

definition control_data :: "ControlFrame \<Rightarrow> bytes res" where
  "control_data c =
     (if cf_offset c \<le> cf_length c \<and> cf_length c \<le> length (cf_data c)
      then Ok (take (cf_length c - cf_offset c) (drop (cf_offset c) (cf_data c)))
      else Panic)"

text \<open>Writing \<open>xs\<close> at the start of the slice \<open>data_mut()\<close>.\<close>

definition control_store :: "bytes \<Rightarrow> ControlFrame \<Rightarrow> ControlFrame" where
  "control_store xs c = c\<lparr>cf_data := take (cf_offset c) (cf_data c) @ xs
     @ drop (cf_offset c + length xs) (cf_data c)\<rparr>"

definition wf_control :: "ControlFrame \<Rightarrow> bool" where
  "wf_control c \<longleftrightarrow> length (cf_data c) = CONTROL_MAX_LENGTH
     \<and> cf_offset c \<le> cf_length c \<and> cf_length c \<le> CONTROL_MAX_LENGTH"

section \<open>Frames\<close>

datatype Frame =
    F_Ping ControlFrame
  | F_Pong ControlFrame
  | F_Close u16 ControlFrame
  | F_Text bytes
  | F_Binary bytes

record BorrowedFrame =
  bf_op :: Op
  bf_close_code :: u16
  bf_payload :: bytes
  bf_fin :: bool

definition frame_text :: "bytes \<Rightarrow> BorrowedFrame" where
  "frame_text payload = \<lparr>bf_op = Op_Text, bf_close_code = 0, bf_payload = payload, bf_fin = True\<rparr>"

definition frame_binary :: "bytes \<Rightarrow> BorrowedFrame" where
  "frame_binary payload = \<lparr>bf_op = Op_Binary, bf_close_code = 0, bf_payload = payload, bf_fin = True\<rparr>"

definition frame_text_partial :: "bytes \<Rightarrow> BorrowedFrame" where
  "frame_text_partial payload =
     \<lparr>bf_op = Op_Text, bf_close_code = 0, bf_payload = payload, bf_fin = False\<rparr>"

definition frame_binary_partial :: "bytes \<Rightarrow> BorrowedFrame" where
  "frame_binary_partial payload =
     \<lparr>bf_op = Op_Binary, bf_close_code = 0, bf_payload = payload, bf_fin = False\<rparr>"

definition frame_ping :: "bytes \<Rightarrow> BorrowedFrame" where
  "frame_ping payload = \<lparr>bf_op = Op_Ping, bf_close_code = 0, bf_payload = payload, bf_fin = True\<rparr>"

definition frame_pong :: "bytes \<Rightarrow> BorrowedFrame" where
  "frame_pong payload = \<lparr>bf_op = Op_Pong, bf_close_code = 0, bf_payload = payload, bf_fin = True\<rparr>"

definition frame_close :: "u16 \<Rightarrow> bytes \<Rightarrow> BorrowedFrame" where
  "frame_close code payload =
     \<lparr>bf_op = Op_Close, bf_close_code = code, bf_payload = payload, bf_fin = True\<rparr>"

lemmas frame_defs = frame_text_def frame_binary_def frame_text_partial_def
  frame_binary_partial_def frame_ping_def frame_pong_def frame_close_def

text \<open>\<open>From<&Frame>\<close>.\<close>

fun frame_borrow :: "Frame \<Rightarrow> BorrowedFrame res" where
  "frame_borrow (F_Ping c) = map_ok frame_ping (control_data c)"
| "frame_borrow (F_Pong c) = map_ok frame_pong (control_data c)"
| "frame_borrow (F_Close code c) = map_ok (frame_close code) (control_data c)"
| "frame_borrow (F_Binary payload) = Ok (frame_binary payload)"
| "frame_borrow (F_Text payload) = Ok (frame_text payload)"

lemma control_data_Ok: "wf_control c \<Longrightarrow> \<exists>xs. control_data c = Ok xs \<and> length xs \<le> CONTROL_MAX_LENGTH"
  by (auto simp: wf_control_def control_data_def)

lemma wf_ControlFrame_new: "wf_control ControlFrame_new"
  by (simp add: wf_control_def ControlFrame_new_def)

text \<open>A control frame holding given bytes.\<close>

lemma control_store_data:
  assumes "length xs \<le> CONTROL_MAX_LENGTH"
  shows "control_data (control_store xs (ControlFrame_new\<lparr>cf_length := length xs\<rparr>)) = Ok xs"
    and "wf_control (control_store xs (ControlFrame_new\<lparr>cf_length := length xs\<rparr>))"
  using assms by (simp_all add: control_data_def control_store_def ControlFrame_new_def wf_control_def)

end
