(* ===== verification/Ws_Mask.thy ===== *)
theory Ws_Mask
  imports Io
begin

text \<open>
  The payload masking \<open>mask\<close> of \<open>src/src/ws/mod.rs\<close>. The code splits the slice with
  \<open>align_to_mut::<u32>()\<close> into a head, a run of aligned 32-bit words and a tail; where the
  run starts depends on the address of the slice, so the lengths of the head and of the run are an
  argument here, and so is the byte order of the machine. The lemmas show that neither matters:
  the result is the exclusive or of the payload with the repeated key of RFC 6455.
\<close>

section \<open>The code\<close>

text \<open>One of the two byte loops: returns the masked bytes and the rotated mask.\<close>

fun mask_bytes :: "bytes \<Rightarrow> u32 \<Rightarrow> bytes \<times> u32" where
  "mask_bytes [] m = ([], m)"
| "mask_bytes (b # bs) m =
     (let (bs', m') = mask_bytes bs (word_rotl 8 m) in ((b XOR ucast (drop_bit 24 m)) # bs', m'))"

text \<open>Bytes of a word in memory order, on a big- or a little-endian machine.\<close>

definition word_of_mem :: "bool \<Rightarrow> bytes \<Rightarrow> u32" where
  "word_of_mem big bs = from_be_bytes (if big then bs else rev bs)"

definition mem_of_word :: "bool \<Rightarrow> u32 \<Rightarrow> bytes" where
  "mem_of_word big w = (if big then to_be_bytes 4 w else rev (to_be_bytes 4 w))"

definition swap_bytes :: "u32 \<Rightarrow> u32" where
  "swap_bytes w = from_be_bytes (rev (to_be_bytes 4 w))"

definition to_be :: "bool \<Rightarrow> u32 \<Rightarrow> u32" where
  "to_be big w = (if big then w else swap_bytes w)"

text \<open>The loop over the aligned words.\<close>

fun mask_words :: "bool \<Rightarrow> nat \<Rightarrow> bytes \<Rightarrow> u32 \<Rightarrow> bytes" where
  "mask_words big 0 bs m = []"
| "mask_words big (Suc k) bs m =
     mem_of_word big (word_of_mem big (take 4 bs) XOR to_be big m) @ mask_words big k (drop 4 bs) m"

definition ws_mask :: "bool \<Rightarrow> nat \<times> nat \<Rightarrow> bytes \<Rightarrow> u32 \<Rightarrow> bytes" where
  "ws_mask big split data m =
     (let (npre, nwords) = split;
          pre = take npre data;
          align = take (4 * nwords) (drop npre data);
          post = drop (4 * nwords) (drop npre data);
          (pre', m') = mask_bytes pre m;
          align' = mask_words big nwords align m';
          (post', _) = mask_bytes post m'
      in pre' @ align' @ post')"

text \<open>What \<open>align_to_mut\<close> promises: the three parts make up the slice.\<close>

definition align_ok :: "nat \<times> nat \<Rightarrow> bytes \<Rightarrow> bool" where
  "align_ok split data \<longleftrightarrow> fst split + 4 * snd split \<le> length data"

section \<open>The reference: exclusive or with the repeated key\<close>

definition key_byte :: "u32 \<Rightarrow> nat \<Rightarrow> u8" where
  "key_byte m i = to_be_bytes 4 m ! (i mod 4)"

definition mask_spec :: "bytes \<Rightarrow> u32 \<Rightarrow> bytes" where
  "mask_spec data m = map (\<lambda>i. data ! i XOR key_byte m i) [0..<length data]"

section \<open>The code computes the reference\<close>

text \<open>Bytes of a word as bit ranges.\<close>

lemma word_byte: "word_of_nat (unat (w :: u32) div 2 ^ k mod 256) = (ucast (drop_bit k w) :: u8)"
proof -
  have "unat w < 2 ^ 32" by (rule order_less_le_trans, rule unsigned_less) simp
  then have "take_bit 32 (unat w) = unat w" by (simp add: take_bit_nat_eq_self_iff)
  then have "unat (drop_bit k w) = unat w div 2 ^ k"
    using unsigned_drop_bit_eq [of k w, where 'a = nat] by (simp add: drop_bit_eq_div)
  then show ?thesis
    by (simp add: word_unat_eq_iff unsigned_ucast_eq unsigned_of_nat take_bit_eq_mod)
qed

lemma to_be_bytes_4:
  "to_be_bytes 4 (w :: u32) =
     [ucast (drop_bit 24 w), ucast (drop_bit 16 w), ucast (drop_bit 8 w), ucast w]"
  using word_byte [of w 24] word_byte [of w 16] word_byte [of w 8] word_byte [of w 0]
  by (simp add: to_be_bytes_def div_mult2_eq [symmetric])

lemma ucast_xor: "(ucast (v XOR w) :: 'b::len word) = ucast v XOR ucast (w :: 'a::len word)"
  by (rule bit_word_eqI) (auto simp: bit_simps)

lemma xor_to_be_bytes:
  "to_be_bytes 4 (v XOR w :: u32) = map2 (XOR) (to_be_bytes 4 v) (to_be_bytes 4 w)"
  by (simp add: to_be_bytes_4 ucast_xor)

lemma to_from_be_4: "length bs = 4 \<Longrightarrow> to_be_bytes 4 (from_be_bytes bs :: u32) = bs"
  using to_from_be_bytes [of bs, where 'a = 32] by simp

text \<open>One aligned word, whatever the byte order.\<close>

lemma mask_word:
  assumes "length bs = 4"
  shows "mem_of_word big (word_of_mem big bs XOR to_be big m) = map2 (XOR) bs (to_be_bytes 4 m)"
proof (cases big)
  case False
  have "rev (map2 (XOR) (rev bs) (rev (to_be_bytes 4 m))) = map2 (XOR) bs (to_be_bytes 4 m)"
    using assms by (simp add: rev_map zip_rev)
  with False assms show ?thesis
    by (simp add: mem_of_word_def word_of_mem_def to_be_def swap_bytes_def xor_to_be_bytes to_from_be_4)
qed (simp add: assms mem_of_word_def word_of_mem_def to_be_def xor_to_be_bytes to_from_be_4)

text \<open>The reference from an offset into the payload.\<close>

definition mask_from :: "nat \<Rightarrow> bytes \<Rightarrow> u32 \<Rightarrow> bytes" where
  "mask_from n bs m = map (\<lambda>i. bs ! i XOR key_byte m (n + i)) [0..<length bs]"

lemma length_mask_from [simp]: "length (mask_from n bs m) = length bs"
  by (simp add: mask_from_def)

lemma mask_from_append:
  "mask_from n (xs @ ys) m = mask_from n xs m @ mask_from (n + length xs) ys m"
  by (rule nth_equalityI) (auto simp: mask_from_def nth_append add.assoc)

lemma mask_from_cong:
  "(\<And>i. key_byte m' (k + i) = key_byte m (n + i)) \<Longrightarrow> mask_from k bs m' = mask_from n bs m"
  by (simp add: mask_from_def)

lemma key_byte_period: "key_byte m (n + 4 * k) = key_byte m n"
  by (simp add: key_byte_def)

lemma key_byte_cases:
  "key_byte m i = (if i mod 4 = 0 then ucast (drop_bit 24 m) else if i mod 4 = 1 then ucast (drop_bit 16 m)
     else if i mod 4 = 2 then ucast (drop_bit 8 m) else ucast m)"
proof -
  have "i mod 4 < 4" by simp
  then consider "i mod 4 = 0" | "i mod 4 = 1" | "i mod 4 = 2" | "i mod 4 = 3" by linarith
  then show ?thesis by cases (simp_all add: key_byte_def to_be_bytes_4)
qed

lemma key_byte_rotl: "key_byte (word_rotl 8 m) i = key_byte m (Suc i)"
proof -
  have rot: "ucast (drop_bit 24 (word_rotl 8 m)) = (ucast (drop_bit 16 m) :: u8)"
    "ucast (drop_bit 16 (word_rotl 8 m)) = (ucast (drop_bit 8 m) :: u8)"
    "ucast (drop_bit 8 (word_rotl 8 m)) = (ucast m :: u8)"
    "ucast (word_rotl 8 m) = (ucast (drop_bit 24 m) :: u8)"
    by (rule bit_word_eqI, auto simp: bit_simps mod_if add.commute [of _ "24 :: nat"])+
  have "i mod 4 < 4" by simp
  then consider "i mod 4 = 0" | "i mod 4 = 1" | "i mod 4 = 2" | "i mod 4 = 3" by linarith
  then show ?thesis by cases (simp_all add: key_byte_cases mod_Suc rot)
qed

lemma mask_bytes_spec:
  "mask_bytes bs m = (mask_from 0 bs m, m') \<and> (\<forall>i. key_byte m' i = key_byte m (length bs + i))"
  if "m' = snd (mask_bytes bs m)" for m'
  using that
proof (induction bs arbitrary: m m')
  case (Cons b bs)
  let ?m = "word_rotl 8 m"
  obtain bs' m'' where rec: "mask_bytes bs ?m = (bs', m'')" by fastforce
  with Cons.IH [of m'' ?m] have bs': "bs' = mask_from 0 bs ?m"
    and key: "\<And>i. key_byte m'' i = key_byte ?m (length bs + i)" by auto
  have "bs' = mask_from 1 bs m"
    unfolding bs' by (rule mask_from_cong) (simp add: key_byte_rotl)
  then have "(b XOR key_byte m 0) # bs' = mask_from 0 (b # bs) m"
    using mask_from_append [of 0 "[b]" bs m] by (simp add: mask_from_def)
  with Cons.prems rec key show ?case
    by (simp add: key_byte_rotl key_byte_cases [of m 0])
qed (simp add: mask_from_def)

lemma mask_words_spec:
  "length bs = 4 * k \<Longrightarrow> mask_words big k bs m = mask_from 0 bs m"
proof (induction k arbitrary: bs)
  case (Suc k)
  let ?w = "take 4 bs"
  have len: "length ?w = 4" using Suc.prems by simp
  have "map2 (XOR) ?w (to_be_bytes 4 m) = mask_from 0 ?w m"
    using len by (intro nth_equalityI) (simp_all add: mask_from_def key_byte_def)
  moreover have "mask_words big k (drop 4 bs) m = mask_from 4 (drop 4 bs) m"
    using Suc key_byte_period [of m _ 1]
    by (subst Suc.IH) (auto intro!: mask_from_cong simp: add.commute)
  ultimately show ?case
    using mask_from_append [of 0 ?w "drop 4 bs" m] len by (simp add: mask_word)
qed (simp add: mask_from_def)

lemma ws_mask_eq_from:
  assumes "align_ok split data"
  shows "ws_mask big split data m = mask_from 0 data m"
proof -
  obtain p k where split: "split = (p, k)" by fastforce
  let ?pre = "take p data" and ?mid = "take (4 * k) (drop p data)" and ?post = "drop (4 * k) (drop p data)"
  from assms split have len: "length ?pre = p" "length ?mid = 4 * k" by (auto simp: align_ok_def)
  obtain m' where pre: "mask_bytes ?pre m = (mask_from 0 ?pre m, m')"
    and key: "\<And>i. key_byte m' i = key_byte m (p + i)"
    using mask_bytes_spec [OF refl, of ?pre m] len by auto
  have mid: "mask_words big k ?mid m' = mask_from p ?mid m"
    using len key by (simp add: mask_words_spec) (rule mask_from_cong, simp)
  obtain m'' where "mask_bytes ?post m' = (mask_from 0 ?post m', m'')"
    using mask_bytes_spec [OF refl, of ?post m'] by auto
  moreover have "mask_from 0 ?post m' = mask_from (p + 4 * k) ?post m"
    using key key_byte_period [of m "p + _" k]
    by (intro mask_from_cong) (simp add: add.assoc add.left_commute [of "4 * k"] add.commute [of "4 * k"])
  ultimately have "ws_mask big split data m
      = mask_from 0 ?pre m @ mask_from p ?mid m @ mask_from (p + 4 * k) ?post m"
    using split pre mid by (simp add: ws_mask_def)
  also have "\<dots> = mask_from 0 (?pre @ ?mid @ ?post) m"
    using len by (simp add: mask_from_append)
  also have "?pre @ ?mid @ ?post = data" by (simp only: append_take_drop_id)
  finally show ?thesis .
qed

lemma mask_from_spec: "mask_from 0 data m = mask_spec data m"
  by (simp add: mask_from_def mask_spec_def)

lemma mask_spec_involution: "mask_spec (mask_spec data m) m = data"
  by (rule nth_equalityI) (simp_all add: mask_spec_def xor.assoc)

lemma length_mask_spec [simp]: "length (mask_spec data m) = length data"
  by (simp add: mask_spec_def)

lemma mask_spec_zero: "mask_spec data 0 = data"
  by (rule nth_equalityI) (simp_all add: mask_spec_def key_byte_cases)

lemma length_ws_mask: "align_ok split data \<Longrightarrow> length (ws_mask big split data m) = length data"
  by (simp add: ws_mask_eq_from)

section \<open>Properties\<close>

text \<open>C8: \<open>mask\<close> computes the exclusive or of the payload with the repeated four-byte key, for every
  alignment \<open>align_to_mut\<close> finds and on machines of either byte order.\<close>

theorem ws_mask_correct:
  assumes "align_ok split data"
  shows "ws_mask big split data m = mask_spec data m"
  using assms by (simp add: ws_mask_eq_from mask_from_spec)

theorem ws_mask_correct_witness:
  "ws_mask False (1, 1) [1, 2, 3, 4, 5, 6] 0x10203040 = mask_spec [1, 2, 3, 4, 5, 6] 0x10203040"
  using ws_mask_correct [of "(1, 1)" "[1, 2, 3, 4, 5, 6]"] by (simp add: align_ok_def)

text \<open>Masking twice with the same key gives the payload back, even when the two machines differ in
  byte order and the two slices in alignment.\<close>

theorem ws_mask_involution:
  assumes "align_ok split data" and "align_ok split' data"
  shows "ws_mask big' split' (ws_mask big split data m) m = data"
  using assms by (simp add: ws_mask_eq_from mask_from_spec mask_spec_involution align_ok_def)

theorem ws_mask_involution_witness:
  "ws_mask True (3, 0) (ws_mask False (0, 1) [1, 2, 3, 4, 5] 0xdeadbeef) 0xdeadbeef = [1, 2, 3, 4, 5]"
  by (rule ws_mask_involution) (simp_all add: align_ok_def)

end
