(* ===== verification/Ws_Shared.thy ===== *)
theory Ws_Shared
  imports Io
begin

text \<open>
  The state the two halves of a WebSocket share (\<open>Shared\<close> of \<open>src/src/ws/stream.rs\<close>), the options
  it is made from (\<open>src/src/ws/request.rs\<close>) and the closing of the connection (\<open>do_close\<close>, \<open>close\<close>).

  The half-close protocol is an interface: the reader and the writer rely on the laws of locale
  \<open>half_close\<close>, in which the lemmas about sequences of shutdowns are proved once, and \<open>Shared\<close>
  is its model.
\<close>

section \<open>Options\<close>

text \<open>Durations are in milliseconds.\<close>

record WebSocketOptions =
  wo_handshake_timeout :: nat
  wo_max_message_length :: nat
  wo_close_timeout :: nat

definition DEFAULT_MAX_MESSAGE_LENGTH :: nat where
  "DEFAULT_MAX_MESSAGE_LENGTH = 128 * 1024 * 1024"

definition WebSocketOptions_new :: WebSocketOptions where
  "WebSocketOptions_new = \<lparr>wo_handshake_timeout = 60000,
     wo_max_message_length = DEFAULT_MAX_MESSAGE_LENGTH, wo_close_timeout = 30000\<rparr>"

section \<open>Shared\<close>

record shared =
  sh_max_message_length :: nat
  sh_close_timeout :: nat
  sh_is_client :: bool
  sh_close_state :: "Shutdown option"

definition Shared_new :: "WebSocketOptions \<Rightarrow> bool \<Rightarrow> shared" where
  "Shared_new options is_client = \<lparr>sh_max_message_length = wo_max_message_length options,
     sh_close_timeout = wo_close_timeout options, sh_is_client = is_client, sh_close_state = None\<rparr>"

definition can_read :: "shared \<Rightarrow> bool" where
  "can_read s \<longleftrightarrow>
     \<not> (case sh_close_state s of Some state \<Rightarrow> state \<noteq> ShutWrite | None \<Rightarrow> False)"

definition can_write :: "shared \<Rightarrow> bool" where
  "can_write s \<longleftrightarrow>
     \<not> (case sh_close_state s of Some state \<Rightarrow> state \<noteq> ShutRead | None \<Rightarrow> False)"

definition should_close :: "shared \<Rightarrow> bool" where
  "should_close s \<longleftrightarrow> sh_close_state s = Some ShutBoth"

definition shutdown :: "Shutdown \<Rightarrow> shared \<Rightarrow> bool \<times> shared" where
  "shutdown how s =
     (case sh_close_state s of
        Some cur \<Rightarrow>
          if cur = how then (False, s)
          else (True, s\<lparr>sh_close_state := Some ShutBoth\<rparr>)
      | None \<Rightarrow> (False, s\<lparr>sh_close_state := Some how\<rparr>))"

section \<open>Closing the connection\<close>

definition do_close :: "('w, 'x) conn_extra_scheme \<Rightarrow> ('w, unit) act \<Rightarrow> ('w, unit) act" where
  "do_close C write_data =
     io_bind write_data (\<lambda>_.
     io_bind (ce_shutdown C ShutWrite) (\<lambda>_.
     io_bind (ce_poll C [RdHangUp]) (\<lambda>_. io_return ())))"

text \<open>An unclean close and a timeout are only logged.\<close>

definition ws_close :: "('w, 'x) conn_extra_scheme \<Rightarrow> shared \<Rightarrow> ('w, unit) act \<Rightarrow> ('w, unit) act" where
  "ws_close C sh write_data s =
     (case ce_timeout C (sh_close_timeout sh) (do_close C write_data) s of
        None \<Rightarrow> None
      | Some (Some (Ok _), s') \<Rightarrow> Some (Ok (), s')
      | Some (Some (Err _), s') \<Rightarrow> Some (Ok (), s')
      | Some (Some Panic, s') \<Rightarrow> Some (Panic, s')
      | Some (None, s') \<Rightarrow> Some (Ok (), s'))"

section \<open>The half-close protocol\<close>

locale half_close =
  fixes readable :: "'s \<Rightarrow> bool" and writable :: "'s \<Rightarrow> bool" and closing :: "'s \<Rightarrow> bool"
    and shut :: "Shutdown \<Rightarrow> 's \<Rightarrow> bool \<times> 's"
  assumes readable_shut: "readable (snd (shut how s)) \<longleftrightarrow> readable s \<and> how = ShutWrite"
    and writable_shut: "writable (snd (shut how s)) \<longleftrightarrow> writable s \<and> how = ShutRead"
    and closing_iff: "closing s \<longleftrightarrow> \<not> readable s \<and> \<not> writable s"
    and last_half: "readable s \<Longrightarrow> fst (shut ShutRead s) \<longleftrightarrow> \<not> writable s"
      "writable s \<Longrightarrow> fst (shut ShutWrite s) \<longleftrightarrow> \<not> readable s"
begin

text \<open>What a sequence of shutdowns leaves open.\<close>

lemma readable_shuts:
  "readable (fold (\<lambda>how s. snd (shut how s)) hows s) \<longleftrightarrow> readable s \<and> set hows \<subseteq> {ShutWrite}"
  by (induction hows arbitrary: s) (auto simp: readable_shut)

lemma writable_shuts:
  "writable (fold (\<lambda>how s. snd (shut how s)) hows s) \<longleftrightarrow> writable s \<and> set hows \<subseteq> {ShutRead}"
  by (induction hows arbitrary: s) (auto simp: writable_shut)

lemma closing_stays: "closing s \<Longrightarrow> closing (fold (\<lambda>how s. snd (shut how s)) hows s)"
  by (simp add: closing_iff readable_shuts writable_shuts)

text \<open>
  An open end that shuts its own half is told to close exactly when the other half was shut
  before: of the two ends, the second one closes the connection.
\<close>

lemma second_closes:
  assumes "readable s" and "writable s"
  shows "\<not> fst (shut ShutRead s)" and "fst (shut ShutWrite (snd (shut ShutRead s)))"
    and "\<not> fst (shut ShutWrite s)" and "fst (shut ShutRead (snd (shut ShutWrite s)))"
  using assms by (auto simp: last_half readable_shut writable_shut)

end

interpretation shared: half_close can_read can_write should_close shutdown
proof
  fix how s
  show "can_read (snd (shutdown how s)) \<longleftrightarrow> can_read s \<and> how = ShutWrite"
    "can_write (snd (shutdown how s)) \<longleftrightarrow> can_write s \<and> how = ShutRead"
    by (cases how; auto simp: can_read_def can_write_def shutdown_def split: option.splits)+
  show "should_close s \<longleftrightarrow> \<not> can_read s \<and> \<not> can_write s"
    "can_read s \<Longrightarrow> fst (shutdown ShutRead s) \<longleftrightarrow> \<not> can_write s"
    "can_write s \<Longrightarrow> fst (shutdown ShutWrite s) \<longleftrightarrow> \<not> can_read s"
    by (cases "sh_close_state s"; cases "the (sh_close_state s)";
        auto simp: can_read_def can_write_def should_close_def shutdown_def)+
qed

lemma shutdown_frame [simp]:
  "sh_max_message_length (snd (shutdown how s)) = sh_max_message_length s"
  "sh_is_client (snd (shutdown how s)) = sh_is_client s"
  "sh_close_timeout (snd (shutdown how s)) = sh_close_timeout s"
  by (auto simp: shutdown_def split: option.splits)

lemma ws_close_Ok:
  "ws_close C sh w s = Some (r, s') \<Longrightarrow> r \<noteq> Panic \<Longrightarrow> r = Ok ()"
  by (auto simp: ws_close_def split: option.splits result.splits)

end
