(* ===== verification/Ws_Reader.thy ===== *)
theory Ws_Reader
  imports Ws_Frame Ws_Mask Ws_Shared Text
begin

text \<open>
  The receiving half of a WebSocket: \<open>Reader\<close> and \<open>Frames\<close> of \<open>src/src/ws/stream.rs\<close>.
\<close>

section \<open>State and environment\<close>

text \<open>
  The environment of a reader: the buffered stream, the socket operations used to close the
  connection, the byte order of the machine and the split \<open>align_to_mut\<close> chooses for a slice.
\<close>

record 'r ws_env = "'r buf_read" +
  we_conn :: "'r conn_extra"
  we_big_endian :: bool
  we_align :: "bytes \<Rightarrow> nat \<times> nat"

definition env_mask :: "('r, 'x) ws_env_scheme \<Rightarrow> bytes \<Rightarrow> u32 \<Rightarrow> bytes" where
  "env_mask E data m = ws_mask (we_big_endian E) (we_align E data) data m"

record 'r ws_reader =
  rd_stream :: 'r
  rd_expect_continuation :: bool
  rd_current_message :: "(Op \<times> bytes) option"
  rd_data :: shared

definition on_stream :: "('r, 'a) act \<Rightarrow> ('r ws_reader, 'a) act" where
  "on_stream m = io_zoom rd_stream (\<lambda>t s. s\<lparr>rd_stream := t\<rparr>) m"

definition rd_shutdown :: "Shutdown \<Rightarrow> ('r ws_reader, bool) act" where
  "rd_shutdown how s = (let (b, d) = shutdown how (rd_data s) in Some (Ok b, s\<lparr>rd_data := d\<rparr>))"

section \<open>Reader\<close>

definition check_frame :: "FrameHeader \<Rightarrow> ('r ws_reader, unit) act" where
  "check_frame frame =
     (if is_control (fh_op frame) then
        if \<not> fh_fin frame then
          io_throw (WebSocketE (InvalidControlFrame ''Fin not set on control frame''))
        else if fh_len frame > 0x7d then
          io_throw (WebSocketE (InvalidControlFrame ''Control frame too long''))
        else io_return ()
      else
        io_bind (io_get rd_expect_continuation) (\<lambda>expect.
        if expect \<noteq> (fh_op frame = Op_Continuation) then
          io_throw (WebSocketE (if expect then ExpectedContinuation else UnexpectedContinuation))
        else io_modify (\<lambda>s. s\<lparr>rd_expect_continuation := \<not> fh_fin frame\<rparr>)))"

definition read_frame_header :: "('r, 'x) ws_env_scheme \<Rightarrow> ('r ws_reader, FrameHeader option) act" where
  "read_frame_header E =
     io_bind (io_get (\<lambda>s. can_read (rd_data s))) (\<lambda>readable.
     if \<not> readable then io_throw (Kind KShutdown)
     else
       io_bind (on_stream (FrameHeader_read E)) (\<lambda>header.
       case header of
         None \<Rightarrow> io_bind (rd_shutdown ShutRead) (\<lambda>_. io_return None)
       | Some frame \<Rightarrow>
           if fh_op frame = Op_Invalid then io_throw (WebSocketE InvalidOpcode)
           else
             io_bind (check_frame frame) (\<lambda>_.
             io_bind (io_get (\<lambda>s. sh_is_client (rd_data s))) (\<lambda>is_client.
             if fh_mask frame \<noteq> None \<and> is_client then io_throw (WebSocketE ServerMasked)
             else
               io_bind (if fh_op frame = Op_Close
                        then io_bind (rd_shutdown ShutRead) (\<lambda>_. io_return ())
                        else io_return ()) (\<lambda>_.
               io_return (Some frame))))))"

text \<open>
  The loop of \<open>discard_frame_data\<close>. The header is the caller's, so it is part of the state.
\<close>

partial_function (option) discard_loop :: "('r, 'x) ws_env_scheme \<Rightarrow> ('r \<times> FrameHeader, unit) act" where
  "discard_loop E s =
     (let available = length (br_buffer E (fst s)) in
      case checked_sub (fh_len (snd s)) (word_of_nat available) of
        Some remaining \<Rightarrow>
          io_bind (io_modify (\<lambda>(r, h). (br_discard E r, h\<lparr>fh_len := remaining\<rparr>))) (\<lambda>_.
          io_bind (io_zoom fst (\<lambda>r s. (r, snd s)) (br_fill E)) (\<lambda>n.
          if n = 0 then io_throw (Kind KUnexpectedEof) else discard_loop E)) s
      | None \<Rightarrow>
          io_modify (\<lambda>(r, h). (br_consume E (unat (fh_len h)) r, h\<lparr>fh_len := 0\<rparr>)) s)"

definition on_stream_header ::
  "('r \<times> FrameHeader, 'a) act \<Rightarrow> ('r ws_reader \<times> FrameHeader, 'a) act" where
  "on_stream_header m =
     io_zoom (\<lambda>(s, h). (rd_stream s, h)) (\<lambda>(r, h) (s, _). (s\<lparr>rd_stream := r\<rparr>, h)) m"

definition discard_frame_data ::
  "('r, 'x) ws_env_scheme \<Rightarrow> ('r ws_reader \<times> FrameHeader, unit) act" where
  "discard_frame_data E = on_stream_header (discard_loop E)"

text \<open>
  The function \<open>read_frame_data\<close> into a buffer of length \<open>n\<close>: the bytes stored at its start. The
  subtraction from \<open>header.len\<close> panics when it would wrap.
\<close>

definition read_frame_data ::
  "('r, 'x) ws_env_scheme \<Rightarrow> nat \<Rightarrow> ('r \<times> FrameHeader, bytes) act" where
  "read_frame_data E n =
     io_bind (io_get (\<lambda>s. br_read_into E n (unat (fh_len (snd s))))) (\<lambda>cut.
     case cut of
       None \<Rightarrow> io_return []
     | Some n' \<Rightarrow>
         io_bind (io_zoom fst (\<lambda>r s. (r, snd s)) (br_read_fully E n')) (\<lambda>xs.
         io_bind (io_get (\<lambda>s. checked_sub (fh_len (snd s)) (word_of_nat (length xs)))) (\<lambda>rest.
         case rest of
           None \<Rightarrow> io_panic
         | Some len \<Rightarrow>
             io_bind (io_modify (\<lambda>(r, h). (r, h\<lparr>fh_len := len\<rparr>))) (\<lambda>_. io_return xs))))"

definition reader_read_frame_data ::
  "('r, 'x) ws_env_scheme \<Rightarrow> nat \<Rightarrow> ('r ws_reader \<times> FrameHeader, bytes) act" where
  "reader_read_frame_data E n = on_stream_header (read_frame_data E n)"

section \<open>Frames\<close>

text \<open>
  Reading the payload of \<open>frame\<close> into a zeroed buffer of length \<open>n\<close>: bytes that
  \<open>read_frame_data\<close> did not store stay 0 (its count is ignored by \<open>read_frame\<close>).
\<close>

definition read_payload :: "('r, 'x) ws_env_scheme \<Rightarrow> FrameHeader \<Rightarrow> nat \<Rightarrow> ('r ws_reader, bytes) act" where
  "read_payload E frame n s =
     map_option (\<lambda>(res, (s', _)). (map_ok (\<lambda>xs. xs @ replicate (n - length xs) 0) res, s'))
       (reader_read_frame_data E n (s, frame))"

definition unmask :: "('r, 'x) ws_env_scheme \<Rightarrow> FrameHeader \<Rightarrow> bytes \<Rightarrow> bytes" where
  "unmask E frame data = (case fh_mask frame of Some m \<Rightarrow> env_mask E data m | None \<Rightarrow> data)"

definition read_control :: "('r, 'x) ws_env_scheme \<Rightarrow> FrameHeader \<Rightarrow> ('r ws_reader, Frame option) act" where
  "read_control E frame =
     io_bind (read_payload E frame (unat (fh_len frame))) (\<lambda>data.
     let control = control_store (unmask E frame data)
           (ControlFrame_new\<lparr>cf_length := unat (fh_len frame)\<rparr>) in
     case fh_op frame of
       Op_Ping \<Rightarrow> io_return (Some (F_Ping control))
     | Op_Pong \<Rightarrow> io_return (Some (F_Pong control))
     | Op_Close \<Rightarrow>
         io_bind (io_lift (control_data control)) (\<lambda>cdata.
         let (code, control) =
           (if 2 \<le> length cdata then (from_be_bytes (take 2 cdata), control\<lparr>cf_offset := 2\<rparr>)
            else (close_code_u16 CC_NoStatusCode, control)) in
         io_bind (io_get rd_data) (\<lambda>sh.
         io_bind (if should_close sh
                  then on_stream (ws_close (we_conn E) sh (io_return ()))
                  else io_return ()) (\<lambda>_.
         io_return (Some (F_Close code control)))))
     | _ \<Rightarrow> io_panic)"

text \<open>The end of the data branch: hand the message out, or keep it for the next fragment.\<close>

definition finish_message :: "FrameHeader \<Rightarrow> Op \<Rightarrow> bytes \<Rightarrow> ('r ws_reader, Frame option) act" where
  "finish_message frame op message =
     (if fh_fin frame then
        io_bind (io_modify (\<lambda>s. s\<lparr>rd_current_message := None\<rparr>)) (\<lambda>_.
        case op of
          Op_Binary \<Rightarrow> io_return (Some (F_Binary message))
        | Op_Text \<Rightarrow>
            if utf8_valid message then io_return (Some (F_Text message)) else io_throw InvalidUtf8
        | _ \<Rightarrow> io_panic)
      else
        io_bind (io_modify (\<lambda>s. s\<lparr>rd_current_message := Some (op, message)\<rparr>)) (\<lambda>_.
        io_return None))"

text \<open>
  The buffer is made longer by zeros before the payload is read into it. Of a payload that \<open>read_fully\<close> could not
  read to its end, the bytes that did come are not kept here: the zeros stay in their place.
\<close>

definition read_data :: "('r, 'x) ws_env_scheme \<Rightarrow> FrameHeader \<Rightarrow> ('r ws_reader, Frame option) act" where
  "read_data E frame =
     io_bind (io_get (\<lambda>s. case rd_current_message s of Some m \<Rightarrow> m | None \<Rightarrow> (fh_op frame, []))) (\<lambda>(op, buf).
     io_bind (io_modify (\<lambda>s. s\<lparr>rd_current_message := Some (op, buf)\<rparr>)) (\<lambda>_.
     io_bind (io_get (\<lambda>s. sh_max_message_length (rd_data s))) (\<lambda>max_len.
     io_bind (io_lift (ok_or (WebSocketE MessageTooLong)
        (Option.bind (nat_checked_sub max_len (length buf)) (\<lambda>remaining.
           nat_checked_sub remaining (unat (fh_len frame)))))) (\<lambda>_.
     if length buf + unat (fh_len frame) > u64_max then io_panic
     else
       io_bind (io_modify (\<lambda>s. s\<lparr>rd_current_message :=
         Some (op, buf @ replicate (unat (fh_len frame)) 0)\<rparr>)) (\<lambda>_.
       io_bind (read_payload E frame (unat (fh_len frame))) (\<lambda>data.
       finish_message frame op (buf @ unmask E frame data)))))))"

definition read_frame :: "('r, 'x) ws_env_scheme \<Rightarrow> ('r ws_reader, Frame option) act" where
  "read_frame E =
     io_bind (read_frame_header E) (\<lambda>header.
     case header of
       None \<Rightarrow> io_return (Some (F_Close (close_code_u16 CC_NoClose) ControlFrame_new))
     | Some frame \<Rightarrow>
         io_bind (io_get (\<lambda>s. sh_max_message_length (rd_data s))) (\<lambda>max_len.
         if unat (fh_len frame) > max_len then io_throw (WebSocketE MessageTooLong)
         else if is_control (fh_op frame) then read_control E frame
         else read_data E frame))"

partial_function (option) next_frame :: "('r, 'x) ws_env_scheme \<Rightarrow> ('r ws_reader, Frame) act" where
  "next_frame E s =
     io_bind (read_frame E) (\<lambda>frame.
       case frame of Some f \<Rightarrow> io_return f | None \<Rightarrow> next_frame E) s"

text \<open>\<open>AsyncIterator::next\<close>: \<open>None\<close> ends the iteration.\<close>

definition frames_next :: "('r, 'x) ws_env_scheme \<Rightarrow> 'r ws_reader \<Rightarrow> (Frame res option \<times> 'r ws_reader) option" where
  "frames_next E s =
     (if can_read (rd_data s)
      then map_option (\<lambda>(res, s'). (Some res, s')) (next_frame E s)
      else Some (None, s))"

text \<open>\<open>Reader::frames\<close>: the iterator owns the reader.\<close>

record 'r Frames =
  fr_reader :: "'r ws_reader"

definition reader_frames :: "'r ws_reader \<Rightarrow> 'r Frames" where
  "reader_frames r = \<lparr>fr_reader = r\<rparr>"

definition frames_iter_next :: "('r, 'x) ws_env_scheme \<Rightarrow> 'r Frames \<Rightarrow> (Frame res option \<times> 'r Frames) option" where
  "frames_iter_next E s = map_option (\<lambda>(item, r). (item, \<lparr>fr_reader = r\<rparr>)) (frames_next E (fr_reader s))"

end
