(* ===== verification/Ws_Reader_Laws.thy ===== *)
theory Ws_Reader_Laws
  imports Ws_Reader
begin

text \<open>
  What the receiving half does on a connection that delivers its bytes (locale \<open>ws_source\<close>), and
  what it guarantees on every connection: validation of headers, the reader's invariant, bounds.
\<close>

section \<open>Header validation\<close>

definition valid_header :: "bool \<Rightarrow> bool \<Rightarrow> FrameHeader \<Rightarrow> bool" where
  "valid_header expect is_client h \<longleftrightarrow> fh_op h \<noteq> Op_Invalid
     \<and> (is_control (fh_op h) \<longrightarrow> fh_fin h \<and> fh_len h \<le> 0x7d)
     \<and> (\<not> is_control (fh_op h) \<longrightarrow> expect = (fh_op h = Op_Continuation))
     \<and> (is_client \<longrightarrow> fh_mask h = None)"

text \<open>What an accepted header changes, besides the stream.\<close>

definition after_header :: "FrameHeader \<Rightarrow> 'r ws_reader \<Rightarrow> 'r ws_reader" where
  "after_header h s = s\<lparr>
     rd_expect_continuation := (if is_control (fh_op h) then rd_expect_continuation s else \<not> fh_fin h),
     rd_data := (if fh_op h = Op_Close then snd (shutdown ShutRead (rd_data s)) else rd_data s)\<rparr>"

lemma after_header_simps [simp]:
  "rd_stream (after_header h s) = rd_stream s"
  "rd_current_message (after_header h s) = rd_current_message s"
  "sh_max_message_length (rd_data (after_header h s)) = sh_max_message_length (rd_data s)"
  "sh_is_client (rd_data (after_header h s)) = sh_is_client (rd_data s)"
  by (simp_all add: after_header_def)

lemma check_frame_Ok:
  "check_frame h s = Some (Ok u, s') \<longleftrightarrow>
     (is_control (fh_op h) \<longrightarrow> fh_fin h \<and> fh_len h \<le> 0x7d)
     \<and> (\<not> is_control (fh_op h) \<longrightarrow> rd_expect_continuation s = (fh_op h = Op_Continuation))
     \<and> s' = s\<lparr>rd_expect_continuation :=
           (if is_control (fh_op h) then rd_expect_continuation s else \<not> fh_fin h)\<rparr>"
  by (auto simp: check_frame_def io_simps)

lemma rd_shutdown_eq: "rd_shutdown how s = Some (Ok (fst (shutdown how (rd_data s))),
    s\<lparr>rd_data := snd (shutdown how (rd_data s))\<rparr>)"
  by (simp add: rd_shutdown_def split: prod.split)

text \<open>A header returned to the caller was accepted, on any connection.\<close>

lemma read_frame_header_SomeE:
  assumes "read_frame_header E s = Some (Ok (Some h), s')"
  obtains r' s1 where "can_read (rd_data s)" and "fh_op h \<noteq> Op_Invalid"
    and "FrameHeader_read E (rd_stream s) = Some (Ok (Some h), r')"
    and "check_frame h (s\<lparr>rd_stream := r'\<rparr>) = Some (Ok (), s1)"
    and "fh_mask h \<noteq> None \<longrightarrow> \<not> sh_is_client (rd_data s1)"
    and "s' = (if fh_op h = Op_Close then s1\<lparr>rd_data := snd (shutdown ShutRead (rd_data s1))\<rparr> else s1)"
  using assms
  by (auto simp: read_frame_header_def io_Ok on_stream_def rd_shutdown_eq split: option.splits if_splits)

lemma read_frame_header_Some:
  assumes "read_frame_header E s = Some (Ok (Some h), s')"
  shows "can_read (rd_data s)"
    and "valid_header (rd_expect_continuation s) (sh_is_client (rd_data s)) h"
    and "\<exists>r'. s' = after_header h (s\<lparr>rd_stream := r'\<rparr>)"
  using assms
  by (rule read_frame_header_SomeE; auto simp: check_frame_Ok valid_header_def after_header_def)+

text \<open>A frame on the wire: the header and the masked payload.\<close>

definition wire_frame :: "FrameHeader \<Rightarrow> bytes \<Rightarrow> bytes" where
  "wire_frame h payload =
     header_bytes h @ (case fh_mask h of Some m \<Rightarrow> mask_spec payload m | None \<Rightarrow> payload)"

text \<open>What a data frame with a complete payload does to the message being assembled.\<close>

definition deliver :: "FrameHeader \<Rightarrow> bytes \<Rightarrow> 'r ws_reader \<Rightarrow> Frame option res \<times> 'r ws_reader" where
  "deliver h payload s =
     (let (op, buf) = (case rd_current_message s of Some m \<Rightarrow> m | None \<Rightarrow> (fh_op h, []));
          message = buf @ payload in
      if fh_fin h then
        (case op of
           Op_Binary \<Rightarrow> Ok (Some (F_Binary message))
         | Op_Text \<Rightarrow> if utf8_valid message then Ok (Some (F_Text message)) else Err InvalidUtf8
         | _ \<Rightarrow> Panic, s\<lparr>rd_current_message := None\<rparr>)
      else (Ok None, s\<lparr>rd_current_message := Some (op, message)\<rparr>))"

text \<open>A message sent in fragments, each with its mask key.\<close>

fun message_wire :: "Op \<Rightarrow> (u32 option \<times> bytes) list \<Rightarrow> bytes" where
  "message_wire op [] = []"
| "message_wire op ((m, p) # ps) =
     wire_frame \<lparr>fh_fin = (ps = []), fh_op = op, fh_mask = m, fh_len = word_of_nat (length p)\<rparr> p
       @ message_wire Op_Continuation ps"

definition message_frame :: "Op \<Rightarrow> bytes \<Rightarrow> Frame" where
  "message_frame op message = (if op = Op_Text then F_Text message else F_Binary message)"

text \<open>Control frames: the received frame holds the payload, a close frame without its code.\<close>

definition control_frame :: "Op \<Rightarrow> bytes \<Rightarrow> Frame \<Rightarrow> bool" where
  "control_frame op payload f \<longleftrightarrow>
     (case f of
        F_Ping c \<Rightarrow> op = Op_Ping \<and> control_data c = Ok payload
      | F_Pong c \<Rightarrow> op = Op_Pong \<and> control_data c = Ok payload
      | F_Close code c \<Rightarrow> op = Op_Close \<and>
          (if 2 \<le> length payload
           then code = from_be_bytes (take 2 payload) \<and> control_data c = Ok (drop 2 payload)
           else code = close_code_u16 CC_NoStatusCode \<and> control_data c = Ok payload)
      | _ \<Rightarrow> False)"

section \<open>A connection for a reader\<close>

text \<open>
  Beyond \<open>byte_source\<close>: \<open>align_to_mut\<close> returns parts of the slice, and closing the
  connection returns (the operations do not panic and the timeout ends).
\<close>

locale ws_source = byte_source E incoming
  for E :: "('r, 'x) ws_env_scheme" and incoming :: "'r \<Rightarrow> bytes" +
  assumes align: "align_ok (we_align E data) data"
    and closes: "\<exists>r'. ws_close (we_conn E) sh (io_return ()) r = Some (Ok (), r')"
begin

lemma env_mask_eq: "env_mask E data m = mask_spec data m"
  by (simp add: env_mask_def ws_mask_eq_from align mask_from_spec)

lemma length_unmask [simp]: "length (unmask E frame data) = length data"
  by (simp add: unmask_def env_mask_eq split: option.split)

text \<open>Reading a payload that has arrived, or will.\<close>

lemma read_frame_data_full:
  assumes n: "n = unat (fh_len h)" and len: "n \<le> length (pend r)"
  shows "\<exists>r'. read_frame_data E n (r, h) = Some (Ok (take n (pend r)), (r', h\<lparr>fh_len := 0\<rparr>))
    \<and> pend r' = drop n (pend r)"
proof (cases "n = 0")
  case True
  moreover from True n have "fh_len h = 0" by (simp add: unat_eq_zero)
  ultimately show ?thesis using n
    by (auto simp: read_frame_data_def read_into io_simps intro!: exI [of _ r])
next
  case False
  from read_fully [OF len] obtain r' where
    r': "br_read_fully E n r = Some (Ok (take n (pend r)), r')" "pend r' = drop n (pend r)"
    by blast
  have "checked_sub (fh_len h) (word_of_nat n) = Some 0"
    using n by (simp add: checked_sub_def)
  with r' False n len show ?thesis
    by (auto simp: read_frame_data_def read_into io_simps min_def)
qed

lemma read_payload_full:
  assumes n: "n = unat (fh_len h)" and len: "n \<le> length (pend (rd_stream s))"
  shows "\<exists>r'. read_payload E h n s = Some (Ok (take n (pend (rd_stream s))), s\<lparr>rd_stream := r'\<rparr>)
    \<and> pend r' = drop n (pend (rd_stream s))"
  using read_frame_data_full [OF assms] len
  by (auto simp: read_payload_def reader_read_frame_data_def on_stream_header_def)

section \<open>Receiving frames\<close>

lemma read_frame_header_valid:
  assumes "can_read (rd_data s)" and v: "valid_header (rd_expect_continuation s) (sh_is_client (rd_data s)) h"
    and p: "pend (rd_stream s) = header_bytes h @ rest"
  shows "\<exists>r'. read_frame_header E s = Some (Ok (Some h), after_header h (s\<lparr>rd_stream := r'\<rparr>)) \<and> pend r' = rest"
proof -
  have "fh_op h \<noteq> Op_Invalid" using v by (simp add: valid_header_def)
  from read_header_bytes [OF this p] obtain r' where
    r': "FrameHeader_read E (rd_stream s) = Some (Ok (Some h), r')" "pend r' = rest"
    by blast
  let ?s = "s\<lparr>rd_stream := r'\<rparr>"
  have "check_frame h ?s = Some (Ok (), ?s\<lparr>rd_expect_continuation :=
      (if is_control (fh_op h) then rd_expect_continuation s else \<not> fh_fin h)\<rparr>)"
    using v by (subst check_frame_Ok) (simp add: valid_header_def)
  with r' assms show ?thesis
    by (auto simp: read_frame_header_def on_stream_def io_simps rd_shutdown_eq valid_header_def after_header_def
        intro!: exI [of _ r'])
qed

lemma unmask_payload:
  "unmask E h (case fh_mask h of Some m \<Rightarrow> mask_spec payload m | None \<Rightarrow> payload) = payload"
  by (auto simp: unmask_def env_mask_eq mask_spec_involution split: option.split)

lemma read_data_full:
  assumes p: "pend (rd_stream s) = (case fh_mask h of Some m \<Rightarrow> mask_spec payload m | None \<Rightarrow> payload) @ rest"
    and len: "unat (fh_len h) = length payload"
    and fits: "length (case rd_current_message s of Some (op, buf) \<Rightarrow> buf | None \<Rightarrow> []) + length payload
        \<le> sh_max_message_length (rd_data s)"
    and max: "sh_max_message_length (rd_data s) \<le> u64_max"
  shows "\<exists>r'. read_data E h s = Some (deliver h payload (s\<lparr>rd_stream := r'\<rparr>)) \<and> pend r' = rest"
proof -
  let ?wire = "case fh_mask h of Some m \<Rightarrow> mask_spec payload m | None \<Rightarrow> payload"
  obtain op buf where cur: "(case rd_current_message s of Some m \<Rightarrow> m | None \<Rightarrow> (fh_op h, [])) = (op, buf)"
    by fastforce
  then have buf: "(case rd_current_message s of Some (op, buf) \<Rightarrow> buf | None \<Rightarrow> []) = buf"
    by (auto split: option.splits)
  let ?s = "s\<lparr>rd_current_message := Some (op, buf @ replicate (length payload) 0)\<rparr>"
  have wire: "length ?wire = length payload" by (auto split: option.split)
  from read_payload_full [where n = "length payload" and h = h and s = ?s] p len wire obtain r' where
    r': "read_payload E h (length payload) ?s = Some (Ok ?wire, ?s\<lparr>rd_stream := r'\<rparr>)" "pend r' = rest"
    by auto
  show ?thesis
  proof (intro exI conjI)
    show "read_data E h s = Some (deliver h payload (s\<lparr>rd_stream := r'\<rparr>))"
      using cur r' fits buf max len
      by (auto simp: read_data_def finish_message_def deliver_def io_simps nat_checked_sub_def unmask_payload Let_def
          split: Op.split)
    show "pend r' = rest" by (rule r')
  qed
qed

lemma read_frame_data_valid:
  assumes readable: "can_read (rd_data s)"
    and v: "valid_header (rd_expect_continuation s) (sh_is_client (rd_data s)) h"
    and data: "\<not> is_control (fh_op h)"
    and p: "pend (rd_stream s) = wire_frame h payload @ rest"
    and len: "unat (fh_len h) = length payload"
    and fits: "length (case rd_current_message s of Some (op, buf) \<Rightarrow> buf | None \<Rightarrow> []) + length payload
        \<le> sh_max_message_length (rd_data s)"
    and max: "sh_max_message_length (rd_data s) \<le> u64_max"
  shows "\<exists>r'. read_frame E s = Some (deliver h payload (after_header h (s\<lparr>rd_stream := r'\<rparr>))) \<and> pend r' = rest"
proof -
  from read_frame_header_valid [OF readable v] p obtain r1 where
    r1: "read_frame_header E s = Some (Ok (Some h), after_header h (s\<lparr>rd_stream := r1\<rparr>))"
      "pend r1 = (case fh_mask h of Some m \<Rightarrow> mask_spec payload m | None \<Rightarrow> payload) @ rest"
    by (auto simp: wire_frame_def)
  let ?s = "after_header h (s\<lparr>rd_stream := r1\<rparr>)"
  from read_data_full [where s = ?s and h = h and payload = payload and rest = rest] r1(2) len fits max obtain r2 where
    r2: "read_data E h ?s = Some (deliver h payload (?s\<lparr>rd_stream := r2\<rparr>))" "pend r2 = rest"
    by auto
  have "?s\<lparr>rd_stream := r2\<rparr> = after_header h (s\<lparr>rd_stream := r2\<rparr>)"
    by (simp add: after_header_def)
  moreover have "read_frame E s = read_data E h ?s"
    using r1 data len fits by (simp add: read_frame_def io_simps)
  ultimately show ?thesis using r2 by auto
qed

lemma next_frame_fragments:
  assumes "ps \<noteq> []" and "can_read (rd_data s)"
    and "rd_expect_continuation s \<longleftrightarrow> \<not> first"
    and "rd_current_message s = (if first then None else Some (op0, buf))" and "first \<longrightarrow> buf = []"
    and "op0 \<in> {Op_Text, Op_Binary}" and "op = (if first then op0 else Op_Continuation)"
    and "sh_is_client (rd_data s) \<longrightarrow> (\<forall>(m, p)\<in>set ps. m = None)"
    and "length buf + length (concat (map snd ps)) \<le> sh_max_message_length (rd_data s)"
    and "sh_max_message_length (rd_data s) \<le> u64_max"
    and "op0 = Op_Text \<longrightarrow> utf8_valid (buf @ concat (map snd ps))"
    and "pend (rd_stream s) = message_wire op ps @ rest"
  shows "\<exists>r'. next_frame E s = Some (Ok (message_frame op0 (buf @ concat (map snd ps))),
      s\<lparr>rd_stream := r', rd_expect_continuation := False, rd_current_message := None\<rparr>) \<and> pend r' = rest"
  using assms
proof (induction ps arbitrary: s first buf op)
  case (Cons mp ps)
  obtain m p where mp: "mp = (m, p)" by fastforce
  let ?h = "\<lparr>fh_fin = (ps = []), fh_op = op, fh_mask = m, fh_len = word_of_nat (length p) :: u64\<rparr>"
  have "length p < 2 ^ 64" using Cons.prems mp by (simp add: u64_max_def)
  then have len: "unat (fh_len ?h) = length p"
    by (simp add: unsigned_of_nat take_bit_nat_eq_self_iff)
  have data: "\<not> is_control op" using Cons.prems by auto
  have valid: "valid_header (rd_expect_continuation s) (sh_is_client (rd_data s)) ?h"
    using Cons.prems mp by (auto simp: valid_header_def)
  have buf: "(case rd_current_message s of Some (op, buf) \<Rightarrow> buf | None \<Rightarrow> []) = buf"
    using Cons.prems by auto
  have "\<exists>r1. read_frame E s = Some (deliver ?h p (after_header ?h (s\<lparr>rd_stream := r1\<rparr>)))
      \<and> pend r1 = message_wire Op_Continuation ps @ rest"
    using Cons.prems mp valid data len buf by (intro read_frame_data_valid) auto
  then obtain r1 where
    r1: "read_frame E s = Some (deliver ?h p (after_header ?h (s\<lparr>rd_stream := r1\<rparr>)))"
      "pend r1 = message_wire Op_Continuation ps @ rest"
    by blast
  have noclose: "op \<noteq> Op_Close" using data by auto
  have cur: "(case rd_current_message s of Some m \<Rightarrow> m | None \<Rightarrow> (op, [])) = (op0, buf)"
    using Cons.prems by auto
  show ?case
  proof (cases "ps = []")
    case True
    with r1 Cons.prems mp data noclose cur show ?thesis
      by (subst next_frame.simps)
        (auto simp: deliver_def after_header_def message_frame_def io_simps)
  next
    case False
    let ?s1 = "s\<lparr>rd_stream := r1, rd_expect_continuation := True,
      rd_current_message := Some (op0, buf @ p)\<rparr>"
    have "deliver ?h p (after_header ?h (s\<lparr>rd_stream := r1\<rparr>)) = (Ok None, ?s1)"
      using Cons.prems(4-7) False data noclose
      by (cases first) (simp_all add: deliver_def after_header_def)
    with r1 have "next_frame E s = next_frame E ?s1"
      by (subst next_frame.simps) simp
    moreover have "\<exists>r'. next_frame E ?s1 = Some (Ok (message_frame op0 ((buf @ p) @ concat (map snd ps))),
      ?s1\<lparr>rd_stream := r', rd_expect_continuation := False, rd_current_message := None\<rparr>) \<and> pend r' = rest"
      using False Cons.prems mp r1
      by (intro Cons.IH [of ?s1 False "buf @ p" Op_Continuation]) auto
    ultimately show ?thesis using mp by auto
  qed
qed simp

lemma read_control_full:
  assumes p: "pend (rd_stream s) = (case fh_mask h of Some m \<Rightarrow> mask_spec payload m | None \<Rightarrow> payload) @ rest"
    and len: "unat (fh_len h) = length payload" and small: "length payload \<le> CONTROL_MAX_LENGTH"
    and ctl: "is_control (fh_op h)"
  shows "\<exists>r' f. read_control E h s = Some (Ok (Some f), s\<lparr>rd_stream := r'\<rparr>)
    \<and> control_frame (fh_op h) payload f
    \<and> (fh_op h \<noteq> Op_Close \<or> \<not> should_close (rd_data s) \<longrightarrow> pend r' = rest)"
proof -
  let ?wire = "case fh_mask h of Some m \<Rightarrow> mask_spec payload m | None \<Rightarrow> payload"
  have wire: "length ?wire = length payload" by (auto split: option.split)
  from read_payload_full [where n = "length payload" and h = h and s = s] p len wire obtain r' where
    r': "read_payload E h (length payload) s = Some (Ok ?wire, s\<lparr>rd_stream := r'\<rparr>)" "pend r' = rest"
    by auto
  let ?c = "control_store payload (ControlFrame_new\<lparr>cf_length := length payload\<rparr>)"
  have c: "control_data ?c = Ok payload" using small by (rule control_store_data)
  have off: "control_data (?c\<lparr>cf_offset := 2\<rparr>) = Ok (drop 2 payload)" if "2 \<le> length payload"
    using that small by (simp add: control_data_def control_store_def ControlFrame_new_def)
  obtain r'' where r'': "ws_close (we_conn E) (rd_data s) (io_return ()) r' = Some (Ok (), r'')"
    using closes by blast
  show ?thesis
    using r' len c off r'' ctl
    by (cases "fh_op h"; cases "should_close (rd_data s)")
      (auto simp: read_control_def control_frame_def io_simps Let_def unmask_payload on_stream_def)
qed

lemma read_frame_control_valid:
  assumes readable: "can_read (rd_data s)"
    and v: "valid_header (rd_expect_continuation s) (sh_is_client (rd_data s)) h"
    and ctl: "is_control (fh_op h)"
    and p: "pend (rd_stream s) = wire_frame h payload @ rest"
    and len: "unat (fh_len h) = length payload" and fits: "length payload \<le> sh_max_message_length (rd_data s)"
  shows "\<exists>r' f. read_frame E s = Some (Ok (Some f), after_header h (s\<lparr>rd_stream := r'\<rparr>))
    \<and> control_frame (fh_op h) payload f \<and> (fh_op h = Op_Close \<and> \<not> can_write (rd_data s) \<or> pend r' = rest)"
proof -
  from read_frame_header_valid [OF readable v] p obtain r1 where
    r1: "read_frame_header E s = Some (Ok (Some h), after_header h (s\<lparr>rd_stream := r1\<rparr>))"
      "pend r1 = (case fh_mask h of Some m \<Rightarrow> mask_spec payload m | None \<Rightarrow> payload) @ rest"
    by (auto simp: wire_frame_def)
  let ?s = "after_header h (s\<lparr>rd_stream := r1\<rparr>)"
  have "length payload \<le> CONTROL_MAX_LENGTH"
    using v ctl len by (simp add: valid_header_def CONTROL_MAX_LENGTH_def word_le_nat_alt)
  with r1(2) len ctl obtain r2 f where
    r2: "read_control E h ?s = Some (Ok (Some f), ?s\<lparr>rd_stream := r2\<rparr>)" "control_frame (fh_op h) payload f"
      "fh_op h \<noteq> Op_Close \<or> \<not> should_close (rd_data ?s) \<longrightarrow> pend r2 = rest"
    using read_control_full [where s = ?s and h = h and payload = payload and rest = rest] by auto
  have "?s\<lparr>rd_stream := r2\<rparr> = after_header h (s\<lparr>rd_stream := r2\<rparr>)"
    by (simp add: after_header_def)
  moreover have "read_frame E s = read_control E h ?s"
    using r1 ctl len fits by (simp add: read_frame_def io_simps)
  moreover have "should_close (rd_data ?s) \<Longrightarrow> fh_op h = Op_Close \<Longrightarrow> \<not> can_write (rd_data s)"
    by (simp add: after_header_def shared.closing_iff shared.writable_shut)
  ultimately show ?thesis using r2 by (auto intro!: exI [of _ r2])
qed

text \<open>A masked frame refused by a client, and a continuation frame with no message open.\<close>

lemma read_frame_server_masked:
  assumes "can_read (rd_data s)" and "sh_is_client (rd_data s)" and "\<not> rd_expect_continuation s"
    and h: "fh_op h = Op_Text" "fh_mask h \<noteq> None"
    and p: "pend (rd_stream s) = header_bytes h @ rest"
  shows "\<exists>r'. read_frame E s = Some (Err (WebSocketE ServerMasked),
      s\<lparr>rd_stream := r', rd_expect_continuation := \<not> fh_fin h\<rparr>) \<and> pend r' = rest"
proof -
  from read_header_bytes [OF _ p] h obtain r' where
    r': "FrameHeader_read E (rd_stream s) = Some (Ok (Some h), r')" "pend r' = rest"
    by auto
  have "check_frame h (s\<lparr>rd_stream := r'\<rparr>)
      = Some (Ok (), s\<lparr>rd_stream := r', rd_expect_continuation := \<not> fh_fin h\<rparr>)"
    using assms by (subst check_frame_Ok) simp
  with r' assms have "read_frame_header E s = Some (Err (WebSocketE ServerMasked),
      s\<lparr>rd_stream := r', rd_expect_continuation := \<not> fh_fin h\<rparr>)"
    by (simp add: read_frame_header_def on_stream_def io_simps)
  with r'(2) show ?thesis by (auto simp: read_frame_def)
qed

lemma refused_then_continuation:
  assumes "can_read (rd_data s)" and "sh_is_client (rd_data s)"
    and "\<not> rd_expect_continuation s" and "rd_current_message s = None"
    and h1: "h1 = \<lparr>fh_fin = False, fh_op = Op_Text, fh_mask = Some m, fh_len = n\<rparr>"
    and h2: "h2 = \<lparr>fh_fin = True, fh_op = Op_Continuation, fh_mask = None, fh_len = word_of_nat (length p)\<rparr>"
    and p: "pend (rd_stream s) = header_bytes h1 @ wire_frame h2 p @ rest"
    and fits: "length p \<le> sh_max_message_length (rd_data s)" "sh_max_message_length (rd_data s) \<le> u64_max"
  shows "\<exists>s1 s2. read_frame E s = Some (Err (WebSocketE ServerMasked), s1)
    \<and> read_frame E s1 = Some (Panic, s2)"
proof -
  from read_frame_server_masked [where h = h1 and s = s] assms obtain r1 where
    r1: "read_frame E s = Some (Err (WebSocketE ServerMasked),
          s\<lparr>rd_stream := r1, rd_expect_continuation := True\<rparr>)" "pend r1 = wire_frame h2 p @ rest"
    by auto
  let ?s = "s\<lparr>rd_stream := r1, rd_expect_continuation := True\<rparr>"
  have "length p < 2 ^ 64" using fits by (simp add: u64_max_def)
  then have "unat (fh_len h2) = length p" using h2 by (simp add: unat_of_nat_u64)
  with r1 assms obtain r2 where
    "read_frame E ?s = Some (deliver h2 p (after_header h2 (?s\<lparr>rd_stream := r2\<rparr>)))"
    using read_frame_data_valid [where s = ?s and h = h2 and payload = p and rest = rest]
    by (auto simp: valid_header_def)
  with r1 h2 assms show ?thesis by (auto simp: deliver_def)
qed

section \<open>Discarding the payload of a frame\<close>

lemma discard_loop_result:
  assumes "length (pend r) < 2 ^ 64" and "0 < br_capacity E r"
  shows "\<exists>res r' h'. discard_loop E (r, h) = Some (res, (r', h'))
    \<and> (if unat (fh_len h) < length (pend r)
       then res = Ok () \<and> pend r' = drop (unat (fh_len h)) (pend r) \<and> h' = h\<lparr>fh_len := 0\<rparr>
       else res = Err (Kind KUnexpectedEof))"
  using assms
proof (induction "length (incoming r)" arbitrary: r h rule: less_induct)
  case less
  let ?n = "length (br_buffer E r)"
  have n: "?n < 2 ^ 64" and pend: "length (pend r) = ?n + length (incoming r)"
    using less.prems by (simp_all add: pending_def)
  then have un: "unat (word_of_nat ?n :: u64) = ?n"
    by (simp add: unsigned_of_nat take_bit_nat_eq_self_iff)
  show ?case
  proof (cases "unat (fh_len h) < ?n")
    case True
    then have "checked_sub (fh_len h) (word_of_nat ?n) = None"
      using un by (simp add: checked_sub_def word_le_nat_alt)
    with True pend consume_pending [of "unat (fh_len h)" r] show ?thesis
      by (subst discard_loop.simps) (simp add: Let_def io_simps)
  next
    case False
    let ?h = "h\<lparr>fh_len := fh_len h - word_of_nat ?n\<rparr>" and ?r = "br_discard E r"
    have sub: "checked_sub (fh_len h) (word_of_nat ?n) = Some (fh_len ?h)"
      using False un by (simp add: checked_sub_def word_le_nat_alt)
    have len: "unat (fh_len ?h) = unat (fh_len h) - ?n"
      using False un by (simp add: unat_sub word_le_nat_alt)
    obtain k r' where fill: "br_fill E ?r = Some (Ok k, r')" and p': "pend r' = pend ?r"
      and inc: "length (incoming r') + k = length (incoming r)"
      and k: "k = 0 \<longleftrightarrow> incoming r = []" and cap: "br_capacity E r' = br_capacity E r"
      using fill_pending [of ?r] discard [of r] less.prems(2) by (metis length_greater_0_conv less_nat_zero_code)
    have pr': "pend r' = incoming r"
      using p' discard_pending [of r] by (simp add: pending_def)
    have step: "discard_loop E (r, h) = (if k = 0 then Some (Err (Kind KUnexpectedEof), (r', ?h))
        else discard_loop E (r', ?h))"
      using sub fill by (subst discard_loop.simps) (simp add: Let_def io_simps io_bind_def io_zoom_def)
    show ?thesis
    proof (cases "k = 0")
      case True
      with step k pend False show ?thesis by auto
    next
      case F: False
      then have lt: "length (incoming r') < length (incoming r)" using inc by simp
      have "length (pend r') < 2 ^ 64" using pr' pend less.prems(1) by simp
      from less.hyps [OF lt this, of ?h] obtain res r'' h'' where
        rec: "discard_loop E (r', ?h) = Some (res, (r'', h''))"
          "if unat (fh_len ?h) < length (pend r')
           then res = Ok () \<and> pend r'' = drop (unat (fh_len ?h)) (pend r') \<and> h'' = ?h\<lparr>fh_len := 0\<rparr>
           else res = Err (Kind KUnexpectedEof)"
        using cap less.prems(2) by auto
      have "drop (unat (fh_len h)) (pend r) = drop (unat (fh_len ?h)) (pend r')"
        using False len pr' by (simp add: pending_def)
      moreover have "unat (fh_len ?h) < length (pend r') \<longleftrightarrow> unat (fh_len h) < length (pend r)"
        unfolding len pr' pend using False by arith
      ultimately show ?thesis using rec F step by simp
    qed
  qed
qed

end

section \<open>The scripted connection as a WebSocket stream\<close>

text \<open>\<open>align_to_mut\<close> may put any number of words in the middle; here the head has up to 3 bytes.\<close>

definition script_align :: "bytes \<Rightarrow> nat \<times> nat" where
  "script_align data = (if length data < 3 then (0, 0) else (3, (length data - 3) div 4))"

definition script_conn :: "script conn_extra" where
  "script_conn = \<lparr>ce_poll = (\<lambda>flags. io_return flags), ce_shutdown = (\<lambda>how. io_return ()),
     ce_timeout = (\<lambda>d m s. map_option (\<lambda>(r, s'). (Some r, s')) (m s))\<rparr>"

definition script_env :: "script ws_env" where
  "script_env = buf_read.extend script_ops
     \<lparr>we_conn = script_conn, we_big_endian = False, we_align = script_align, \<dots> = ()\<rparr>"

lemma script_env_simps [simp]:
  "br_buffer script_env = br_buffer script_ops" "br_capacity script_env = br_capacity script_ops"
  "br_fill script_env = br_fill script_ops" "br_consume script_env = br_consume script_ops"
  "br_discard script_env = br_discard script_ops" "br_read script_env = br_read script_ops"
  "br_inner_read script_env = br_inner_read script_ops"
  "br_read_fully script_env = br_read_fully script_ops"
  "br_try_read_type script_env = br_try_read_type script_ops"
  "br_read_u16_be script_env = br_read_u16_be script_ops"
  "br_read_u32_be script_env = br_read_u32_be script_ops"
  "br_read_u64_be script_env = br_read_u64_be script_ops"
  "br_read_into script_env = br_read_into script_ops"
  "we_conn script_env = script_conn" "we_big_endian script_env = False" "we_align script_env = script_align"
  by (simp_all add: script_env_def buf_read.defs)

lemma pending_script_env [simp]: "pending script_env script_incoming = pending script_ops script_incoming"
  by (simp add: fun_eq_iff pending_def)

interpretation script_ws: ws_source script_env script_incoming
proof unfold_locales
  fix r n
  show "\<exists>xs r'. br_fill script_env r = Some (Ok (length xs), r')
      \<and> br_buffer script_env r' = br_buffer script_env r @ xs
      \<and> script_incoming r = xs @ script_incoming r'
      \<and> br_capacity script_env r' = br_capacity script_env r
      \<and> (xs = [] \<longleftrightarrow> script_incoming r = []
           \<or> length (br_buffer script_env r) = br_capacity script_env r)"
    using script.fill [of r] by simp
next
  fix r n
  show "\<exists>xs r'. br_read script_env n r = Some (Ok xs, r') \<and> length xs \<le> n
        \<and> pending script_env script_incoming r = xs @ pending script_env script_incoming r'
        \<and> br_capacity script_env r' = br_capacity script_env r
        \<and> (xs = [] \<longleftrightarrow> n = 0 \<or> pending script_env script_incoming r = [])"
    using script.read [of n r] by simp
next
  fix data show "align_ok (we_align script_env data) data"
    by (simp add: align_ok_def script_align_def) presburger
next
  fix sh r show "\<exists>r'. ws_close (we_conn script_env) sh (io_return ()) r = Some (Ok (), r')"
    by (simp add: ws_close_def do_close_def script_conn_def io_simps io_bind_def)
qed (use script.buffer_cap script.consume script.discard script.inner_read script.read_fully
    script.try_read_type script.try_read_type_eof script.read_u16 script.read_u32 script.read_u64
    script.read_into in \<open>simp_all\<close>)

section \<open>Properties\<close>

text \<open>A client reader over a script, for the witnesses.\<close>

definition script_reader :: "bool \<Rightarrow> bytes list \<Rightarrow> script ws_reader" where
  "script_reader is_client segs =
     \<lparr>rd_stream = \<lparr>sc_buf = [], sc_free = 4096, sc_rest = segs\<rparr>, rd_expect_continuation = False,
      rd_current_message = None,
      rd_data = \<lparr>sh_max_message_length = 1024, sh_close_timeout = 0, sh_is_client = is_client,
        sh_close_state = None\<rparr>\<rparr>"

text \<open>A header that \<open>read_frame_header\<close> returns has a known opcode, is final and at most 125 bytes
  long if it is a control frame, continues a message exactly when one is open, and is unmasked
  at a client; the reader then expects a continuation iff the data frame was not final, and a
  close frame shuts the reading half. This holds on every stream.\<close>

theorem accepted_header_valid:
  assumes "read_frame_header E s = Some (Ok (Some h), s')"
  shows "can_read (rd_data s)
    \<and> valid_header (rd_expect_continuation s) (sh_is_client (rd_data s)) h
    \<and> rd_expect_continuation s'
        = (if is_control (fh_op h) then rd_expect_continuation s else \<not> fh_fin h)
    \<and> (can_read (rd_data s') \<longleftrightarrow> fh_op h \<noteq> Op_Close)"
  using read_frame_header_Some [OF assms]
  by (auto simp: after_header_def shared.readable_shut)

theorem accepted_header_valid_witness:
  "\<exists>s'. read_frame_header script_env (script_reader True [[0x01, 0x03, 7, 8, 9]])
      = Some (Ok (Some \<lparr>fh_fin = False, fh_op = Op_Text, fh_mask = None, fh_len = 3\<rparr>), s')
    \<and> rd_expect_continuation s'"
proof -
  have run: "read_frame_header script_env (script_reader True [[0x01, 0x03, 7, 8, 9]])
      = Some (Ok (Some \<lparr>fh_fin = False, fh_op = Op_Text, fh_mask = None, fh_len = 3\<rparr>),
          (script_reader True [])\<lparr>rd_stream := \<lparr>sc_buf = [], sc_free = 4096, sc_rest = [[7, 8, 9]]\<rparr>,
             rd_expect_continuation := True\<rparr>)"
    by (simp add: read_frame_header_def script_reader_def can_read_def on_stream_def io_zoom_def io_bind_def
        FrameHeader_read_def decode_length_def script_defs minimum_packet_size_def packet_defs
        op_of_wire_def op_from_u8_def check_frame_def io_simps)
  from accepted_header_valid [OF run] run show ?thesis by auto
qed

text \<open>C25: \<open>discard_frame_data\<close> on a stream that delivers its bytes and then ends always returns. It
  succeeds, consuming exactly the payload, if at least one byte follows the payload; if the
  payload is the end of the stream it fails with \<open>UnexpectedEof\<close> although every byte of it was
  there, because the loop fills the buffer once more before it looks at the remaining length.\<close>

theorem discard_frame_data_result:
  assumes "ws_source E incoming" and "length (pending E incoming (rd_stream s)) < 2 ^ 64"
    and "0 < br_capacity E (rd_stream s)"
  shows "\<exists>res s' h'. discard_frame_data E (s, h) = Some (res, (s', h'))
    \<and> (if unat (fh_len h) < length (pending E incoming (rd_stream s))
       then res = Ok () \<and> fh_len h' = 0
         \<and> pending E incoming (rd_stream s') = drop (unat (fh_len h)) (pending E incoming (rd_stream s))
       else res = Err (Kind KUnexpectedEof))"
proof -
  from ws_source.discard_loop_result [OF assms] obtain res r' h' where
    "discard_loop E (rd_stream s, h) = Some (res, (r', h'))"
    and "if unat (fh_len h) < length (pending E incoming (rd_stream s))
       then res = Ok () \<and> pending E incoming r' = drop (unat (fh_len h)) (pending E incoming (rd_stream s))
         \<and> h' = h\<lparr>fh_len := 0\<rparr>
       else res = Err (Kind KUnexpectedEof)" by blast
  then show ?thesis
    by (auto simp: discard_frame_data_def on_stream_header_def split: if_splits)
qed

text \<open>Five bytes of payload, all delivered: discarding them fails.\<close>

theorem discard_frame_data_result_witness:
  "\<exists>s' h'. discard_frame_data script_env (script_reader True [[1, 2], [3, 4, 5]],
      \<lparr>fh_fin = True, fh_op = Op_Binary, fh_mask = None, fh_len = 5\<rparr>)
    = Some (Err (Kind KUnexpectedEof), (s', h'))"
  using discard_frame_data_result [OF script_ws.ws_source_axioms, of "script_reader True [[1, 2], [3, 4, 5]]"
      "\<lparr>fh_fin = True, fh_op = Op_Binary, fh_mask = None, fh_len = 5\<rparr>"]
  by (simp add: script_reader_def pending_script) (simp add: script_ops_def)

text \<open>C27: After an error the reader is not safe to use: a server that sends a masked non-final text frame
  (refused with \<open>ServerMasked\<close>) and then a final continuation frame makes the client's next
  call of \<open>read_frame\<close> panic in \<open>unreachable!()\<close>, because the refused header has already set
  \<open>expect_continuation\<close> and no message is open.\<close>

theorem continuation_after_error_panics:
  assumes src: "ws_source E incoming" and "can_read (rd_data s)" and "sh_is_client (rd_data s)"
    and "\<not> rd_expect_continuation s" and "rd_current_message s = None"
    and h1: "h1 = \<lparr>fh_fin = False, fh_op = Op_Text, fh_mask = Some m, fh_len = n\<rparr>"
    and h2: "h2 = \<lparr>fh_fin = True, fh_op = Op_Continuation, fh_mask = None, fh_len = word_of_nat (length p)\<rparr>"
    and p: "pending E incoming (rd_stream s) = header_bytes h1 @ wire_frame h2 p @ rest"
    and fits: "length p \<le> sh_max_message_length (rd_data s)" "sh_max_message_length (rd_data s) \<le> u64_max"
  shows "\<exists>s1 s2. read_frame E s = Some (Err (WebSocketE ServerMasked), s1)
    \<and> read_frame E s1 = Some (Panic, s2)"
  using ws_source.refused_then_continuation [OF assms] .

text \<open>A masked text header without payload, then an empty continuation frame.\<close>

theorem continuation_after_error_panics_witness:
  "\<exists>s1 s2. read_frame script_env (script_reader True [[0x01, 0x80, 1, 2, 3, 4, 0x80, 0x00]])
      = Some (Err (WebSocketE ServerMasked), s1) \<and> read_frame script_env s1 = Some (Panic, s2)"
  by (rule continuation_after_error_panics [OF script_ws.ws_source_axioms _ _ _ _ refl refl,
        where m = "0x01020304" and n = "0" and p = "[]" and rest = "[]"])
    (simp_all add: script_reader_def can_read_def u64_max_def pending_script header_bytes_def wire_frame_def
      encode_len_def FrameHeader_packet_eq bool_u8_def to_be_bytes_def)

end
