(* ===== verification/Ws_Reader_Inv.thy ===== *)
theory Ws_Reader_Inv
  imports Ws_Reader_Laws
begin

text \<open>
  The invariant of the receiving half and what it gives: every frame handed out is well formed and
  within the maximum message length, and \<open>read_frame\<close> never panics. Locale \<open>quiet_env\<close> states what
  this needs of the environment: reads store at most as many bytes as the buffer holds, and the
  operations of the packages do not panic themselves.
\<close>

definition reader_inv :: "'r ws_reader \<Rightarrow> bool" where
  "reader_inv s \<longleftrightarrow> (rd_expect_continuation s \<longleftrightarrow> rd_current_message s \<noteq> None)
     \<and> (\<forall>op buf. rd_current_message s = Some (op, buf) \<longrightarrow>
          op \<in> {Op_Text, Op_Binary} \<and> length buf \<le> sh_max_message_length (rd_data s))"

fun frame_ok :: "nat \<Rightarrow> Frame \<Rightarrow> bool" where
  "frame_ok max_len (F_Ping c) = wf_control c"
| "frame_ok max_len (F_Pong c) = wf_control c"
| "frame_ok max_len (F_Close code c) = wf_control c"
| "frame_ok max_len (F_Text m) = (utf8_valid m \<and> length m \<le> max_len)"
| "frame_ok max_len (F_Binary m) = (length m \<le> max_len)"

text \<open>A result of \<open>next_frame\<close> started in a state that satisfies the invariant.\<close>

definition good_result :: "'r ws_reader \<Rightarrow> Frame res \<times> 'r ws_reader \<Rightarrow> bool" where
  "good_result s r \<longleftrightarrow> reader_inv s \<and> sh_max_message_length (rd_data s) \<le> u64_max \<longrightarrow>
     (case fst r of
        Ok f \<Rightarrow> reader_inv (snd r) \<and> frame_ok (sh_max_message_length (rd_data s)) f
          \<and> sh_max_message_length (rd_data (snd r)) = sh_max_message_length (rd_data s)
      | Err _ \<Rightarrow> True
      | Panic \<Rightarrow> False)"

locale quiet_env =
  fixes E :: "('r, 'x) ws_env_scheme"
  assumes reads_bounded: "br_read_fully E n r = Some (Ok xs, r') \<Longrightarrow> length xs \<le> n"
    and cut_bounded: "br_read_into E n limit = Some n' \<Longrightarrow> n' \<le> n \<and> n' \<le> limit"
    and align: "align_ok (we_align E data) data"
    and no_panic: "br_try_read_type E n r \<noteq> Some (Panic, r')" "br_read_u16_be E r \<noteq> Some (Panic, r')"
      "br_read_u32_be E r \<noteq> Some (Panic, r')" "br_read_u64_be E r \<noteq> Some (Panic, r')"
      "br_read_fully E n r \<noteq> Some (Panic, r')"
      "ws_close (we_conn E) sh (io_return ()) r \<noteq> Some (Panic, r')"
begin

lemma unmask_length [simp]: "length (unmask E h data) = length data"
  by (simp add: unmask_def env_mask_def length_ws_mask align split: option.split)

lemma header_no_panic: "FrameHeader_read E r \<noteq> Some (Panic, r')"
  by (auto simp: FrameHeader_read_def decode_length_def io_Panic no_panic split: option.split)

lemma read_frame_header_no_panic: "read_frame_header E s \<noteq> Some (Panic, s')"
  by (auto simp: read_frame_header_def io_Panic on_stream_def io_zoom_def header_no_panic
      check_frame_def rd_shutdown_eq split: option.split)

lemma read_frame_data_Ok:
  assumes "read_frame_data E n (r, h) = Some (Ok xs, (r', h'))"
  shows "length xs \<le> n"
  using assms reads_bounded cut_bounded
  by (fastforce simp: read_frame_data_def io_Ok split: option.splits dest: reads_bounded cut_bounded)

lemma read_frame_data_no_panic:
  assumes "n < 2 ^ 64"
  shows "read_frame_data E n (r, h) \<noteq> Some (Panic, s')"
proof
  assume "read_frame_data E n (r, h) = Some (Panic, s')"
  then obtain n' xs r' where "br_read_into E n (unat (fh_len h)) = Some n'"
    and "br_read_fully E n' r = Some (Ok xs, r')"
    and sub: "checked_sub (fh_len h) (word_of_nat (length xs)) = None"
    by (auto simp: read_frame_data_def io_Panic io_zoom_def no_panic io_Ok split: option.splits)
  then have "length xs \<le> unat (fh_len h)" "length xs < 2 ^ 64"
    using cut_bounded [of n "unat (fh_len h)" n'] reads_bounded [of n' r xs r'] assms by linarith+
  then have "word_of_nat (length xs) \<le> fh_len h"
    by (simp only: word_le_nat_alt unat_of_nat_u64)
  with sub show False by (simp add: checked_sub_def)
qed

lemma read_payload_Ok:
  assumes "read_payload E h n s = Some (Ok data, s')"
  shows "length data = n" and "\<exists>r'. s' = s\<lparr>rd_stream := r'\<rparr>"
  using assms read_frame_data_Ok
  by (fastforce simp: read_payload_def reader_read_frame_data_def on_stream_header_def io_zoom_def
      map_ok_Ok_iff)+

lemma read_payload_no_panic: "n < 2 ^ 64 \<Longrightarrow> read_payload E h n s \<noteq> Some (Panic, s')"
  using read_frame_data_no_panic
  by (fastforce simp: read_payload_def reader_read_frame_data_def on_stream_header_def io_zoom_def
      map_ok_Panic_iff)

text \<open>The message a data frame joins.\<close>

definition joins :: "FrameHeader \<Rightarrow> 'r ws_reader \<Rightarrow> bool" where
  "joins h s \<longleftrightarrow> (case rd_current_message s of Some m \<Rightarrow> m | None \<Rightarrow> (fh_op h, []))
      \<in> {Op_Text, Op_Binary} \<times> {buf. length buf \<le> sh_max_message_length (rd_data s)}"

lemma joins_after_header:
  assumes "reader_inv s" and "valid_header (rd_expect_continuation s) c h" and "\<not> is_control (fh_op h)"
  shows "joins h (after_header h (s\<lparr>rd_stream := r\<rparr>))"
  using assms
  by (cases "fh_op h"; cases "rd_current_message s")
    (auto simp: reader_inv_def valid_header_def joins_def)

lemma read_data_Ok:
  assumes "read_data E h s = Some (Ok f, s')" and "joins h s"
  shows "\<exists>r'. s' = s\<lparr>rd_stream := r', rd_current_message := rd_current_message s'\<rparr>"
    and "f = None \<longleftrightarrow> \<not> fh_fin h"
    and "rd_current_message s' = None \<longleftrightarrow> fh_fin h"
    and "\<And>op buf. rd_current_message s' = Some (op, buf) \<Longrightarrow>
      op \<in> {Op_Text, Op_Binary} \<and> length buf \<le> sh_max_message_length (rd_data s)"
    and "\<And>fr. f = Some fr \<Longrightarrow> frame_ok (sh_max_message_length (rd_data s)) fr"
proof -
  obtain op buf where m: "(case rd_current_message s of Some m \<Rightarrow> m | None \<Rightarrow> (fh_op h, [])) = (op, buf)"
    by fastforce
  let ?n = "unat (fh_len h)" and ?max = "sh_max_message_length (rd_data s)"
  let ?s1 = "s\<lparr>rd_current_message := Some (op, buf @ replicate ?n 0)\<rparr>"
  from assms(1) m obtain data s2 where fits: "length buf + ?n \<le> ?max"
    and pl: "read_payload E h ?n ?s1 = Some (Ok data, s2)"
    and rest: "finish_message h op (buf @ unmask E h data) s2 = Some (Ok f, s')"
    by (auto simp: read_data_def io_Ok nat_checked_sub_def ok_or_def Let_def
        split: option.splits if_splits)
  from read_payload_Ok [OF pl] obtain r' where len: "length data = ?n" and s2: "s2 = ?s1\<lparr>rd_stream := r'\<rparr>"
    by auto
  have op: "op \<in> {Op_Text, Op_Binary}" using assms(2) m by (auto simp: joins_def)
  let ?msg = "buf @ unmask E h data"
  have "length ?msg \<le> ?max" using len fits by simp
  moreover have "if fh_fin h then s' = s2\<lparr>rd_current_message := None\<rparr> \<and> f = Some (message_frame op ?msg)
        \<and> (op = Op_Text \<longrightarrow> utf8_valid ?msg)
      else s' = s2\<lparr>rd_current_message := Some (op, ?msg)\<rparr> \<and> f = None"
    using rest op
    by (auto simp: finish_message_def io_Ok message_frame_def split: if_splits)
  ultimately show "\<exists>r'. s' = s\<lparr>rd_stream := r', rd_current_message := rd_current_message s'\<rparr>"
    and "f = None \<longleftrightarrow> \<not> fh_fin h"
    and "rd_current_message s' = None \<longleftrightarrow> fh_fin h"
    and "\<And>op buf. rd_current_message s' = Some (op, buf) \<Longrightarrow>
      op \<in> {Op_Text, Op_Binary} \<and> length buf \<le> sh_max_message_length (rd_data s)"
    and "\<And>fr. f = Some fr \<Longrightarrow> frame_ok (sh_max_message_length (rd_data s)) fr"
    using s2 op by (auto simp: message_frame_def split: if_splits)
qed

lemma read_data_no_panic:
  assumes "joins h s" and "sh_max_message_length (rd_data s) \<le> u64_max"
  shows "read_data E h s \<noteq> Some (Panic, s')"
proof
  assume panic: "read_data E h s = Some (Panic, s')"
  obtain op buf where m: "(case rd_current_message s of Some m \<Rightarrow> m | None \<Rightarrow> (fh_op h, [])) = (op, buf)"
    by fastforce
  have "op \<in> {Op_Text, Op_Binary}" using assms(1) m by (auto simp: joins_def)
  moreover have "unat (fh_len h) < 2 ^ 64" using unsigned_less [of "fh_len h"] by simp
  ultimately show False
    using panic m assms(2) read_payload_no_panic [of "unat (fh_len h)"]
    by (auto simp: read_data_def finish_message_def io_Panic io_Ok nat_checked_sub_def ok_or_def
        split: option.splits if_splits)
qed

text \<open>Control frames fit the 125-byte array, so no slice of it is out of bounds.\<close>

lemma control_of_payload:
  assumes "length data \<le> CONTROL_MAX_LENGTH"
  shows "control_data (control_store (unmask E h data) (ControlFrame_new\<lparr>cf_length := length data\<rparr>))
      = Ok (unmask E h data)"
    and "wf_control (control_store (unmask E h data) (ControlFrame_new\<lparr>cf_length := length data\<rparr>))"
  using control_store_data [of "unmask E h data"] assms by simp_all

lemma read_control_Ok:
  assumes "read_control E h s = Some (Ok f, s')" and "unat (fh_len h) \<le> CONTROL_MAX_LENGTH"
  shows "\<exists>r'. s' = s\<lparr>rd_stream := r'\<rparr>" and "\<exists>fr. f = Some fr \<and> frame_ok max_len fr"
proof -
  let ?n = "unat (fh_len h)"
  from assms(1) obtain data s1 where pl: "read_payload E h ?n s = Some (Ok data, s1)"
    by (auto simp: read_control_def io_Ok)
  from read_payload_Ok [OF pl] obtain r1 where len: "length data = ?n" and s1: "s1 = s\<lparr>rd_stream := r1\<rparr>"
    by auto
  let ?c = "control_store (unmask E h data) (ControlFrame_new\<lparr>cf_length := ?n\<rparr>)"
  have c: "control_data ?c = Ok (unmask E h data)" "wf_control ?c"
    using control_of_payload [of data h] len assms(2) by simp_all
  have off: "wf_control (?c\<lparr>cf_offset := 2\<rparr>)" if "2 \<le> length data"
    using c(2) that len by (simp add: wf_control_def control_store_def)
  have "(\<exists>r'. s' = s\<lparr>rd_stream := r'\<rparr>) \<and> (\<exists>fr. f = Some fr \<and> frame_ok max_len fr)"
    using assms(1) pl s1 c off
    by (cases "fh_op h")
      (auto simp: read_control_def Let_def io_simps io_Ok on_stream_def split: if_splits)
  then show "\<exists>r'. s' = s\<lparr>rd_stream := r'\<rparr>" "\<exists>fr. f = Some fr \<and> frame_ok max_len fr"
    by blast+
qed

lemma read_control_no_panic:
  assumes "is_control (fh_op h)" and "unat (fh_len h) \<le> CONTROL_MAX_LENGTH"
  shows "read_control E h s \<noteq> Some (Panic, s')"
proof
  let ?n = "unat (fh_len h)"
  assume panic: "read_control E h s = Some (Panic, s')"
  have "?n < 2 ^ 64" using assms(2) by (simp add: CONTROL_MAX_LENGTH_def)
  from read_payload_no_panic [OF this] panic obtain data s1 where
    pl: "read_payload E h ?n s = Some (Ok data, s1)"
    by (auto simp: read_control_def io_Panic)
  then have "length data = ?n" by (rule read_payload_Ok)
  then have "control_data (control_store (unmask E h data) (ControlFrame_new\<lparr>cf_length := ?n\<rparr>))
      = Ok (unmask E h data)"
    using control_of_payload [of data h] assms(2) by simp
  with panic pl assms(1) no_panic show False
    by (cases "fh_op h")
      (auto simp: read_control_def Let_def io_simps io_Panic on_stream_def io_zoom_def split: if_splits)
qed

section \<open>The invariant\<close>

lemma read_frame_inv:
  assumes "read_frame E s = Some (Ok f, s')" and "reader_inv s"
  shows "reader_inv s'" and "f = Some fr \<Longrightarrow> frame_ok (sh_max_message_length (rd_data s)) fr"
    and "sh_max_message_length (rd_data s') = sh_max_message_length (rd_data s)"
proof -
  let ?max = "sh_max_message_length (rd_data s)"
  have "reader_inv s' \<and> (\<forall>fr. f = Some fr \<longrightarrow> frame_ok ?max fr)
      \<and> sh_max_message_length (rd_data s') = ?max"
  proof (cases "\<exists>h s1. read_frame_header E s = Some (Ok (Some h), s1)")
    case False
    with assms show ?thesis
      by (auto simp: read_frame_def io_Ok read_frame_header_def rd_shutdown_eq on_stream_def
          reader_inv_def wf_ControlFrame_new split: option.splits if_splits)
  next
    case True
    then obtain h s1 where hdr: "read_frame_header E s = Some (Ok (Some h), s1)" by blast
    from read_frame_header_Some [OF hdr] obtain r1 where
      v: "valid_header (rd_expect_continuation s) (sh_is_client (rd_data s)) h"
      and s1: "s1 = after_header h (s\<lparr>rd_stream := r1\<rparr>)" by blast
    show ?thesis
    proof (cases "is_control (fh_op h)")
      case True
      with assms(1) hdr have ctl: "read_control E h s1 = Some (Ok f, s')"
        by (auto simp: read_frame_def io_simps io_Ok split: if_splits)
      have "unat (fh_len h) \<le> CONTROL_MAX_LENGTH"
        using v True by (simp add: valid_header_def CONTROL_MAX_LENGTH_def word_le_nat_alt)
      note c = read_control_Ok [OF ctl this]
      then show ?thesis
        using c(2) [of ?max] s1 assms(2) True by (auto simp: reader_inv_def after_header_def)
    next
      case False
      with assms(1) hdr have dat: "read_data E h s1 = Some (Ok f, s')"
        by (auto simp: read_frame_def io_simps io_Ok split: if_splits)
      have "joins h s1" using joins_after_header [OF assms(2) v False] s1 by simp
      note d = read_data_Ok [OF dat this]
      from d(1) s1 have "rd_data s' = rd_data s1" "rd_expect_continuation s' = rd_expect_continuation s1"
        by (metis ws_reader.surjective ws_reader.update_convs(1) ws_reader.update_convs(3) ws_reader.select_convs(4)
            ws_reader.select_convs(2))+
      moreover have "rd_expect_continuation s1 \<longleftrightarrow> \<not> fh_fin h" "sh_max_message_length (rd_data s1) = ?max"
        using s1 False by (simp_all add: after_header_def) 
      ultimately show ?thesis
        using d(3-5) by (simp add: reader_inv_def)
    qed
  qed
  then show "reader_inv s'" and "f = Some fr \<Longrightarrow> frame_ok ?max fr"
    and "sh_max_message_length (rd_data s') = ?max" by auto
qed

lemma read_frame_no_panic:
  assumes "reader_inv s" and "sh_max_message_length (rd_data s) \<le> u64_max"
  shows "read_frame E s \<noteq> Some (Panic, s')"
proof
  assume panic: "read_frame E s = Some (Panic, s')"
  then obtain h s1 where hdr: "read_frame_header E s = Some (Ok (Some h), s1)"
    by (auto simp: read_frame_def io_Panic read_frame_header_no_panic split: option.splits)
  from read_frame_header_Some [OF hdr] obtain r1 where
    v: "valid_header (rd_expect_continuation s) (sh_is_client (rd_data s)) h"
    and s1: "s1 = after_header h (s\<lparr>rd_stream := r1\<rparr>)" by blast
  show False
  proof (cases "is_control (fh_op h)")
    case True
    with panic hdr have "read_control E h s1 = Some (Panic, s')"
      by (auto simp: read_frame_def io_simps split: if_splits)
    moreover have "unat (fh_len h) \<le> CONTROL_MAX_LENGTH"
      using v True by (simp add: valid_header_def CONTROL_MAX_LENGTH_def word_le_nat_alt)
    ultimately show False using read_control_no_panic True by blast
  next
    case False
    with panic hdr have "read_data E h s1 = Some (Panic, s')"
      by (auto simp: read_frame_def io_simps split: if_splits)
    moreover have "joins h s1" using joins_after_header [OF assms(1) v False] s1 by simp
    ultimately show False using read_data_no_panic assms(2) s1 by fastforce
  qed
qed

text \<open>The loop of \<open>next_frame\<close> keeps the invariant and never panics.\<close>

lemma next_frame_good: "next_frame E s = Some r \<Longrightarrow> good_result s r"
proof -
  assume ret: "next_frame E s = Some r"
  have "E = E \<longrightarrow> good_result s r"
  proof (rule next_frame.raw_induct [where P = "\<lambda>E' s r. E' = E \<longrightarrow> good_result s r", OF _ ret], rule impI)
    fix nf E' s r
    assume IH: "\<And>E' s r. nf E' s = Some r \<Longrightarrow> E' = E \<longrightarrow> good_result s r"
      and eq: "io_bind (read_frame E') (\<lambda>frame. case frame of Some f \<Rightarrow> io_return f | None \<Rightarrow> nf E') s = Some r"
      and E': "E' = E"
    obtain res1 s1 where rf: "read_frame E s = Some (res1, s1)"
      using eq E' by (cases "read_frame E s") (auto simp: io_bind_def)
    consider (panic) "res1 = Panic" | (err) e where "res1 = Err e"
      | (frame) f where "res1 = Ok (Some f)" | (more) "res1 = Ok None"
      by (metis not_None_eq result.exhaust)
    then show "good_result s r"
    proof cases
      case panic
      with rf read_frame_no_panic show ?thesis by (auto simp: good_result_def)
    next
      case err
      with rf eq E' show ?thesis by (auto simp: good_result_def)
    next
      case frame
      with rf eq E' have "r = (Ok f, s1)" by (simp add: io_simps)
      with rf frame read_frame_inv show ?thesis by (auto simp: good_result_def)
    next
      case more
      with rf eq E' have "nf E s1 = Some r" by simp
      with IH have "good_result s1 r" by blast
      moreover note read_frame_inv [OF rf [unfolded more]]
      ultimately show ?thesis by (auto simp: good_result_def split: result.splits)
    qed
  qed
  then show ?thesis by simp
qed

end

interpretation script_quiet: quiet_env script_env
proof
  fix n r xs r'
  show "br_read_fully script_env n r = Some (Ok xs, r') \<Longrightarrow> length xs \<le> n"
    by (auto simp: script_defs)
next
  fix n limit n' show "br_read_into script_env n limit = Some n' \<Longrightarrow> n' \<le> n \<and> n' \<le> limit"
    by (auto simp: script_defs split: if_splits)
next
  fix data show "align_ok (we_align script_env data) data" by (rule script_ws.align)
next
  fix sh r r'
  show "ws_close (we_conn script_env) sh (io_return ()) r \<noteq> Some (Panic, r')"
    using script_ws.closes [of sh r] by auto
qed (auto simp: script_defs split: if_splits)

section \<open>Properties\<close>

text \<open>C5: From a state in which a continuation is expected exactly when a text or binary message within
  the limit is open, \<open>next_frame\<close> never panics on any stream; a frame it returns is well formed
  (text is UTF-8, control data is inside its array) and no longer than the maximum message
  length, and the state is again such a state.\<close>

theorem next_frame_safe:
  assumes "quiet_env E" and "reader_inv s" and "sh_max_message_length (rd_data s) \<le> u64_max"
    and "next_frame E s = Some (res, s')"
  shows "res \<noteq> Panic \<and> (\<forall>f. res = Ok f \<longrightarrow>
    reader_inv s' \<and> frame_ok (sh_max_message_length (rd_data s)) f)"
  using quiet_env.next_frame_good [OF assms(1,4)] assms(2,3)
  by (cases res) (simp_all add: good_result_def)

theorem next_frame_safe_witness:
  "\<exists>res s'. next_frame script_env (script_reader True [[0x82, 0x01], [9]]) = Some (res, s') \<and> res \<noteq> Panic"
proof -
  let ?s = "script_reader True [[0x82, 0x01], [9]]"
  have "\<exists>r'. next_frame script_env ?s = Some (Ok (message_frame Op_Binary ([] @ concat (map snd [(None :: u32 option, [9])]))),
      ?s\<lparr>rd_stream := r', rd_expect_continuation := False, rd_current_message := None\<rparr>)
    \<and> pending script_env script_incoming r' = []"
    by (rule script_ws.next_frame_fragments [where first = True and op = Op_Binary])
      (simp_all add: script_reader_def can_read_def u64_max_def pending_script wire_frame_def
        header_bytes_def encode_len_def FrameHeader_packet_eq bool_u8_def)
  then obtain res s' where run: "next_frame script_env ?s = Some (res, s')" by blast
  have "reader_inv ?s" "sh_max_message_length (rd_data ?s) \<le> u64_max"
    by (simp_all add: script_reader_def reader_inv_def u64_max_def)
  from next_frame_safe [OF script_quiet.quiet_env_axioms this run] run show ?thesis by blast
qed

end
