(* ===== verification/Ws_Writer.thy ===== *)
theory Ws_Writer
  imports Ws_Frame Ws_Shared Ws_Mask
begin

text \<open>
  The sending half of a WebSocket: \<open>Writer\<close> of \<open>src/src/ws/stream.rs\<close>. The lemmas give the bytes
  a successful \<open>send_frame\<close> writes, its error branches, and the fragmentation state; locale
  \<open>byte_sink\<close> is the contract of a stream that takes every byte.
\<close>

section \<open>State and environment\<close>

record 'w ws_wenv = "'w write_ops" +
  ww_conn :: "'w conn_extra"

record 'w ws_writer =
  wt_stream :: 'w
  wt_last_op :: "Op option"
  wt_data :: shared

definition on_sink :: "('w, 'a) act \<Rightarrow> ('w ws_writer, 'a) act" where
  "on_sink m = io_zoom wt_stream (\<lambda>t s. s\<lparr>wt_stream := t\<rparr>) m"

definition wt_shutdown :: "Shutdown \<Rightarrow> ('w ws_writer, bool) act" where
  "wt_shutdown how s = (let (b, d) = shutdown how (wt_data s) in Some (Ok b, s\<lparr>wt_data := d\<rparr>))"

section \<open>send\_frame\<close>

text \<open>The 16-byte scratch buffer: the header and, for a close frame, the close code.\<close>

definition encode_header :: "FrameHeader \<Rightarrow> u16 \<Rightarrow> bytes res" where
  "encode_header h close_code =
     (case io_bind (FrameHeader_write 16 h) (\<lambda>_.
        if fh_op h = Op_Close then cursor_write_all 16 (to_be_bytes 2 close_code) else io_return ()) [] of
        Some (Ok _, written) \<Rightarrow> Ok written
      | _ \<Rightarrow> Panic)"

text \<open>
  The checks before anything is written: the size of a control frame, or the fragmentation state,
  which also decides the opcode on the wire.
\<close>

definition prepare_header :: "BorrowedFrame \<Rightarrow> ('w ws_writer, FrameHeader) act" where
  "prepare_header frame =
     io_bind (io_get (\<lambda>s. sh_is_client (wt_data s))) (\<lambda>is_client.
     let header = \<lparr>fh_fin = bf_fin frame, fh_op = bf_op frame,
           fh_mask = (if is_client then Some 0 else None),
           fh_len = word_of_nat (length (bf_payload frame))\<rparr> in
     if is_control (fh_op header) then
       let additional = (if fh_op header = Op_Close then 2 else 0) in
       if fh_len header > 0x7d - additional then io_throw (WebSocketE UserInvalidControlFrame)
       else io_return header
     else
       io_bind (io_get wt_last_op) (\<lambda>prev.
       io_bind (case prev of
           Some op \<Rightarrow>
             if op \<noteq> fh_op header then io_throw (WebSocketE DataTypeMismatch)
             else io_return (header\<lparr>fh_op := Op_Continuation\<rparr>)
         | None \<Rightarrow>
             io_bind (io_modify (\<lambda>s. s\<lparr>wt_last_op := Some (fh_op header)\<rparr>)) (\<lambda>_. io_return header)) (\<lambda>header.
       io_bind (if fh_fin header then io_modify (\<lambda>s. s\<lparr>wt_last_op := None\<rparr>) else io_return ()) (\<lambda>_.
       io_return header))))"

definition send_frame :: "('w, 'x) ws_wenv_scheme \<Rightarrow> BorrowedFrame \<Rightarrow> ('w ws_writer, unit) act" where
  "send_frame W frame =
     io_bind (io_get (\<lambda>s. can_write (wt_data s))) (\<lambda>writable.
     if \<not> writable then io_throw (Kind KShutdown)
     else
       io_bind (prepare_header frame) (\<lambda>h.
       io_bind (io_lift (encode_header h (bf_close_code frame))) (\<lambda>header.
       let data = [header, bf_payload frame] in
       io_bind (if bf_op frame = Op_Close then wt_shutdown ShutWrite else io_return False) (\<lambda>both.
       if both then
         io_bind (io_get wt_data) (\<lambda>sh.
         on_sink (ws_close (ww_conn W) sh
           (io_bind (wr_write_all_vectored W data) (\<lambda>_. wr_flush W))))
       else
         io_bind (on_sink (wr_write_all_vectored W data)) (\<lambda>wrote.
         if wrote < length header + length (bf_payload frame) then io_throw (Kind KUnexpectedEof)
         else if bf_op frame = Op_Close then on_sink (wr_flush W)
         else io_return ())))))"

section \<open>Headers always fit the scratch buffer\<close>

definition close_code_bytes :: "Op \<Rightarrow> u16 \<Rightarrow> bytes" where
  "close_code_bytes op code = (if op = Op_Close then to_be_bytes 2 code else [])"

lemma encode_header_Ok: "encode_header h code = Ok (header_bytes h @ close_code_bytes (fh_op h) code)"
proof -
  have "FrameHeader_write 16 h [] = Some (Ok (), header_bytes h)"
    using FrameHeader_write_Ok [of "[]" h 16] length_header_bytes_le [of h] by simp
  then show ?thesis
    using length_header_bytes_le [of h]
    by (simp add: encode_header_def close_code_bytes_def cursor_write_all_def io_return_def)
qed

text \<open>The header a frame gets in a given fragmentation state.\<close>

definition sent_header :: "bool \<Rightarrow> Op option \<Rightarrow> BorrowedFrame \<Rightarrow> FrameHeader" where
  "sent_header is_client prev frame =
     \<lparr>fh_fin = bf_fin frame,
      fh_op = (if is_control (bf_op frame) \<or> prev = None then bf_op frame else Op_Continuation),
      fh_mask = (if is_client then Some 0 else None),
      fh_len = word_of_nat (length (bf_payload frame))\<rparr>"

definition next_last_op :: "Op option \<Rightarrow> BorrowedFrame \<Rightarrow> Op option" where
  "next_last_op prev frame =
     (if is_control (bf_op frame) then prev else if bf_fin frame then None else Some (bf_op frame))"

text \<open>A frame the writer accepts.\<close>

definition sendable :: "Op option \<Rightarrow> BorrowedFrame \<Rightarrow> bool" where
  "sendable prev frame \<longleftrightarrow>
     (if is_control (bf_op frame)
      then word_of_nat (length (bf_payload frame)) \<le> (if bf_op frame = Op_Close then 0x7b else 0x7d :: u64)
      else prev = None \<or> prev = Some (bf_op frame))"

lemma prepare_header_eq:
  "prepare_header frame s =
     (if sendable (wt_last_op s) frame
      then Some (Ok (sent_header (sh_is_client (wt_data s)) (wt_last_op s) frame),
             s\<lparr>wt_last_op := next_last_op (wt_last_op s) frame\<rparr>)
      else Some (Err (WebSocketE (if is_control (bf_op frame) then UserInvalidControlFrame else DataTypeMismatch)), s))"
  by (cases "wt_last_op s")
    (auto simp: prepare_header_def sendable_def sent_header_def next_last_op_def io_simps Let_def not_le)

section \<open>A stream that takes every byte\<close>

text \<open>
  \<open>sent\<close> is what was written so far. A write appends all buffers and returns their length; a
  close whose own writes succeed adds nothing to them.
\<close>

locale byte_sink =
  fixes W :: "('w, 'x) ws_wenv_scheme" and sent :: "'w \<Rightarrow> bytes"
  assumes write_all: "\<exists>w'. wr_write_all_vectored W bufs w = Some (Ok (length (concat bufs)), w')
        \<and> sent w' = sent w @ concat bufs"
    and flush: "\<exists>w'. wr_flush W w = Some (Ok (), w') \<and> sent w' = sent w"
    and close: "m w = Some (Ok (), w1) \<Longrightarrow>
        \<exists>w'. ws_close (ww_conn W) sh m w = Some (Ok (), w') \<and> sent w' = sent w1"

text \<open>The bytes of a frame, in the fragmentation state before it.\<close>

definition frame_wire :: "bool \<Rightarrow> Op option \<Rightarrow> BorrowedFrame \<Rightarrow> bytes" where
  "frame_wire is_client prev frame =
     header_bytes (sent_header is_client prev frame)
       @ close_code_bytes (bf_op frame) (bf_close_code frame) @ bf_payload frame"

definition after_send :: "BorrowedFrame \<Rightarrow> 'w ws_writer \<Rightarrow> 'w ws_writer" where
  "after_send frame s = s\<lparr>wt_last_op := next_last_op (wt_last_op s) frame,
     wt_data := (if bf_op frame = Op_Close then snd (shutdown ShutWrite (wt_data s)) else wt_data s)\<rparr>"

lemma after_send_simps [simp]:
  "wt_stream (after_send frame s) = wt_stream s"
  "wt_last_op (after_send frame s) = next_last_op (wt_last_op s) frame"
  "sh_is_client (wt_data (after_send frame s)) = sh_is_client (wt_data s)"
  "bf_op frame \<noteq> Op_Close \<Longrightarrow> wt_data (after_send frame s) = wt_data s"
  by (simp_all add: after_send_def)

lemma sent_header_op: "fh_op (sent_header c prev frame) = Op_Close \<longleftrightarrow> bf_op frame = Op_Close"
  by (auto simp: sent_header_def)

lemma wt_shutdown_eq: "wt_shutdown how s = Some (Ok (fst (shutdown how (wt_data s))),
    s\<lparr>wt_data := snd (shutdown how (wt_data s))\<rparr>)"
  by (simp add: wt_shutdown_def split: prod.split)

lemma send_frame_refused:
  "\<not> can_write (wt_data s) \<Longrightarrow> send_frame W frame s = Some (Err (Kind KShutdown), s)"
  "can_write (wt_data s) \<Longrightarrow> \<not> sendable (wt_last_op s) frame \<Longrightarrow> send_frame W frame s =
     Some (Err (WebSocketE (if is_control (bf_op frame) then UserInvalidControlFrame else DataTypeMismatch)), s)"
  by (simp_all add: send_frame_def io_simps prepare_header_eq)

context byte_sink
begin

lemma send_frame_sent:
  assumes "can_write (wt_data s)" and "sendable (wt_last_op s) frame"
  shows "\<exists>w'. send_frame W frame s = Some (Ok (), after_send frame (s\<lparr>wt_stream := w'\<rparr>))
    \<and> sent w' = sent (wt_stream s) @ frame_wire (sh_is_client (wt_data s)) (wt_last_op s) frame"
proof -
  let ?h = "sent_header (sh_is_client (wt_data s)) (wt_last_op s) frame"
  let ?hdr = "header_bytes ?h @ close_code_bytes (bf_op frame) (bf_close_code frame)"
  let ?data = "[?hdr, bf_payload frame]"
  have hdr: "encode_header ?h (bf_close_code frame) = Ok ?hdr"
    by (simp add: encode_header_Ok close_code_bytes_def sent_header_op)
  obtain w1 where w1: "wr_write_all_vectored W ?data (wt_stream s) = Some (Ok (length (concat ?data)), w1)"
      "sent w1 = sent (wt_stream s) @ concat ?data"
    using write_all [of ?data "wt_stream s"] by blast
  obtain w2 where w2: "wr_flush W w1 = Some (Ok (), w2)" "sent w2 = sent w1"
    using flush [of w1] by blast
  let ?m = "io_bind (wr_write_all_vectored W ?data) (\<lambda>_. wr_flush W)"
  have "?m (wt_stream s) = Some (Ok (), w2)" using w1 w2 by simp
  from close [of ?m, OF this] obtain w3 where
    w3: "ws_close (ww_conn W) (snd (shutdown ShutWrite (wt_data s))) ?m (wt_stream s) = Some (Ok (), w3)"
      "sent w3 = sent w2" by blast
  have sent: "sent (wt_stream s) @ concat ?data
      = sent (wt_stream s) @ frame_wire (sh_is_client (wt_data s)) (wt_last_op s) frame"
    by (simp add: frame_wire_def)
  consider (data) "bf_op frame \<noteq> Op_Close"
    | (half) "bf_op frame = Op_Close" "\<not> fst (shutdown ShutWrite (wt_data s))"
    | (both) "bf_op frame = Op_Close" "fst (shutdown ShutWrite (wt_data s))" by blast
  then show ?thesis
  proof cases
    case data
    with assms hdr w1 sent show ?thesis
      by (auto simp: send_frame_def prepare_header_eq io_simps on_sink_def after_send_def Let_def
          intro!: exI [of _ w1])
  next
    case half
    with assms hdr w1 w2 sent show ?thesis
      by (auto simp: send_frame_def prepare_header_eq io_simps on_sink_def after_send_def Let_def wt_shutdown_eq
          intro!: exI [of _ w2])
  next
    case both
    with assms hdr w1 w2 w3 sent show ?thesis
      by (auto simp: send_frame_def prepare_header_eq io_simps on_sink_def after_send_def Let_def wt_shutdown_eq
          intro!: exI [of _ w3])
  qed
qed

end

section \<open>Sequences of frames\<close>

fun send_frames :: "('w, 'x) ws_wenv_scheme \<Rightarrow> BorrowedFrame list \<Rightarrow> ('w ws_writer, unit) act" where
  "send_frames W [] = io_return ()"
| "send_frames W (f # fs) = io_bind (send_frame W f) (\<lambda>_. send_frames W fs)"

fun frames_wire :: "bool \<Rightarrow> Op option \<Rightarrow> BorrowedFrame list \<Rightarrow> bytes" where
  "frames_wire c prev [] = []"
| "frames_wire c prev (f # fs) = frame_wire c prev f @ frames_wire c (next_last_op prev f) fs"

fun sendable_all :: "Op option \<Rightarrow> BorrowedFrame list \<Rightarrow> bool" where
  "sendable_all prev [] = True"
| "sendable_all prev (f # fs) \<longleftrightarrow> sendable prev f \<and> bf_op f \<noteq> Op_Close \<and> sendable_all (next_last_op prev f) fs"

context byte_sink
begin

lemma send_frames_sent:
  assumes "can_write (wt_data s)" and "sendable_all (wt_last_op s) fs"
  shows "\<exists>s'. send_frames W fs s = Some (Ok (), s') \<and> wt_data s' = wt_data s
    \<and> sent (wt_stream s') = sent (wt_stream s) @ frames_wire (sh_is_client (wt_data s)) (wt_last_op s) fs"
  using assms
proof (induction fs arbitrary: s)
  case (Cons f fs)
  then have "sendable (wt_last_op s) f" by simp
  from send_frame_sent [OF Cons.prems(1) this] obtain w' where
    w': "send_frame W f s = Some (Ok (), after_send f (s\<lparr>wt_stream := w'\<rparr>))"
      "sent w' = sent (wt_stream s) @ frame_wire (sh_is_client (wt_data s)) (wt_last_op s) f" by blast
  moreover have "wt_data (after_send f (s\<lparr>wt_stream := w'\<rparr>)) = wt_data s" using Cons.prems by simp
  ultimately show ?case
    using Cons.IH [of "after_send f (s\<lparr>wt_stream := w'\<rparr>)"] Cons.prems by fastforce
qed (auto simp: io_return_def)

end

section \<open>A recording stream\<close>

definition sink_conn :: "bytes conn_extra" where
  "sink_conn = \<lparr>ce_poll = (\<lambda>flags. io_return flags), ce_shutdown = (\<lambda>how. io_return ()),
     ce_timeout = (\<lambda>d m s. map_option (\<lambda>(r, s'). (Some r, s')) (m s))\<rparr>"

definition sink_ops :: "bytes ws_wenv" where
  "sink_ops = \<lparr>wr_write_all_vectored = (\<lambda>bufs out. Some (Ok (length (concat bufs)), out @ concat bufs)),
     wr_flush = io_return (), ww_conn = sink_conn\<rparr>"

lemmas sink_defs = sink_ops_def sink_conn_def

interpretation sink: byte_sink sink_ops "\<lambda>out. out"
  by unfold_locales
    (auto simp: sink_defs io_simps ws_close_def do_close_def io_bind_def)

end
