(* ===== verification/Ws_Conn.thy ===== *)
theory Ws_Conn
  imports Ws_Reader_Inv Ws_Writer
begin

text \<open>
  The connection object \<open>WebSocket\<close> of \<open>src/src/ws/conn.rs\<close>, its borrowed reader and writer, and the
  two halves of \<open>split\<close> running concurrently.
\<close>

section \<open>WebSocket\<close>

record 's WebSocket =
  ws_stream :: 's
  ws_last_sent_message_op :: "Op option"
  ws_current_message :: "(Op \<times> bytes) option"
  ws_expect_continuation :: bool
  ws_data :: shared

definition WebSocket_from :: "'s \<Rightarrow> WebSocketOptions \<Rightarrow> bool \<Rightarrow> 's WebSocket" where
  "WebSocket_from stream options is_client =
     \<lparr>ws_stream = stream, ws_last_sent_message_op = None, ws_current_message = None,
      ws_expect_continuation = False, ws_data = Shared_new options is_client\<rparr>"

definition WebSocket_server :: "'s \<Rightarrow> WebSocketOptions \<Rightarrow> 's WebSocket" where
  "WebSocket_server stream options = WebSocket_from stream options False"

definition set_max_message_length :: "nat \<Rightarrow> 's WebSocket \<Rightarrow> 's WebSocket" where
  "set_max_message_length n s = s\<lparr>ws_data := (ws_data s)\<lparr>sh_max_message_length := n\<rparr>\<rparr>"

definition set_close_timeout :: "nat \<Rightarrow> 's WebSocket \<Rightarrow> 's WebSocket" where
  "set_close_timeout d s = s\<lparr>ws_data := (ws_data s)\<lparr>sh_close_timeout := d\<rparr>\<rparr>"

definition ws_can_read :: "'s WebSocket \<Rightarrow> bool" where
  "ws_can_read s = can_read (ws_data s)"

definition ws_can_write :: "'s WebSocket \<Rightarrow> bool" where
  "ws_can_write s = can_write (ws_data s)"

text \<open>
  \<open>reader()\<close> and \<open>writer()\<close> borrow fields of the socket: what the borrowed half changes is
  changed in the socket.
\<close>

definition ws_reader_of :: "'s WebSocket \<Rightarrow> 's ws_reader" where
  "ws_reader_of s = \<lparr>rd_stream = ws_stream s, rd_expect_continuation = ws_expect_continuation s,
     rd_current_message = ws_current_message s, rd_data = ws_data s\<rparr>"

definition ws_put_reader :: "'s ws_reader \<Rightarrow> 's WebSocket \<Rightarrow> 's WebSocket" where
  "ws_put_reader r s = s\<lparr>ws_stream := rd_stream r, ws_expect_continuation := rd_expect_continuation r,
     ws_current_message := rd_current_message r, ws_data := rd_data r\<rparr>"

definition ws_writer_of :: "'s WebSocket \<Rightarrow> 's ws_writer" where
  "ws_writer_of s = \<lparr>wt_stream = ws_stream s, wt_last_op = ws_last_sent_message_op s, wt_data = ws_data s\<rparr>"

definition ws_put_writer :: "'s ws_writer \<Rightarrow> 's WebSocket \<Rightarrow> 's WebSocket" where
  "ws_put_writer w s = s\<lparr>ws_stream := wt_stream w, ws_last_sent_message_op := wt_last_op w,
     ws_data := wt_data w\<rparr>"

definition with_reader :: "('s ws_reader, 'a) act \<Rightarrow> ('s WebSocket, 'a) act" where
  "with_reader m = io_zoom ws_reader_of ws_put_reader m"

definition with_writer :: "('s ws_writer, 'a) act \<Rightarrow> ('s WebSocket, 'a) act" where
  "with_writer m = io_zoom ws_writer_of ws_put_writer m"

definition ws_frames_next ::
  "('s, 'x) ws_env_scheme \<Rightarrow> 's WebSocket \<Rightarrow> (Frame res option \<times> 's WebSocket) option" where
  "ws_frames_next E s =
     map_option (\<lambda>(item, r). (item, ws_put_reader r s)) (frames_next E (ws_reader_of s))"

definition ws_send_frame :: "('s, 'x) ws_wenv_scheme \<Rightarrow> BorrowedFrame \<Rightarrow> ('s WebSocket, unit) act" where
  "ws_send_frame W frame = with_writer (send_frame W frame)"

text \<open>
  \<open>split\<close> splits the stream and lends each half the fields it works on; \<open>Shared\<close> is borrowed by both, so that from
  then on the shutdowns of either half are seen by the other.
\<close>

definition ws_split :: "('s \<Rightarrow> 'r \<times> 'v) \<Rightarrow> 's WebSocket \<Rightarrow> 'r ws_reader \<times> 'v ws_writer" where
  "ws_split split_stream s =
     (let (reader, writer) = split_stream (ws_stream s)
      in (\<lparr>rd_stream = reader, rd_expect_continuation = ws_expect_continuation s,
           rd_current_message = ws_current_message s, rd_data = ws_data s\<rparr>,
          \<lparr>wt_stream = writer, wt_last_op = ws_last_sent_message_op s, wt_data = ws_data s\<rparr>))"

lemma new_socket_reader_inv: "reader_inv (ws_reader_of (WebSocket_from stream options is_client))"
  by (simp add: reader_inv_def ws_reader_of_def WebSocket_from_def)

section \<open>From the writer to the reader\<close>

text \<open>
  The fragmentation states of the two ends agree: the peer expects a continuation exactly when the
  writer has a message open, and accepts every header the writer produces.
\<close>

definition user_frame :: "BorrowedFrame \<Rightarrow> bool" where
  "user_frame f \<longleftrightarrow> bf_op f \<in> {Op_Text, Op_Binary, Op_Close, Op_Ping, Op_Pong}
     \<and> (is_control (bf_op f) \<longrightarrow> bf_fin f)"

lemma user_frames:
  "user_frame (frame_text p)" "user_frame (frame_binary p)" "user_frame (frame_text_partial p)"
  "user_frame (frame_binary_partial p)" "user_frame (frame_ping p)" "user_frame (frame_pong p)"
  "user_frame (frame_close code p)"
  by (simp_all add: user_frame_def frame_defs)

lemma sent_header_valid:
  assumes "user_frame f" and "sendable prev f"
  shows "valid_header (prev \<noteq> None) (\<not> is_client) (sent_header is_client prev f)"
  using assms
  by (auto simp: valid_header_def sent_header_def user_frame_def sendable_def
      intro: order_trans split: if_splits)

lemma sent_header_fin:
  "is_control (bf_op f) \<longleftrightarrow> is_control (fh_op (sent_header is_client prev f))"
  "\<not> is_control (bf_op f) \<Longrightarrow> next_last_op prev f \<noteq> None \<longleftrightarrow> \<not> fh_fin (sent_header is_client prev f)"
  by (auto simp: sent_header_def next_last_op_def)

text \<open>A fragmented message as the peer sees it.\<close>

definition fragments :: "Op \<Rightarrow> bytes list \<Rightarrow> BorrowedFrame list" where
  "fragments op ps = map (\<lambda>p. \<lparr>bf_op = op, bf_close_code = 0, bf_payload = p, bf_fin = False\<rparr>) (butlast ps)
     @ [\<lparr>bf_op = op, bf_close_code = 0, bf_payload = last ps, bf_fin = True\<rparr>]"

lemma fragments_single: "fragments op [p] = [\<lparr>bf_op = op, bf_close_code = 0, bf_payload = p, bf_fin = True\<rparr>]"
  by (simp add: fragments_def)

lemma fragments_Cons:
  "ps \<noteq> [] \<Longrightarrow> fragments op (p # ps) =
     \<lparr>bf_op = op, bf_close_code = 0, bf_payload = p, bf_fin = False\<rparr> # fragments op ps"
  by (simp add: fragments_def)

lemma frames_wire_fragments:
  assumes "ps \<noteq> []" and "op \<in> {Op_Text, Op_Binary}" and "prev = None \<or> prev = Some op"
  shows "frames_wire c prev (fragments op ps) =
      message_wire (if prev = None then op else Op_Continuation)
        (map (\<lambda>p. (if c then Some 0 else None, p)) ps)"
    and "sendable_all prev (fragments op ps)"
  using assms
proof (induction ps arbitrary: prev)
  case (Cons p ps)
  { case 1
    with Cons.IH(1) [of "Some op"] show ?case
      by (cases "ps = []")
        (auto simp: fragments_single fragments_Cons frame_wire_def wire_frame_def sent_header_def
          close_code_bytes_def next_last_op_def mask_spec_zero)
  next
    case 2
    with Cons.IH(2) [of "Some op"] show ?case
      by (cases "ps = []")
        (auto simp: fragments_single fragments_Cons sendable_def next_last_op_def)
  }
qed simp_all

text \<open>A close frame on the wire: the length field leaves the close code out.\<close>

lemma close_frame_wire:
  "frame_wire c prev (frame_close code p) =
      wire_frame (sent_header c prev (frame_close code p)) (take (length p) (to_be_bytes 2 code @ p))
        @ drop (length p) (to_be_bytes 2 code @ p)"
proof -
  let ?body = "to_be_bytes 2 code @ p" and ?h = "sent_header c prev (frame_close code p)"
  have "frame_wire c prev (frame_close code p) = header_bytes ?h @ ?body"
    by (simp add: frame_wire_def frame_close_def close_code_bytes_def)
  also have "?body = take (length p) ?body @ drop (length p) ?body"
    by (simp only: append_take_drop_id)
  finally show ?thesis
    by (simp add: wire_frame_def sent_header_def mask_spec_zero del: take_append drop_append)
qed

section \<open>Properties\<close>

text \<open>The sending half refines the receiving half's grammar: the header of every frame the writer
  accepts is accepted by the peer's reader, if the peer expects a continuation exactly when the
  writer has a message open, and this agreement holds again after the frame.\<close>

theorem writer_headers_accepted:
  assumes "user_frame f" and "sendable prev f"
  shows "valid_header (prev \<noteq> None) (\<not> is_client) (sent_header is_client prev f)
    \<and> (next_last_op prev f \<noteq> None \<longleftrightarrow>
        (if is_control (fh_op (sent_header is_client prev f)) then prev \<noteq> None
         else \<not> fh_fin (sent_header is_client prev f)))"
  using sent_header_valid [OF assms] sent_header_fin [where f = f and is_client = is_client and prev = prev]
  by (auto simp: next_last_op_def)

theorem writer_headers_accepted_witness:
  "valid_header True True (sent_header False (Some Op_Text) (frame_text [65]))"
proof -
  have "sendable (Some Op_Text) (frame_text [65])" by (simp add: sendable_def frame_text_def)
  from writer_headers_accepted [OF user_frames(1) this, of False] show ?thesis by simp
qed

text \<open>C1: A message sent in any number of fragments arrives whole: the frames are accepted, and a reader
  at the other end whose stream delivers the written bytes gets the text or binary message with
  the concatenated payload, in the state of a fresh reader, with the following bytes unread.\<close>

theorem message_end_to_end:
  assumes snk: "byte_sink W sent" and src: "ws_source E incoming"
    and w: "can_write (wt_data w)" "wt_last_op w = None" "sent (wt_stream w) = []"
    and r: "can_read (rd_data r)" "\<not> rd_expect_continuation r" "rd_current_message r = None"
    and peers: "sh_is_client (rd_data r) \<longleftrightarrow> \<not> sh_is_client (wt_data w)"
    and msg: "ps \<noteq> []" "op \<in> {Op_Text, Op_Binary}" "op = Op_Text \<longrightarrow> utf8_valid (concat ps)"
    and fits: "length (concat ps) \<le> sh_max_message_length (rd_data r)"
      "sh_max_message_length (rd_data r) \<le> u64_max"
    and sends: "send_frames W (fragments op ps) w = Some (res, w')"
    and wire: "pending E incoming (rd_stream r) = sent (wt_stream w') @ rest"
  shows "res = Ok () \<and> (\<exists>r'. next_frame E r = Some (Ok (message_frame op (concat ps)), r')
    \<and> pending E incoming (rd_stream r') = rest
    \<and> \<not> rd_expect_continuation r' \<and> rd_current_message r' = None)"
proof -
  let ?c = "sh_is_client (wt_data w)"
  let ?mps = "map (\<lambda>p. (if ?c then Some 0 else None, p)) ps"
  note fw = frames_wire_fragments(1) [where prev = None and c = ?c, OF msg(1,2), simplified]
    frames_wire_fragments(2) [where prev = None, OF msg(1,2), simplified]
  from byte_sink.send_frames_sent [OF snk w(1), of "fragments op ps"] w fw sends
  have sent: "res = Ok ()" "sent (wt_stream w') = message_wire op ?mps" by auto
  have payloads: "concat (map snd ?mps) = concat ps" by (simp only: map_map comp_def snd_conv map_ident)
  have unmasked: "sh_is_client (rd_data r) \<longrightarrow> (\<forall>(m, p)\<in>set ?mps. m = None)" using peers by auto
  from ws_source.next_frame_fragments [OF src, where first = True and op = op and ps = ?mps
        and ?op0.0 = op and buf = "[]" and s = r and rest = rest] r msg fits wire sent unmasked
  have "\<exists>r'. next_frame E r = Some (Ok (message_frame op (concat ps)),
      r\<lparr>rd_stream := r', rd_expect_continuation := False, rd_current_message := None\<rparr>)
    \<and> pending E incoming r' = rest"
    by (simp only: payloads append_Nil simp_thms if_True list.size add_0 map_is_Nil_conv) blast
  with sent show ?thesis by auto
qed

definition sink_writer :: "bool \<Rightarrow> bytes ws_writer" where
  "sink_writer is_client = \<lparr>wt_stream = [], wt_last_op = None,
     wt_data = Shared_new WebSocketOptions_new is_client\<rparr>"

theorem message_end_to_end_witness:
  "\<exists>r'. next_frame script_env (script_reader False [[0x01, 0x82, 0, 0], [0, 0, 72, 105, 0x80], [0x81, 0, 0, 0, 0, 33]])
    = Some (Ok (F_Text [72, 105, 33]), r')"
proof -
  let ?w = "sink_writer True"
  let ?r = "script_reader False [[0x01, 0x82, 0, 0], [0, 0, 72, 105, 0x80], [0x81, 0, 0, 0, 0, 33]]"
  have cw: "can_write (wt_data ?w)" by (simp add: sink_writer_def Shared_new_def can_write_def)
  obtain w' where w': "send_frames sink_ops (fragments Op_Text [[72, 105], [33]]) ?w = Some (Ok (), w')"
      "wt_stream w' = [0x01, 0x82, 0, 0, 0, 0, 72, 105, 0x80, 0x81, 0, 0, 0, 0, 33]"
    using sink.send_frames_sent [OF cw, of "fragments Op_Text [[72, 105], [33]]"]
    by (auto simp: sink_writer_def Shared_new_def fragments_def sendable_def next_last_op_def frame_wire_def
        sent_header_def header_bytes_def encode_len_def FrameHeader_packet_eq bool_u8_def
        close_code_bytes_def to_be_bytes_def)
  have "utf8_valid [72, 105, 33]" by (rule utf8_ascii) simp
  then show ?thesis
    using message_end_to_end [OF sink.byte_sink_axioms script_ws.ws_source_axioms cw, where r = ?r and
        ps = "[[72, 105], [33]]" and op = Op_Text and w' = w' and res = "Ok ()" and rest = "[]"] w'
    by (auto simp: sink_writer_def Shared_new_def script_reader_def can_read_def u64_max_def pending_script
        message_frame_def WebSocketOptions_new_def)
qed

text \<open>C26: The length field of a close frame does not count the close code. A peer that reads the close
  frame of \<open>send_frame\<close> therefore sees only the first \<open>length p\<close> bytes of the code and the
  reason \<open>p\<close>, and the last two bytes written are left in its stream; with an empty reason it
  sees no close code at all.\<close>

theorem close_frame_truncated:
  assumes snk: "byte_sink W sent" and src: "ws_source E incoming"
    and w: "can_write (wt_data w)" "sent (wt_stream w) = []"
    and r: "can_read (rd_data r)" "can_write (rd_data r)"
    and peers: "sh_is_client (rd_data r) \<longleftrightarrow> \<not> sh_is_client (wt_data w)"
    and expect: "rd_expect_continuation r \<longleftrightarrow> wt_last_op w \<noteq> None"
    and small: "length p \<le> 0x7b" "length p \<le> sh_max_message_length (rd_data r)"
    and sends: "send_frame W (frame_close code p) w = Some (res, w')"
    and wire: "pending E incoming (rd_stream r) = sent (wt_stream w') @ rest"
  shows "res = Ok () \<and> (\<exists>f r'. read_frame E r = Some (Ok (Some f), r')
    \<and> control_frame Op_Close (take (length p) (to_be_bytes 2 code @ p)) f
    \<and> pending E incoming (rd_stream r') = drop (length p) (to_be_bytes 2 code @ p) @ rest)"
proof -
  let ?f = "frame_close code p" and ?prev = "wt_last_op w"
  let ?h = "sent_header (sh_is_client (wt_data w)) ?prev ?f" and ?body = "to_be_bytes 2 code @ p"
  have u: "unat (word_of_nat (length p) :: u64) = length p" using small by (simp add: unat_of_nat_u64)
  then have sendable: "sendable ?prev ?f" using small by (simp add: sendable_def frame_close_def word_le_nat_alt)
  from byte_sink.send_frame_sent [OF snk w(1) this] sends w(2) have sent: "res = Ok ()"
    "sent (wt_stream w') = frame_wire (sh_is_client (wt_data w)) ?prev ?f" by auto
  have "valid_header (rd_expect_continuation r) (sh_is_client (rd_data r)) ?h"
    using sent_header_valid [OF user_frames(7) sendable] peers expect by simp
  moreover have "fh_op ?h = Op_Close" "unat (fh_len ?h) = length (take (length p) ?body)"
    using u by (simp_all add: sent_header_def frame_close_def)
  moreover have "length (take (length p) ?body) \<le> sh_max_message_length (rd_data r)"
    using small by simp
  moreover have "pending E incoming (rd_stream r)
      = wire_frame ?h (take (length p) ?body) @ drop (length p) ?body @ rest"
    using wire unfolding sent(2) close_frame_wire by simp
  ultimately obtain r' f where
    "read_frame E r = Some (Ok (Some f), after_header ?h (r\<lparr>rd_stream := r'\<rparr>))"
    "control_frame Op_Close (take (length p) ?body) f" "pending E incoming r' = drop (length p) ?body @ rest"
    using ws_source.read_frame_control_valid [OF src r(1), where h = ?h and payload = "take (length p) ?body"
        and rest = "drop (length p) ?body @ rest"] r(2) by (auto simp del: take_append drop_append)
  with sent(1) show ?thesis by (auto simp del: take_append drop_append)
qed

text \<open>Closing with code 1000 and no reason is received as 1005, no status code.\<close>

theorem close_frame_truncated_witness:
  "\<exists>w' c r'. send_frame sink_ops (frame_close 1000 []) (sink_writer False) = Some (Ok (), w')
    \<and> wt_stream w' = [0x88, 0x00, 0x03, 0xe8]
    \<and> read_frame script_env (script_reader True [[0x88, 0x00, 0x03, 0xe8]]) = Some (Ok (Some (F_Close 1005 c)), r')
    \<and> pending script_env script_incoming (rd_stream r') = [0x03, 0xe8]"
proof -
  let ?w = "sink_writer False" and ?r = "script_reader True [[0x88, 0x00, 0x03, 0xe8]]"
  have cw: "can_write (wt_data ?w)" by (simp add: sink_writer_def Shared_new_def can_write_def)
  have "sendable (wt_last_op ?w) (frame_close 1000 [])" by (simp add: sendable_def frame_close_def)
  from sink.send_frame_sent [OF cw this] obtain w' where
    w': "send_frame sink_ops (frame_close 1000 []) ?w = Some (Ok (), w')" "wt_stream w' = [0x88, 0x00, 0x03, 0xe8]"
    by (auto simp: sink_writer_def Shared_new_def frame_wire_def sent_header_def frame_close_def header_bytes_def
        encode_len_def FrameHeader_packet_eq bool_u8_def close_code_bytes_def to_be_bytes_def)
  obtain f r' where f: "read_frame script_env ?r = Some (Ok (Some f), r')"
    "control_frame Op_Close [] f" "pending script_env script_incoming (rd_stream r') = [0x03, 0xe8]"
    using close_frame_truncated [OF sink.byte_sink_axioms script_ws.ws_source_axioms cw, where r = ?r and p = "[]" and
        code = 1000 and w' = w' and res = "Ok ()" and rest = "[]"] w'
    by (auto simp: sink_writer_def Shared_new_def script_reader_def can_read_def can_write_def pending_script to_be_bytes_def)
  moreover from f(2) obtain c where "f = F_Close 1005 c"
    by (cases f) (simp_all add: control_frame_def)
  ultimately show ?thesis using w' by blast
qed

end
