(* ===== verification/Ws_Handshake.thy ===== *)
theory Ws_Handshake
  imports Http_Transfer Http_Head Ws_Conn
begin

text \<open>
  The opening handshake of a WebSocket: \<open>Key\<close> (\<open>src/src/ws/handshake.rs\<close>), the request
  (\<open>ws/request.rs\<close>), \<open>connect\<close> and \<open>handle_upgrade\<close> (\<open>ws/transfer.rs\<close>), and the sockets made from
  them (\<open>WebSocket::new\<close>, \<open>WebSocketServer\<close> and \<open>WebSocketHandle\<close> of \<open>ws/conn.rs\<close>).

  \<open>key_codec\<close> holds the functions of the \<open>base64\<close> and \<open>rust-crypto\<close> packages; \<open>kc_decode s n\<close> is
  \<open>decode_slice\<close> into a buffer of \<open>n\<close> bytes. \<open>ws_http_env\<close> adds to the HTTP environment the random bytes,
  the parts of a \<open>BufReader\<close>, the listener, and \<open>.timeout(..).await\<close> at the two types it is used at.
\<close>

record key_codec =
  kc_encode :: "bytes \<Rightarrow> bytes"
  kc_decode :: "bytes \<Rightarrow> nat \<Rightarrow> bytes option"
  kc_sha1 :: "bytes \<Rightarrow> bytes"

record ('w, 't, 'v, 'b, 'u, 'm) ws_http_env = "('w, 't, 'v, 'b, 'u, 'm) http_env" +
  wh_codec :: key_codec
  wh_random :: "'w \<Rightarrow> bytes \<times> 'w"
  wh_into_parts :: "'b \<Rightarrow> 't HttpConn \<times> bytes \<times> nat"
  wh_from_parts :: "'t HttpConn \<Rightarrow> bytes \<Rightarrow> nat \<Rightarrow> 'b"
  wh_accept :: "sock \<Rightarrow> ('w, sock) act"
  wh_transfer_timeout :: "nat \<Rightarrow> (('u, 'm) Request \<times> 'w, ('u, 'm) RawResponse \<times> 'b) act \<Rightarrow> ('u, 'm) Request \<times> 'w \<Rightarrow>
    ((('u, 'm) RawResponse \<times> 'b) res option \<times> ('u, 'm) Request \<times> 'w) option"
  wh_upgrade_timeout :: "nat \<Rightarrow> ('w, 'b) act \<Rightarrow> 'w \<Rightarrow> ('b res option \<times> 'w) option"

section \<open>Key\<close>

definition WEB_SOCKET_VERSION :: bytes where
  "WEB_SOCKET_VERSION = lit ''13''"

definition WEB_SOCKET_GUID :: bytes where
  "WEB_SOCKET_GUID = lit ''258EAFA5-E914-47DA-95CA-C5AB0DC85B11''"

record Key = key_data :: bytes

definition Key_new :: "('w, 't, 'v, 'b, 'u, 'm, 'x) ws_http_env_scheme \<Rightarrow> 'w \<Rightarrow> Key \<times> 'w" where
  "Key_new X w = (let (data, w) = wh_random X w in (\<lparr>key_data = data\<rparr>, w))"

text \<open>Writing \<open>xs\<close> at the start of an array of \<open>n\<close> zeros.\<close>

definition into_array :: "nat \<Rightarrow> bytes \<Rightarrow> bytes" where
  "into_array n xs = xs @ replicate (n - length xs) 0"

definition Key_from :: "key_codec \<Rightarrow> bytes \<Rightarrow> Key res" where
  "Key_from C val =
     (case kc_decode C val 16 of
        None \<Rightarrow> Err (WebSocketE InvalidKey)
      | Some data \<Rightarrow> Ok \<lparr>key_data = into_array 16 data\<rparr>)"

text \<open>\<open>encode_slice(data, out).unwrap()\<close> with a zeroed array of \<open>n\<close> bytes.\<close>

definition encode_slice :: "key_codec \<Rightarrow> bytes \<Rightarrow> nat \<Rightarrow> bytes res" where
  "encode_slice C data n =
     (if length (kc_encode C data) \<le> n then Ok (into_array n (kc_encode C data)) else Panic)"

definition Key_encode :: "key_codec \<Rightarrow> Key \<Rightarrow> bytes res" where
  "Key_encode C k = encode_slice C (key_data k) 24"

definition Key_accept :: "key_codec \<Rightarrow> Key \<Rightarrow> bytes res" where
  "Key_accept C k = res_bind (Key_encode C k) (\<lambda>key. encode_slice C (kc_sha1 C (key @ WEB_SOCKET_GUID)) 28)"

section \<open>WsRequest\<close>

record ('u, 'm) WsRequest =
  wq_inner :: "('u, 'm) Request"
  wq_options :: WebSocketOptions

definition on_inner :: "(('u, 'm) Request \<Rightarrow> ('u, 'm) Request) \<Rightarrow> ('u, 'm) WsRequest \<Rightarrow> ('u, 'm) WsRequest" where
  "on_inner f r = r\<lparr>wq_inner := f (wq_inner r)\<rparr>"

definition wsr_header ::
  "('m, 'y) header_lib_scheme \<Rightarrow> header_key \<Rightarrow> header_val \<Rightarrow> ('u, 'm) WsRequest \<Rightarrow> ('u, 'm) WsRequest" where
  "wsr_header H key v = on_inner (request_header H key v)"

definition wsr_set_port :: "u16 \<Rightarrow> ('u, 'm) WsRequest \<Rightarrow> ('u, 'm) WsRequest" where
  "wsr_set_port port = on_inner (request_set_port port)"

definition wsr_set_strategy :: "IpStrategy \<Rightarrow> ('u, 'm) WsRequest \<Rightarrow> ('u, 'm) WsRequest" where
  "wsr_set_strategy strategy = on_inner (request_set_strategy strategy)"

definition wsr_set_timeout :: "nat \<Rightarrow> ('u, 'm) WsRequest \<Rightarrow> ('u, 'm) WsRequest" where
  "wsr_set_timeout timeout = on_inner (request_set_timeout timeout)"

definition wsr_set_recvbuf_size :: "i32 \<Rightarrow> ('u, 'm) WsRequest \<Rightarrow> ('u, 'm) WsRequest" where
  "wsr_set_recvbuf_size n = on_inner (request_set_recvbuf_size n)"

definition wsr_set_sendbuf_size :: "i32 \<Rightarrow> ('u, 'm) WsRequest \<Rightarrow> ('u, 'm) WsRequest" where
  "wsr_set_sendbuf_size n = on_inner (request_set_sendbuf_size n)"

definition wsr_payload :: "Payload \<Rightarrow> ('u, 'm) WsRequest \<Rightarrow> ('u, 'm) WsRequest" where
  "wsr_payload p = on_inner (request_payload p)"

definition options_set_handshake_timeout :: "nat \<Rightarrow> WebSocketOptions \<Rightarrow> WebSocketOptions" where
  "options_set_handshake_timeout timeout o1 = o1\<lparr>wo_handshake_timeout := timeout\<rparr>"

definition options_set_max_message_length :: "nat \<Rightarrow> WebSocketOptions \<Rightarrow> WebSocketOptions" where
  "options_set_max_message_length n o1 = o1\<lparr>wo_max_message_length := n\<rparr>"

definition options_set_close_timeout :: "nat \<Rightarrow> WebSocketOptions \<Rightarrow> WebSocketOptions" where
  "options_set_close_timeout timeout o1 = o1\<lparr>wo_close_timeout := timeout\<rparr>"

definition wsr_set_handshake_timeout :: "nat \<Rightarrow> ('u, 'm) WsRequest \<Rightarrow> ('u, 'm) WsRequest" where
  "wsr_set_handshake_timeout timeout r = r\<lparr>wq_options := options_set_handshake_timeout timeout (wq_options r)\<rparr>"

definition wsr_set_max_message_length :: "nat \<Rightarrow> ('u, 'm) WsRequest \<Rightarrow> ('u, 'm) WsRequest" where
  "wsr_set_max_message_length n r = r\<lparr>wq_options := options_set_max_message_length n (wq_options r)\<rparr>"

definition wsr_set_close_timeout :: "nat \<Rightarrow> ('u, 'm) WsRequest \<Rightarrow> ('u, 'm) WsRequest" where
  "wsr_set_close_timeout timeout r = r\<lparr>wq_options := options_set_close_timeout timeout (wq_options r)\<rparr>"

definition ws_open ::
  "('u, 'x) url_lib_scheme \<Rightarrow> ('m, 'y) header_lib_scheme \<Rightarrow> bytes \<Rightarrow> ('u, 'm) WsRequest res" where
  "ws_open U H url =
     (let request = request_base_new U url (\<lambda>scheme. scheme = lit ''ws'' \<or> scheme = lit ''wss'')
      in Ok \<lparr>wq_inner = set_secure_if U (lit ''wss'') (Request_new H request (lit ''GET'')),
             wq_options = WebSocketOptions_new\<rparr>)"

section \<open>connect\<close>

definition check_header ::
  "('m, 'y) header_lib_scheme \<Rightarrow> 'm \<Rightarrow> bytes \<Rightarrow> bytes \<Rightarrow> ws_error \<Rightarrow> unit res" where
  "check_header H headers header value err =
     res_bind (headers_get_str H (KStr header) headers) (\<lambda>v.
     if (case v of Some val \<Rightarrow> eq_ignore_ascii_case val value | None \<Rightarrow> False) then Ok () else Err (WebSocketE err))"

definition upgrade_request ::
  "('m, 'y) header_lib_scheme \<Rightarrow> bytes \<Rightarrow> ('u, 'm) WsRequest \<Rightarrow> ('u, 'm) WsRequest" where
  "upgrade_request H key request =
     (let timeout = wo_handshake_timeout (wq_options request);
          limit = (\<lambda>r. r\<lparr>rq_options := (rq_options r)\<lparr>op_timeout :=
            map_option (\<lambda>connect_timeout. min connect_timeout timeout) (op_timeout (rq_options r))\<rparr>\<rparr>);
          request = on_inner limit request;
          request = wsr_header H (KStr (lit ''Connection'')) (VStr (lit ''Upgrade'')) request;
          request = wsr_header H (KStr (lit ''Upgrade'')) (VStr (lit ''websocket'')) request;
          request = wsr_header H (KStr (lit ''Sec-WebSocket-Version'')) (VStr WEB_SOCKET_VERSION) request
      in wsr_header H (KStr (lit ''Sec-WebSocket-Key'')) (VStr key) request)"

definition check_response ::
  "('m, 'y) header_lib_scheme \<Rightarrow> bytes \<Rightarrow> ('u, 'm) RawResponse \<Rightarrow> unit res" where
  "check_response H accept response =
     (if rr_status response \<noteq> 101 then Err (WebSocketE ServerRejected)
      else
        res_bind (check_header H (rr_headers response) (lit ''Connection'') (lit ''Upgrade'') ServerRejected) (\<lambda>_.
        res_bind (check_header H (rr_headers response) (lit ''Upgrade'') (lit ''websocket'') ServerRejected) (\<lambda>_.
        check_header H (rr_headers response) (lit ''Sec-WebSocket-Accept'') accept ServerRejected)))"

text \<open>The texts of the key and of the value expected back; \<open>from_utf8(..).unwrap()\<close> is the test.\<close>

definition key_texts :: "key_codec \<Rightarrow> Key \<Rightarrow> (bytes \<times> bytes) res" where
  "key_texts C rand =
     res_bind (Key_encode C rand) (\<lambda>key.
     res_bind (Key_accept C rand) (\<lambda>accept.
     if utf8_valid key \<and> utf8_valid accept then Ok (key, accept) else Panic))"

definition ws_connect ::
  "('w, 't, 'v, 'b, 'u, 'm, 'x) ws_http_env_scheme \<Rightarrow> (('u, 'm) WsRequest \<times> 'w, 'b) act" where
  "ws_connect X s =
     (let (rand, w) = Key_new X (snd s) in
      case key_texts (wh_codec X) rand of
        Err e \<Rightarrow> Some (Err e, fst s, w)
      | Panic \<Rightarrow> Some (Panic, fst s, w)
      | Ok (key, accept) \<Rightarrow>
          (let timeout = wo_handshake_timeout (wq_options (fst s));
               request = upgrade_request (he_headers X) key (fst s)
           in map_option (\<lambda>(out, inner, w).
                (res_bind (ok_or (WebSocketE HandshakeTimeout) out) (\<lambda>out.
                 res_bind out (\<lambda>(response, reader).
                 map_ok (\<lambda>_. reader) (check_response (he_headers X) accept response))),
                 request\<lparr>wq_inner := inner\<rparr>, w))
              (wh_transfer_timeout X timeout (transfer X) (wq_inner request, w))))"

section \<open>handle\_upgrade\<close>

text \<open>Only the first three words of the line are looked at.\<close>

definition parse_request_line :: "bytes \<Rightarrow> (Version \<times> bytes) option" where
  "parse_request_line line =
     (case split_on 0x20 line of
        method # words \<Rightarrow>
          if method \<noteq> lit ''GET'' then None
          else (case words of
              url # version # _ \<Rightarrow> map_option (\<lambda>v. (v, url)) (parse_version version)
            | _ \<Rightarrow> None)
      | [] \<Rightarrow> None)"

definition handle_request ::
  "('r, 'x) line_env_scheme \<Rightarrow> ('m, 'y) header_lib_scheme \<Rightarrow> ('r, 'm) act" where
  "handle_request E H =
     io_bind (read_line_in_place E) (\<lambda>(line, offset).
     io_bind (io_lift (ok_or (HttpE (InvalidStatusLine line)) (parse_request_line line))) (\<lambda>(version, url).
     io_bind (io_modify (br_consume E offset)) (\<lambda>_.
     if version \<noteq> Http11 then io_throw (HttpE (UnexpectedVersion version))
     else (case nat_checked_sub (unat DEFAULT_MAXIMUM_HEADER_SIZE) offset of
         None \<Rightarrow> io_throw (HttpE HeadersTooLong)
       | Some limit \<Rightarrow> (\<lambda>r. map_option (\<lambda>(out, r, headers). (map_ok (\<lambda>_. headers) out, r))
           (read_headers_limited E H limit (r, hl_new H)))))))"

definition check_upgrade :: "('m, 'y) header_lib_scheme \<Rightarrow> 'm \<Rightarrow> bytes res" where
  "check_upgrade H headers =
     res_bind (check_header H headers (lit ''Connection'') (lit ''Upgrade'') InvalidClientRequest) (\<lambda>_.
     res_bind (check_header H headers (lit ''Upgrade'') (lit ''websocket'') InvalidClientRequest) (\<lambda>_.
     res_bind (check_header H headers (lit ''Sec-WebSocket-Version'') WEB_SOCKET_VERSION InvalidClientRequest) (\<lambda>_.
     res_bind (headers_get_str H (KStr (lit ''Sec-WebSocket-Key'')) headers) (\<lambda>key.
     ok_or (WebSocketE InvalidClientRequest) key))))"

text \<open>The answer, one \<open>write_fmt\<close> for each line.\<close>

definition write_upgrade ::
  "('w, 't, 'v, 'b, 'u, 'm, 'x) ws_http_env_scheme \<Rightarrow> bytes \<Rightarrow> ('v \<times> 'w, unit) act" where
  "write_upgrade X accept =
     (let writes = cl_write (he_conns X) in
      io_bind (case hl_reason (he_headers X) 101 of None \<Rightarrow> io_panic | Some reason \<Rightarrow> io_return reason) (\<lambda>reason.
      io_bind (writes (version_str Http11 @ [0x20] @ lit ''101'' @ [0x20] @ reason @ crlf)) (\<lambda>_.
      io_bind (writes (lit ''Connection: Upgrade'' @ crlf)) (\<lambda>_.
      io_bind (writes (lit ''Upgrade: websocket'' @ crlf)) (\<lambda>_.
      io_bind (if utf8_valid accept then writes (lit ''Sec-WebSocket-Accept: '' @ accept @ crlf) else io_panic) (\<lambda>_.
      io_bind (writes crlf) (\<lambda>_.
      cl_flush (he_conns X))))))))"

definition handle_upgrade ::
  "('w, 't, 'v, 'b, 'u, 'm, 'x) ws_http_env_scheme \<Rightarrow> 't HttpConn \<Rightarrow> ('w, 'b) act" where
  "handle_upgrade X stream w =
     (case handle_request (he_lines X) (he_headers X) (cl_reader (he_conns X) stream, w) of
        None \<Rightarrow> None
      | Some (Err e, r) \<Rightarrow> Some (Err e, snd r)
      | Some (Panic, r) \<Rightarrow> Some (Panic, snd r)
      | Some (Ok headers, (reader, w)) \<Rightarrow>
          (let (stream, buf, pos) = wh_into_parts X reader in
           map_option (\<lambda>(out, v, w). (map_ok (\<lambda>_. wh_from_parts X (cl_into_conn (he_conns X) v) buf pos) out, w))
             (io_bind (io_lift (res_bind (check_upgrade (he_headers X) headers) (\<lambda>key.
                  res_bind (Key_from (wh_codec X) key) (Key_accept (wh_codec X))))) (write_upgrade X)
                (cl_writer (he_conns X) stream, w))))"

section \<open>WebSocket, WebSocketServer and WebSocketHandle\<close>

definition WebSocket_new ::
  "('w, 't, 'v, 'b, 'u, 'm, 'x) ws_http_env_scheme \<Rightarrow> (('u, 'm) WsRequest \<times> 'w, 'b WebSocket) act" where
  "WebSocket_new X =
     io_bind (ws_connect X) (\<lambda>stream.
     io_bind (io_get (\<lambda>s. wq_options (fst s))) (\<lambda>options.
     io_return (WebSocket_from stream options True)))"

definition ws_run ::
  "('w, 't, 'v, 'b, 'u, 'm, 'x) ws_http_env_scheme \<Rightarrow> (('u, 'm) WsRequest \<times> 'w, 'b WebSocket) act" where
  "ws_run X = WebSocket_new X"

text \<open>A task consumes its request.\<close>

definition ws_task_run ::
  "('w, 't, 'v, 'b, 'u, 'm, 'x) ws_http_env_scheme \<Rightarrow> ('u, 'm) WsRequest \<Rightarrow> ('w, 'b WebSocket) act" where
  "ws_task_run X r w = map_option (\<lambda>(out, s). (out, snd s)) (WebSocket_new X (r, w))"

definition WebSocketOptions_default :: WebSocketOptions where
  "WebSocketOptions_default = WebSocketOptions_new"

record WebSocketServer =
  sv_listener :: sock
  sv_options :: WebSocketOptions

record 't WebSocketHandle =
  hd_stream :: "'t HttpConn"
  hd_options :: WebSocketOptions

text \<open>\<open>bind_to\<close> is \<open>Tcp::bind\<close>, \<open>address\<close> the \<open>local_addr\<close> of a listener.\<close>

definition server_bind :: "('a \<Rightarrow> ('w, sock) act) \<Rightarrow> 'a \<Rightarrow> WebSocketOptions \<Rightarrow> ('w, WebSocketServer) act" where
  "server_bind bind_to addrs options =
     io_bind (bind_to addrs) (\<lambda>listener. io_return \<lparr>sv_listener = listener, sv_options = options\<rparr>)"

definition server_local_addr :: "(sock \<Rightarrow> ('w, 'a) act) \<Rightarrow> WebSocketServer \<Rightarrow> ('w, 'a) act" where
  "server_local_addr address server = address (sv_listener server)"

definition server_accept ::
  "('w, 't, 'v, 'b, 'u, 'm, 'x) ws_http_env_scheme \<Rightarrow> WebSocketServer \<Rightarrow> ('w, 't WebSocketHandle) act" where
  "server_accept X server =
     io_bind (wh_accept X (sv_listener server)) (\<lambda>socket.
     io_return \<lparr>hd_stream = PlainConn socket, hd_options = sv_options server\<rparr>)"

definition accept_websocket ::
  "('w, 't, 'v, 'b, 'u, 'm, 'x) ws_http_env_scheme \<Rightarrow> 't WebSocketHandle \<Rightarrow> ('w, 'b WebSocket) act" where
  "accept_websocket X handle w =
     map_option (\<lambda>(out, w).
         (res_bind (ok_or (WebSocketE HandshakeTimeout) out) (\<lambda>out.
          map_ok (\<lambda>stream. WebSocket_server stream (hd_options handle)) out), w))
       (wh_upgrade_timeout X (wo_handshake_timeout (hd_options handle)) (handle_upgrade X (hd_stream handle)) w)"

definition handle_run ::
  "('w, 't, 'v, 'b, 'u, 'm, 'x) ws_http_env_scheme \<Rightarrow> 't WebSocketHandle \<Rightarrow> ('w, 'b WebSocket) act" where
  "handle_run X handle = accept_websocket X handle"

end
