(* ===== verification/Tls_Laws.thy ===== *)
theory Tls_Laws
  imports Tls_Conn
begin

text \<open>
  What the TLS connections of \<open>src/src/tls/conn.rs\<close> guarantee, over what they rely on from \<open>rustls\<close>:
  \<open>queued\<close> is the ciphertext waiting to be sent, \<open>seal\<close> what a piece of plaintext adds to it,
  and \<open>drained n\<close> the connection after the transport took \<open>n\<close> bytes.
\<close>

section \<open>Sending\<close>

locale tls_queue =
  fixes T :: "('s, 't, 'y) tls_io_scheme" and queued :: "'t \<Rightarrow> bytes" and drained :: "nat \<Rightarrow> 't \<Rightarrow> 't"
    and seal :: "'t \<Rightarrow> bytes \<Rightarrow> bytes"
  assumes wants_write: "tl_wants_write T t \<longleftrightarrow> queued t \<noteq> []"
    and drained: "queued (drained n t) = drop n (queued t)"
    and write_tls: "queued t \<noteq> [] \<Longrightarrow> \<exists>chunks rest. queued t = concat chunks @ rest \<and> concat chunks \<noteq> []
        \<and> (\<forall>wr s. tl_write_tls T wr (s, t) = map_option (\<lambda>(out, s'). (out, s',
              (case out of Ok n \<Rightarrow> drained n t | _ \<Rightarrow> t))) (wr chunks s))"
    and plain_write: "\<exists>n t'. tl_write T bufs t = Some (Ok n, t') \<and> n \<le> length (concat bufs)
        \<and> queued t' = queued t @ seal t (take n (concat bufs))
        \<and> (n = 0 \<longrightarrow> concat bufs = [] \<or> queued t \<noteq> [])"
    and seal_Nil: "seal t [] = []"

locale tls_sender = tls_queue T queued drained seal
  for T :: "('w, 't, 'y) tls_io_scheme" and queued :: "'t \<Rightarrow> bytes" and drained :: "nat \<Rightarrow> 't \<Rightarrow> 't"
    and seal :: "'t \<Rightarrow> bytes \<Rightarrow> bytes" +
  fixes N :: "('w, 'x) net_lib_scheme" and socket :: sock and sent :: "'w \<Rightarrow> bytes"
  assumes send: "\<exists>n w'. nl_send N socket bufs False w = Some (Ok n, w') \<and> n \<le> length (concat bufs)
        \<and> sent w' = sent w @ take n (concat bufs)"
    and interrupt: "\<exists>w'. nl_check_interrupt_if_zero N n w = Some (Ok (), w') \<and> sent w' = sent w"
begin

definition live :: bool where
  "live \<longleftrightarrow> (\<forall>bufs w n w'. concat bufs \<noteq> [] \<longrightarrow> nl_send N socket bufs False w = Some (Ok n, w') \<longrightarrow> n \<noteq> 0)"

lemma flush_result:
  "\<exists>b w' t'. tls_flush_loop N T socket wrote (w, t) = Some (Ok b, w', t')
    \<and> sent w' @ queued t' = sent w @ queued t \<and> (b \<longrightarrow> \<not> live) \<and> (\<not> b \<longrightarrow> queued t' = [])"
proof (induction "length (queued t)" arbitrary: w t rule: less_induct)
  case less
  show ?case
  proof (cases "queued t = []")
    case True
    then show ?thesis by (subst tls_flush_loop.simps) (auto simp: wants_write io_simps)
  next
    case False
    from write_tls [OF this] obtain chunks rest where c: "queued t = concat chunks @ rest" "concat chunks \<noteq> []"
      "\<And>wr s. tl_write_tls T wr (s, t) = map_option (\<lambda>(out, s'). (out, s', (case out of Ok n \<Rightarrow> drained n t | _ \<Rightarrow> t))) (wr chunks s)"
      by blast
    obtain n w1 where n: "nl_send N socket chunks False w = Some (Ok n, w1)" "n \<le> length (concat chunks)"
      "sent w1 = sent w @ take n (concat chunks)" using send by blast
    have wt: "tl_write_tls T (\<lambda>bufs. nl_send N socket bufs False) (w, t) = Some (Ok n, w1, drained n t)"
      using c(3) n(1) by simp
    have all: "sent w1 @ queued (drained n t) = sent w @ queued t"
      using n(2,3) c(1) by (simp add: drained)
    show ?thesis
    proof (cases "n = 0")
      case True
      have "\<not> live" using n(1) c(2) True by (auto simp: live_def)
      moreover have "tls_flush_loop N T socket wrote (w, t) = Some (Ok True, w1, drained n t)"
        using False wt True by (subst tls_flush_loop.simps) (simp add: wants_write io_simps)
      ultimately show ?thesis using all by auto
    next
      case pos: False
      obtain w2 where i: "nl_check_interrupt_if_zero N wrote w1 = Some (Ok (), w2)" "sent w2 = sent w1"
        using interrupt by blast
      have "tls_flush_loop N T socket wrote (w, t) = tls_flush_loop N T socket wrote (w2, drained n t)"
        using False wt pos i(1) by (subst tls_flush_loop.simps) (simp add: wants_write io_simps on_conn_def)
      moreover have "length (queued (drained n t)) < length (queued t)" using False pos by (simp add: drained)
      ultimately show ?thesis using less [of "drained n t" w2] all i(2) by auto
    qed
  qed
qed

lemma send_result:
  assumes "data = concat bufs" and "data \<noteq> []"
  shows "\<exists>n t0 w' t'. tls_send N T socket bufs (w, t) = Some (Ok n, w', t') \<and> n \<le> length data
    \<and> sent w' @ queued t' = sent w @ queued t @ seal t0 (take n data)
    \<and> (live \<longrightarrow> n \<noteq> 0 \<and> queued t' = [])"
proof -
  have once: "\<exists>n b w' t'. tls_write N T socket (tl_write T bufs) (w, t) =
        (if b \<or> n \<noteq> 0 then Some (Ok n, w', t') else tls_write N T socket (tl_write T bufs) (w', t'))
      \<and> n \<le> length data \<and> sent w' @ queued t' = sent w @ queued t @ seal t (take n data)
      \<and> (b \<longrightarrow> \<not> live) \<and> (\<not> b \<longrightarrow> queued t' = []) \<and> (n = 0 \<longrightarrow> queued t \<noteq> [])" for w t
  proof -
    obtain n t1 where p: "tl_write T bufs t = Some (Ok n, t1)" "n \<le> length data"
      "queued t1 = queued t @ seal t (take n data)" "n = 0 \<longrightarrow> queued t \<noteq> []"
      using plain_write [of bufs t] assms by auto
    obtain b w' t' where f: "tls_flush_loop N T socket n (w, t1) = Some (Ok b, w', t')"
      "sent w' @ queued t' = sent w @ queued t1" "b \<longrightarrow> \<not> live" "\<not> b \<longrightarrow> queued t' = []"
      using flush_result by blast
    with p show ?thesis
      by (subst tls_write.simps) (intro exI [of _ n] exI [of _ b] exI [of _ w'] exI [of _ t'],
          auto simp: on_tls_def io_simps)
  qed
  obtain n b w1 t1 where 1: "tls_write N T socket (tl_write T bufs) (w, t) =
        (if b \<or> n \<noteq> 0 then Some (Ok n, w1, t1) else tls_write N T socket (tl_write T bufs) (w1, t1))"
      "n \<le> length data" "sent w1 @ queued t1 = sent w @ queued t @ seal t (take n data)"
      "b \<longrightarrow> \<not> live" "\<not> b \<longrightarrow> queued t1 = []" "n = 0 \<longrightarrow> queued t \<noteq> []"
    using once by blast
  show ?thesis
  proof (cases "b \<or> n \<noteq> 0")
    case True
    with 1 show ?thesis by (auto simp: tls_send_def)
  next
    case False
    obtain m c w2 t2 where 2: "tls_write N T socket (tl_write T bufs) (w1, t1) =
        (if c \<or> m \<noteq> 0 then Some (Ok m, w2, t2) else tls_write N T socket (tl_write T bufs) (w2, t2))"
      "m \<le> length data" "sent w2 @ queued t2 = sent w1 @ queued t1 @ seal t1 (take m data)"
      "c \<longrightarrow> \<not> live" "\<not> c \<longrightarrow> queued t2 = []" "m = 0 \<longrightarrow> queued t1 \<noteq> []"
      using once by blast
    have "m \<noteq> 0" using 2(6) 1(5) False by simp
    with 1 2 False show ?thesis
      by (intro exI [of _ m] exI [of _ t1] exI [of _ w2] exI [of _ t2]) (auto simp: tls_send_def seal_Nil)
  qed
qed

end

section \<open>The handshake\<close>

text \<open>A handshake that is over does not begin again.\<close>

locale tls_handshake =
  fixes T :: "('w, 't, 'y) tls_io_scheme"
  assumes write_done: "tl_write_tls T wr s = Some (Ok n, s') \<Longrightarrow>
        tl_is_handshaking T (snd s') \<Longrightarrow> tl_is_handshaking T (snd s)"
    and read_done: "tl_read_tls T rd s = Some (Ok n, s') \<Longrightarrow>
        tl_is_handshaking T (snd s') \<Longrightarrow> tl_is_handshaking T (snd s)"
    and process_done: "tl_process T t = Some (Ok n, t') \<Longrightarrow> tl_is_handshaking T t' \<Longrightarrow> tl_is_handshaking T t"
begin

lemma handshake_read_done:
  assumes "handshake_read N T socket eof s = Some (Ok b, s')" and "tl_is_handshaking T (snd s')"
  shows "tl_is_handshaking T (snd s)"
proof -
  from assms(1) obtain n s1 where r: "tl_read_tls T (\<lambda>n. nl_recv N socket n False) s = Some (Ok n, s1)"
    "(if n = 0 then io_return True else (\<lambda>s. case on_tls (tl_process T) s of
         None \<Rightarrow> None
       | Some (Ok _, s) \<Rightarrow> Some (Ok eof, s)
       | Some (Panic, s) \<Rightarrow> Some (Panic, s)
       | Some (Err err, s) \<Rightarrow>
           (case tl_write_tls T (\<lambda>bufs. nl_send N socket bufs True) s of
              None \<Rightarrow> None
            | Some (Panic, s) \<Rightarrow> Some (Panic, s)
            | Some (_, s) \<Rightarrow> Some (Err err, s)))) s1 = Some (Ok b, s')"
    unfolding handshake_read_def io_bind_Ok_iff by blast
  show ?thesis
  proof (cases "n = 0")
    case True
    with r assms(2) read_done show ?thesis by (auto simp: io_simps)
  next
    case False
    with r(2) obtain p where "on_tls (tl_process T) s1 = Some (Ok p, s')"
      by (auto split: option.splits result.splits prod.splits)
    then have "tl_is_handshaking T (snd s1)"
      using assms(2) process_done by (auto simp: on_tls_def io_zoom_Ok_iff)
    with r(1) read_done show ?thesis by blast
  qed
qed

lemma handshake_step_done:
  assumes "handshake_step N T socket eof s = Some (Ok next, s')"
  shows "(next = None \<longrightarrow> \<not> tl_is_handshaking T (snd s'))
    \<and> (tl_is_handshaking T (snd s') \<longrightarrow> tl_is_handshaking T (snd s))"
proof -
  let ?hs = "tl_is_handshaking T (snd s)"
  let ?flags = "(if tl_wants_write T (snd s) then [PollOut] else []) @ (if tl_wants_read T (snd s) then [PollIn] else [])"
  from assms obtain flags s1 eof1 s2 where
    p: "on_conn (nl_poll N socket ?flags) s = Some (Ok flags, s1)"
    and w: "(if PollOut \<in> set flags
       then io_bind (tl_write_tls T (\<lambda>bufs. nl_send N socket bufs False)) (\<lambda>n. io_return (if n = 0 then True else eof))
       else io_return eof) s1 = Some (Ok eof1, s2)"
    and k: "(if \<not> ?hs \<and> \<not> eof1 then io_return None
     else
       io_bind (if PollIn \<in> set flags then handshake_read N T socket eof1 else io_return eof1) (\<lambda>eof.
       io_bind (io_get (\<lambda>s. (tl_is_handshaking T (snd s), tl_wants_write T (snd s)))) (\<lambda>(now, wants_write).
       if ?hs \<and> \<not> now \<and> wants_write then io_return (Some eof)
       else if \<not> ?hs \<or> \<not> now then io_return None
       else if eof then io_throw EofDuringHandshake
       else io_return (Some eof)))) s2 = Some (Ok next, s')"
    unfolding handshake_step_def io_bind_basic io_bind_Ok_iff io_basic_Ok_iff by blast
  have a: "tl_is_handshaking T (snd s1) = ?hs"
    using p by (auto simp: on_conn_def io_zoom_Ok_iff)
  have b: "tl_is_handshaking T (snd s2) \<Longrightarrow> ?hs"
  proof (cases "PollOut \<in> set flags")
    case True
    with w obtain n where "tl_write_tls T (\<lambda>bufs. nl_send N socket bufs False) s1 = Some (Ok n, s2)"
      by (auto simp: io_Ok)
    from write_done [OF this] show "tl_is_handshaking T (snd s2) \<Longrightarrow> ?hs" using a by simp
  qed (use w a in \<open>simp add: io_simps\<close>)
  show ?thesis
  proof (cases "\<not> ?hs \<and> \<not> eof1")
    case True
    with k b show ?thesis by (auto simp: io_simps)
  next
    case False
    from k [unfolded if_not_P [OF False] io_bind_Ok_iff] obtain eof2 where
      r: "(if PollIn \<in> set flags then handshake_read N T socket eof1 else io_return eof1) s2 = Some (Ok eof2, s')"
      and c: "(if ?hs \<and> \<not> tl_is_handshaking T (snd s') \<and> tl_wants_write T (snd s') then io_return (Some eof2)
        else if \<not> ?hs \<or> \<not> tl_is_handshaking T (snd s') then io_return None
        else if eof2 then io_throw EofDuringHandshake else io_return (Some eof2)) s' = Some (Ok next, s')"
      by (fastforce simp: io_Ok split: if_splits)
    have "tl_is_handshaking T (snd s') \<Longrightarrow> tl_is_handshaking T (snd s2)"
      using r handshake_read_done [of N socket eof1 s2 eof2 s'] by (auto simp: io_simps split: if_splits)
    with b c show ?thesis by (auto simp: io_simps split: if_splits)
  qed
qed

lemma handshake_loop_done:
  assumes "handshake_loop N T socket eof s = Some (Ok (), s')"
  shows "\<not> tl_is_handshaking T (snd s')"
proof -
  define out where "out = (Ok () :: unit res, s')"
  note run = assms [folded out_def]
  have "N = N \<and> T = T \<longrightarrow> fst out = Ok () \<longrightarrow> \<not> tl_is_handshaking T (snd (snd out))"
  proof (rule handshake_loop.raw_induct [where P = "\<lambda>N' T' socket eof s out. N' = N \<and> T' = T \<longrightarrow>
      fst out = Ok () \<longrightarrow> \<not> tl_is_handshaking T (snd (snd out))", OF _ run], intro impI)
    fix rec N' T' socket eof s out
    assume ih: "\<And>N' T' socket eof s out. rec N' T' socket eof s = Some out \<Longrightarrow> N' = N \<and> T' = T \<longrightarrow>
        fst out = Ok () \<longrightarrow> \<not> tl_is_handshaking T (snd (snd out))"
      and step: "io_bind (handshake_step N' T' socket eof) (\<lambda>next.
        case next of None \<Rightarrow> io_return () | Some eof \<Rightarrow> rec N' T' socket eof) s = Some out"
      and eq: "N' = N \<and> T' = T" and ok: "fst out = Ok ()"
    obtain s' where out: "out = (Ok (), s')" using ok by (cases out) auto
    from step [unfolded out io_bind_Ok_iff] eq obtain nx s1 where
      1: "handshake_step N T socket eof s = Some (Ok nx, s1)"
      "(case nx of None \<Rightarrow> io_return () | Some eof \<Rightarrow> rec N T socket eof) s1 = Some (Ok (), s')" by blast
    show "\<not> tl_is_handshaking T (snd (snd out))"
    proof (cases nx)
      case None
      with 1 handshake_step_done [of N socket eof s nx s1] out show ?thesis by (auto simp: io_simps)
    next
      case (Some eof')
      with 1(2) ih [of N T socket eof' s1 out] out show ?thesis by simp
    qed
  qed
  then show ?thesis by (simp add: out_def)
qed

lemma connect_config_done:
  assumes "tls_connect_stats_config N T options config w = Some (Ok (conn, stats), w')"
  shows "\<not> tl_is_handshaking T (tc_tls conn)"
proof -
  obtain t socket st w1 where run': "(case tls_connect N T socket (tls_stats_from st) (w1, t) of
       None \<Rightarrow> None
     | Some (out, w, tls) \<Rightarrow> Some (map_ok (Pair \<lparr>tc_connection = socket, tc_tls = tls\<rparr>) out, w)) = Some (Ok (conn, stats), w')"
    using assms unfolding tls_connect_stats_config_def by (fastforce simp: io_Ok)
  then obtain w2 t2 where c: "tls_connect N T socket (tls_stats_from st) (w1, t) = Some (Ok stats, w2, t2)"
    "conn = \<lparr>tc_connection = socket, tc_tls = t2\<rparr>"
    by (auto simp: map_ok_Ok_iff split: option.splits)
  then have "handshake_loop N T socket False (w1, t) = Some (Ok (), w2, t2)"
    by (auto simp: tls_connect_def io_Ok)
  from handshake_loop_done [OF this] c(2) show ?thesis by simp
qed

end

section \<open>Loops that make no progress\<close>

text \<open>A read half that finds nothing, at the end of its connection.\<close>

definition quiet_end ::
  "('r, 'x) buf_read_scheme \<Rightarrow> ('r \<times> 't, nat) act \<Rightarrow> ('t, bytes) act \<Rightarrow> 'r \<times> 't \<Rightarrow> bool" where
  "quiet_end B fill rd s \<longleftrightarrow> br_buffer B (fst s) = [] \<and> fill s = Some (Ok 0, s)
     \<and> (rd (snd s) = Some (Ok [], snd s) \<or> rd (snd s) = Some (Err (Kind KWouldBlock), snd s))"

lemma read_half_diverges:
  assumes "quiet_end B fill rd s"
  shows "read_half_read B T fill rd s = None"
proof (rule ccontr)
  assume "read_half_read B T fill rd s \<noteq> None"
  then obtain out where out: "read_half_read B T fill rd s = Some out" by blast
  have "quiet_end B fill rd s \<longrightarrow> False"
  proof (rule read_half_read.raw_induct [where P = "\<lambda>B T fill rd s out. quiet_end B fill rd s \<longrightarrow> False", OF _ out], rule impI)
    fix rec and B :: "('r, 'x) buf_read_scheme" and T :: "('r, 't, 'y) tls_io_scheme" and fill rd s out
    assume ih: "\<And>B T fill rd s out. rec B T fill rd s = Some out \<Longrightarrow> quiet_end B fill rd s \<longrightarrow> False"
      and step: "io_bind (tls_first rd) (\<lambda>data.
        case data of
          Some data \<Rightarrow> io_return data
        | None \<Rightarrow> io_bind (half_buffered B T) (\<lambda>plaintext.
            if plaintext then rec B T fill rd else io_bind fill (\<lambda>_. rec B T fill rd))) s = Some out"
      and q: "quiet_end B fill rd s"
    have "tls_first rd s = Some (Ok None, s)"
      using q by (auto simp: quiet_end_def tls_first_def on_tls_def)
    moreover have "half_buffered B T s = Some (Ok False, s)"
      using q by (simp add: quiet_end_def half_buffered_def io_simps)
    moreover have "fill s = Some (Ok 0, s)" using q by (simp add: quiet_end_def)
    ultimately have "rec B T fill rd s = Some out" using step by (simp add: io_bind_def)
    with ih q show False by blast
  qed
  with assms show False by blast
qed

text \<open>A write that takes nothing, with nothing to send.\<close>

definition idle_write :: "('w, 't, 'y) tls_io_scheme \<Rightarrow> ('t, nat) act \<Rightarrow> 'w \<times> 't \<Rightarrow> bool" where
  "idle_write T wr s \<longleftrightarrow> wr (snd s) = Some (Ok 0, snd s) \<and> \<not> tl_wants_write T (snd s)"

lemma tls_write_diverges:
  assumes "idle_write T wr s"
  shows "tls_write N T socket wr s = None"
proof (rule ccontr)
  assume "tls_write N T socket wr s \<noteq> None"
  then obtain out where out: "tls_write N T socket wr s = Some out" by blast
  have "idle_write T wr s \<longrightarrow> False"
  proof (rule tls_write.raw_induct [where P = "\<lambda>N T socket wr s out. idle_write T wr s \<longrightarrow> False", OF _ out], rule impI)
    fix rec and N :: "('w, 'x) net_lib_scheme" and T :: "('w, 't, 'y) tls_io_scheme" and socket wr s out
    assume ih: "\<And>N T socket wr s out. rec N T socket wr s = Some out \<Longrightarrow> idle_write T wr s \<longrightarrow> False"
      and step: "io_bind (on_tls wr) (\<lambda>wrote. io_bind (tls_flush_loop N T socket wrote) (\<lambda>stopped.
        if stopped \<or> wrote \<noteq> 0 then io_return wrote else rec N T socket wr)) s = Some out"
      and q: "idle_write T wr s"
    have "on_tls wr s = Some (Ok 0, s)" using q by (simp add: idle_write_def on_tls_def)
    moreover have "tls_flush_loop N T socket 0 s = Some (Ok False, s)"
      using q by (subst tls_flush_loop.simps) (simp add: idle_write_def io_simps)
    ultimately have "rec N T socket wr s = Some out" using step by (simp add: io_bind_def)
    with ih q show False by blast
  qed
  with assms show False by blast
qed

section \<open>The write half\<close>

text \<open>\<open>ub\<close> copies what fits behind the bytes in the buffer.\<close>

locale tls_half_queue = tls_queue T queued drained seal
  for T :: "(bytes, 't, 'y) tls_io_scheme" and queued :: "'t \<Rightarrow> bytes" and drained :: "nat \<Rightarrow> 't \<Rightarrow> 't"
    and seal :: "'t \<Rightarrow> bytes \<Rightarrow> bytes" +
  fixes ub :: "bytes list \<Rightarrow> (bytes, nat) act" and cap :: nat
  assumes ub: "ub bufs b = Some (Ok (min (length (concat bufs)) (cap - length b)),
        b @ take (min (length (concat bufs)) (cap - length b)) (concat bufs))"
    and cap: "0 < cap"
begin

lemma half_take_result:
  assumes "queued t \<noteq> []"
  shows "\<exists>buf t'. half_take T ub (w, t) = Some (Ok buf, w, t') \<and> buf \<noteq> [] \<and> queued t = buf @ queued t'"
proof -
  from write_tls [OF assms] obtain chunks rest where c: "queued t = concat chunks @ rest" "concat chunks \<noteq> []"
    "\<And>wr s. tl_write_tls T wr (s, t) = map_option (\<lambda>(out, s'). (out, s', (case out of Ok n \<Rightarrow> drained n t | _ \<Rightarrow> t))) (wr chunks s)"
    by blast
  let ?n = "min (length (concat chunks)) cap"
  have "half_take T ub (w, t) = Some (Ok (take ?n (concat chunks)), w, drained ?n t)"
    by (simp add: half_take_def c(3) ub)
  moreover have "take ?n (concat chunks) \<noteq> []" using c(2) cap by (auto simp del: concat_eq_Nil_conv)
  moreover have "queued t = take ?n (concat chunks) @ queued (drained ?n t)"
    using append_take_drop_id [of ?n "queued t"] c(1) by (simp add: drained)
  ultimately show ?thesis by blast
qed

end

section \<open>A scripted TLS connection\<close>

text \<open>
  Ciphertext is the plaintext itself. A connection starts with one byte to send and is established
  when the first data arrives. \<open>tw_room\<close> is the number of bytes a call of \<open>send\<close> takes at most.
\<close>

record toy_tls =
  tt_out :: bytes
  tt_in :: bytes
  tt_plain :: bytes
  tt_handshaking :: bool

definition toy_tls_lib :: "('s, toy_tls) tls_io" where
  "toy_tls_lib = \<lparr>
     tl_server_name = (\<lambda>h. if h = [] then Err (Foreign 5) else Ok h),
     tl_new = (\<lambda>config name. Ok \<lparr>tt_out = [1], tt_in = [], tt_plain = [], tt_handshaking = True\<rparr>),
     tl_is_handshaking = tt_handshaking, tl_wants_read = (\<lambda>t. tt_plain t = []), tl_wants_write = (\<lambda>t. tt_out t \<noteq> []),
     tl_process = (\<lambda>t. let t = t\<lparr>tt_plain := tt_plain t @ tt_in t, tt_in := [], tt_handshaking := False\<rparr>
        in Some (Ok (length (tt_plain t)), t)),
     tl_read = (\<lambda>n t. if tt_plain t = [] then Some (Err (Kind KWouldBlock), t)
        else Some (Ok (take n (tt_plain t)), t\<lparr>tt_plain := drop n (tt_plain t)\<rparr>)),
     tl_write = (\<lambda>bufs t. Some (Ok (length (concat bufs)), t\<lparr>tt_out := tt_out t @ concat bufs\<rparr>)),
     tl_read_tls = (\<lambda>rd (s, t). map_option (\<lambda>(out, s'). (map_ok length out, s',
        (case out of Ok data \<Rightarrow> t\<lparr>tt_in := tt_in t @ data\<rparr> | _ \<Rightarrow> t))) (rd 4096 s)),
     tl_write_tls = (\<lambda>wr (s, t). map_option (\<lambda>(out, s'). (out, s',
        (case out of Ok n \<Rightarrow> t\<lparr>tt_out := drop n (tt_out t)\<rparr> | _ \<Rightarrow> t))) (wr [tt_out t] s))\<rparr>"

record tls_world = net_world +
  tw_sent :: bytes
  tw_room :: nat

definition toy_net :: "tls_world net_lib" where
  "toy_net = (script_net (\<lambda>_ _. None))\<lparr>nl_send := (\<lambda>s bufs now w.
     (let n = min (tw_room w) (length (concat bufs)) in
      Some (Ok n, w\<lparr>tw_sent := tw_sent w @ take n (concat bufs)\<rparr>)))\<rparr>"

definition quiet_world :: tls_world where
  "quiet_world = \<lparr>nw_events = [], nw_sockets = 1, tw_sent = [], tw_room = 2\<rparr>"

interpretation toy_tls: tls_queue toy_tls_lib tt_out "\<lambda>n t. t\<lparr>tt_out := drop n (tt_out t)\<rparr>" "\<lambda>t p. p"
proof
  fix t :: toy_tls
  assume "tt_out t \<noteq> []"
  then show "\<exists>chunks rest. tt_out t = concat chunks @ rest \<and> concat chunks \<noteq> []
      \<and> (\<forall>wr s. tl_write_tls toy_tls_lib wr (s, t) = map_option (\<lambda>(out, s'). (out, s',
            (case out of Ok n \<Rightarrow> t\<lparr>tt_out := drop n (tt_out t)\<rparr> | _ \<Rightarrow> t))) (wr chunks s))"
    by (intro exI [of _ "[tt_out t]"] exI [of _ "[]"]) (simp add: toy_tls_lib_def)
qed (auto simp: toy_tls_lib_def)

interpretation toy_sender: tls_sender toy_tls_lib tt_out "\<lambda>n t. t\<lparr>tt_out := drop n (tt_out t)\<rparr>" "\<lambda>t p. p"
    toy_net 0 tw_sent
  by unfold_locales (auto simp: toy_net_def script_net_def Let_def io_simps)

definition copy_to :: "nat \<Rightarrow> bytes list \<Rightarrow> (bytes, nat) act" where
  "copy_to cap bufs b = (let n = min (length (concat bufs)) (cap - length b) in
     Some (Ok n, b @ take n (concat bufs)))"

interpretation toy_half: tls_half_queue toy_tls_lib tt_out "\<lambda>n t. t\<lparr>tt_out := drop n (tt_out t)\<rparr>" "\<lambda>t p. p"
    "copy_to 16" 16
  by unfold_locales (simp_all add: copy_to_def Let_def)

interpretation toy_handshake: tls_handshake toy_tls_lib
proof
  fix rd :: "nat \<Rightarrow> ('a, bytes) act" and s n s'
  assume "tl_read_tls toy_tls_lib rd s = Some (Ok n, s')" "tl_is_handshaking toy_tls_lib (snd s')"
  then show "tl_is_handshaking toy_tls_lib (snd s)"
    by (cases s; cases "rd 4096 (fst s)") (auto simp: toy_tls_lib_def map_ok_Ok_iff)
qed (auto simp: toy_tls_lib_def Let_def)

text \<open>A transport on which a byte always comes, which ends the handshake.\<close>

definition hello_net :: "tls_world net_lib" where
  "hello_net = toy_net\<lparr>nl_recv := (\<lambda>s n now. io_return [2])\<rparr>"

lemma hello_handshake:
  "tw_room w = 2 \<Longrightarrow> handshake_loop hello_net toy_tls_lib s False (w, \<lparr>tt_out = [1], tt_in = [], tt_plain = [], tt_handshaking = True\<rparr>)
    = Some (Ok (), (w\<lparr>tw_sent := tw_sent w @ [1]\<rparr>, \<lparr>tt_out = [], tt_in = [], tt_plain = [2], tt_handshaking = False\<rparr>))"
  by (subst handshake_loop.simps)
    (simp add: handshake_step_def handshake_read_def hello_net_def toy_net_def script_net_def toy_tls_lib_def
      io_simps on_conn_def on_tls_def io_bind_def Let_def)

lemma hello_connect:
  "\<exists>conn stats w'. tls_connect_stats_config hello_net toy_tls_lib (with_resolver two_addresses (lit ''host'') 443) 0 quiet_world
    = Some (Ok (conn, stats), w')"
proof -
  let ?o = "with_resolver two_addresses (lit ''host'') 443 :: tls_world ConnectOptions"
  have "ip_parse (lit ''host'') = None"
    by (simp add: ip_parse_letter to_digit_def in_range_def word_le_nat_alt)
  then have r: "resolve_ips hello_net two_addresses (lit ''host'') w = Some (Ok \<lparr>li_v4 = [1, 2], li_v6 = []\<rparr>, w)" for w
    by (simp add: resolve_ips_def resolve_ips_lookup_def numeral_3_eq_3 hello_net_def toy_net_def script_net_def two_addresses_def
        address_query_def io_simps note_answer_def Answer_new_def push_records_def push_record_def LookupIp_default_def)
  let ?w = "quiet_world\<lparr>nw_events := [EvConnect 1 (V4 1) 443], nw_sockets := 2\<rparr>"
  have connect: "\<exists>st'. connect_timed hello_net ?o \<lparr>li_v4 = [1, 2], li_v6 = []\<rparr> (quiet_world, st) = Some (Ok 1, ?w, st')" for st
    by (simp add: connect_timed_def with_resolver_def connect_to_def connect_addrs_def
        elapsed_def on_net_def on_stats_def log_event_def hello_net_def toy_net_def script_net_def quiet_world_def
        io_simps io_bind_def Let_def del: lit_simps)
  have options: "set_options hello_net ?o 1 ?w = Some (Ok (), ?w)"
    by (simp add: set_options_def if_some_def with_resolver_def io_simps del: lit_simps)
  have host: "co_resolver ?o = two_addresses" "co_host ?o = lit ''host''" by (simp_all add: with_resolver_def del: lit_simps)
  from connect obtain st where "connect_timed hello_net ?o \<lparr>li_v4 = [1, 2], li_v6 = []\<rparr>
      (quiet_world, ConnectStats_default\<lparr>cs_dns_resolve := elapsed hello_net (nl_now hello_net quiet_world) quiet_world\<rparr>)
    = Some (Ok 1, ?w, st)" by blast
  then have "\<exists>s stats w'. connect_stats hello_net ?o quiet_world = Some (Ok (s, stats), w') \<and> tw_room w' = 2"
    using options by (simp add: connect_stats_def host r io_bind_def io_lift_def io_return_def Let_def quiet_world_def del: lit_simps)
  then obtain s stats w' where c: "connect_stats hello_net ?o quiet_world = Some (Ok (s, stats), w')" "tw_room w' = 2" by blast
  have "res_bind (tl_server_name (toy_tls_lib :: (tls_world, toy_tls) tls_io) (co_host ?o)) (tl_new (toy_tls_lib :: (tls_world, toy_tls) tls_io) 0)
      = Ok \<lparr>tt_out = [1], tt_in = [], tt_plain = [], tt_handshaking = True\<rparr>"
    by (simp add: toy_tls_lib_def with_resolver_def)
  with c hello_handshake [OF c(2)] show ?thesis
    by (simp add: tls_connect_stats_config_def tls_connect_def io_bind_def io_lift_def io_get_def)
qed

section \<open>Properties\<close>

text \<open>C19: Sending data over TLS returns, with the number of bytes of it that were sealed, and no ciphertext is
  lost or reordered however little the transport takes at a time: what was sent and what is still
  queued is what it was before, followed by those bytes sealed. On a transport that always takes
  something, some data is sealed and the queue is empty at the end.\<close>

theorem tls_send_conserves:
  assumes tls: "tls_sender T queued drained seal N socket sent" and data: "data = concat bufs" "data \<noteq> []"
  shows "\<exists>n t0 w' t'. tls_send N T socket bufs (w, t) = Some (Ok n, w', t') \<and> n \<le> length data
    \<and> sent w' @ queued t' = sent w @ queued t @ seal t0 (take n data)
    \<and> ((\<forall>bufs w n w'. concat bufs \<noteq> [] \<longrightarrow> nl_send N socket bufs False w = Some (Ok n, w') \<longrightarrow> n \<noteq> 0)
        \<longrightarrow> n \<noteq> 0 \<and> queued t' = [])"
  using tls_sender.send_result [OF tls data, of w t] unfolding tls_sender.live_def [OF tls] .

theorem tls_send_conserves_witness:
  "\<exists>n w' t'. tls_send toy_net toy_tls_lib 0 [[7, 8], [9]]
      (\<lparr>nw_events = [], nw_sockets = 1, tw_sent = [5], tw_room = 2\<rparr>,
       \<lparr>tt_out = [6], tt_in = [], tt_plain = [], tt_handshaking = False\<rparr>) = Some (Ok n, w', t')
    \<and> tw_sent w' @ tt_out t' = [5, 6] @ take n [7, 8, 9]"
  using tls_send_conserves [OF toy_sender.tls_sender_axioms refl, of "[[7, 8], [9]]"
      "\<lparr>nw_events = [], nw_sockets = 1, tw_sent = [5], tw_room = 2\<rparr>"
      "\<lparr>tt_out = [6], tt_in = [], tt_plain = [], tt_handshaking = False\<rparr>"]
  by auto

text \<open>C37: A TLS connection is handed out only after its handshake is over, and for a host that is not a valid
  server name no connection is attempted at all.\<close>

theorem tls_connect_established:
  assumes tls: "tls_handshake T" and run: "tls_connect_stats_config N T options config w = Some (out, w')"
  shows "(\<forall>conn stats. out = Ok (conn, stats) \<longrightarrow> \<not> tl_is_handshaking T (tc_tls conn))
    \<and> (\<forall>e. tl_server_name T (co_host options) = Err e \<longrightarrow> out = Err e \<and> w' = w)"
proof (intro conjI allI impI)
  fix conn stats assume "out = Ok (conn, stats)"
  with tls_handshake.connect_config_done [OF tls] run show "\<not> tl_is_handshaking T (tc_tls conn)" by blast
next
  fix e assume "tl_server_name T (co_host options) = Err e"
  with run show "out = Err e" "w' = w" by (simp_all add: tls_connect_stats_config_def io_simps)
qed

theorem tls_connect_established_witness:
  "(\<exists>conn stats w'. tls_connect_stats_config hello_net toy_tls_lib (with_resolver two_addresses (lit ''host'') 443) 0 quiet_world
      = Some (Ok (conn, stats), w') \<and> \<not> tt_handshaking (tc_tls conn))
    \<and> tls_connect_stats_config toy_net toy_tls_lib (with_resolver [] [] 443) 0 quiet_world = Some (Err (Foreign 5), quiet_world)"
proof -
  obtain conn stats w' where run: "tls_connect_stats_config hello_net toy_tls_lib (with_resolver two_addresses (lit ''host'') 443) 0 quiet_world
    = Some (Ok (conn, stats), w')" using hello_connect by blast
  have "\<not> tt_handshaking (tc_tls conn)"
    using tls_connect_established [OF toy_handshake.tls_handshake_axioms run] by (simp add: toy_tls_lib_def del: lit_simps)
  moreover have "tls_connect_stats_config toy_net toy_tls_lib (with_resolver [] [] 443) 0 quiet_world = Some (Err (Foreign 5), quiet_world)"
    by (simp add: tls_connect_stats_config_def toy_tls_lib_def with_resolver_def io_simps)
  ultimately show ?thesis using run by blast
qed

text \<open>At the end of its connection the read half of a split TLS connection never returns: it ignores that
  \<open>fill\<close> got nothing and asks again, both when \<open>rustls\<close> reports the end of the data and when it would
  block.\<close>

theorem read_half_never_returns:
  assumes "br_buffer B (fst s) = []" and "fill s = Some (Ok 0, s)"
    and "tl_read T n (snd s) \<in> {Some (Ok [], snd s), Some (Err (Kind KWouldBlock), snd s)}"
  shows "read_half_read B T fill (tl_read T n) s = None"
  using assms by (intro read_half_diverges) (auto simp: quiet_end_def)

theorem read_half_never_returns_witness:
  "read_half_read script_ops toy_tls_lib (\<lambda>(r, t). map_option (\<lambda>(out, r). (out, r, t)) (script_fill r)) (tl_read toy_tls_lib 10)
    (\<lparr>sc_buf = [], sc_free = 5, sc_rest = []\<rparr>, \<lparr>tt_out = [], tt_in = [], tt_plain = [], tt_handshaking = False\<rparr>) = None"
  using read_half_never_returns [of script_ops "(\<lparr>sc_buf = [], sc_free = 5, sc_rest = []\<rparr>,
        \<lparr>tt_out = [], tt_in = [], tt_plain = [], tt_handshaking = False\<rparr>)"
      "\<lambda>(r, t). map_option (\<lambda>(out, r). (out, r, t)) (script_fill r)" toy_tls_lib 10]
  by (simp add: script_ops_def script_fill_def toy_tls_lib_def)

text \<open>A send of no data on a TLS connection with nothing queued never returns, as it takes the zero bytes
  accepted for a full buffer and tries again.\<close>

theorem tls_send_empty_never_returns:
  assumes "tl_write T bufs (snd s) = Some (Ok 0, snd s)" and "\<not> tl_wants_write T (snd s)"
  shows "tls_send N T socket bufs s = None"
  unfolding tls_send_def using assms by (intro tls_write_diverges) (simp add: idle_write_def)

theorem tls_send_empty_never_returns_witness:
  "tls_send toy_net toy_tls_lib 0 [[]]
    (quiet_world, \<lparr>tt_out = [], tt_in = [], tt_plain = [], tt_handshaking = False\<rparr>) = None"
  by (rule tls_send_empty_never_returns) (simp_all add: toy_tls_lib_def)

text \<open>C38: The write half of a split TLS connection drops ciphertext when its socket takes only a part of what
  it is given: it reports the data as written, and fewer bytes are sent or queued than were there.\<close>

theorem write_half_drops:
  assumes tls: "tls_half_queue T queued drained seal ub cap"
    and wr: "tl_write T bufs t = Some (Ok n, t1)" "n \<noteq> 0" "queued t1 \<noteq> []"
    and buf: "half_take T ub (w, t1) = Some (Ok buf, w, t2)"
    and send: "send buf (w, t2) = Some (Ok k, w1, t2)" "sent w1 = sent w @ take k buf" "0 < k" "k < length buf"
  shows "write_half_write T ub send (tl_write T bufs) (w, t) = Some (Ok n, w1, t2)
    \<and> sent w @ queued t1 = sent w1 @ drop k buf @ queued t2 \<and> drop k buf \<noteq> []"
proof -
  have "queued t1 = buf @ queued t2"
    using tls_half_queue.half_take_result [OF tls wr(3), of w] buf by auto
  moreover have wants: "tl_wants_write T t1"
    using wr(3) tls_queue.wants_write [OF tls_half_queue.axioms(1) [OF tls]] by simp
  have "write_half_write T ub send (tl_write T bufs) (w, t) = Some (Ok n, w1, t2)"
  proof -
    have on: "on_tls (tl_write T bufs) (w, t) = Some (Ok n, w, t1)" using wr(1) by (simp add: on_tls_def)
    have "write_half_write T ub send (tl_write T bufs) (w, t) =
        io_bind (half_take T ub) (\<lambda>buf. io_bind (send buf) (\<lambda>k.
          if k = 0 \<or> n \<noteq> 0 then io_return n else write_half_write T ub send (tl_write T bufs))) (w, t1)"
      unfolding write_half_write.simps [of T ub send "tl_write T bufs" "(w, t)"] io_bind_eqs(1) [where m = "on_tls (tl_write T bufs)", OF on]
      using wants by simp
    also have "\<dots> = Some (Ok n, w1, t2)"
      unfolding io_bind_eqs(1) [where m = "half_take T ub", OF buf]
        io_bind_eqs(1) [where m = "send buf", OF send(1)] using wr(2) by (simp add: io_simps)
    finally show ?thesis .
  qed
  with calculation show ?thesis using send by simp
qed

theorem write_half_drops_witness:
  "write_half_write toy_tls_lib (copy_to 16) (\<lambda>buf (w, t). Some (Ok 2, w @ take 2 buf, t))
      (tl_write (toy_tls_lib :: (bytes, toy_tls) tls_io) [[7, 8], [9]]) ([5], \<lparr>tt_out = [6], tt_in = [], tt_plain = [], tt_handshaking = False\<rparr>)
    = Some (Ok 3, [5, 6, 7], \<lparr>tt_out = [], tt_in = [], tt_plain = [], tt_handshaking = False\<rparr>)
    \<and> drop 2 [6, 7, 8, 9] \<noteq> ([] :: bytes)"
proof -
  let ?t = "\<lambda>out. \<lparr>tt_out = out, tt_in = [], tt_plain = [], tt_handshaking = False\<rparr>"
  have 1: "tl_write (toy_tls_lib :: (bytes, toy_tls) tls_io) [[7, 8], [9]] (?t [6]) = Some (Ok 3, ?t [6, 7, 8, 9])"
    and 2: "half_take toy_tls_lib (copy_to 16) ([5 :: u8], ?t [6, 7, 8, 9]) = Some (Ok [6, 7, 8, 9], [5], ?t [])"
    by (simp_all add: toy_tls_lib_def half_take_def copy_to_def Let_def)
  have "write_half_write toy_tls_lib (copy_to 16) (\<lambda>buf (w, t). Some (Ok 2, w @ take 2 buf, t))
      (tl_write (toy_tls_lib :: (bytes, toy_tls) tls_io) [[7, 8], [9]]) ([5], ?t [6]) = Some (Ok 3, [5, 6, 7], ?t [])
    \<and> [5] @ tt_out (?t [6, 7, 8, 9]) = [5, 6, 7] @ drop 2 [6, 7, 8, 9] @ tt_out (?t [])
    \<and> drop 2 [6, 7, 8, 9] \<noteq> ([] :: bytes)"
    by (rule write_half_drops [where sent = "\<lambda>w. w", OF toy_half.tls_half_queue_axioms, OF 1])
      (simp_all add: 2)
  then show ?thesis by simp
qed

end
