(* ===== verification/Transfer_Laws.thy ===== *)
theory Transfer_Laws
  imports Http_Transfer Http_Head Tls_Laws
begin

text \<open>
  What the client side of \<open>src/src/http/transfer.rs\<close> guarantees: the bytes of a request, the chain
  of redirects, the kind of connection used.
\<close>

section \<open>The bytes of a request\<close>

definition request_head ::
  "('w, 't, 'v, 'b, 'u, 'm, 'x) http_env_scheme \<Rightarrow> ('u, 'm) Request \<Rightarrow> Version \<Rightarrow> 'u \<Rightarrow> bytes" where
  "request_head X request version url =
     request_line (rq_method request) (ul_path_and_query (he_urls X) url) version
     @ header_wire (hl_entries (he_headers X) (rq_headers request)) @ crlf"

definition payload_bytes :: "Payload option \<Rightarrow> bytes" where
  "payload_bytes body = (case body of Some (PayloadBytes data) \<Rightarrow> data | Some (PayloadStream data) \<Rightarrow> data | None \<Rightarrow> [])"

text \<open>What is left of a payload once it is sent.\<close>

definition payload_after :: "Payload option \<Rightarrow> Payload option" where
  "payload_after body = map_option (\<lambda>p. case p of PayloadStream _ \<Rightarrow> PayloadStream [] | _ \<Rightarrow> p) body"

lemma pieces_wire: "concat (concat (map header_pieces kvs)) = header_wire kvs"
  by (induction kvs) (simp_all add: header_wire_def header_line_def header_pieces_def crlf_def)

text \<open>\<open>sent s\<close> are the bytes given to a writer; nothing is asked about when they leave its buffer.\<close>

locale http_writer =
  fixes X :: "('w, 't, 'v, 'b, 'u, 'm, 'x) http_env_scheme" and sent :: "'v \<times> 'w \<Rightarrow> bytes"
  assumes writes: "\<exists>s'. cl_write (he_conns X) data s = Some (Ok (), s') \<and> sent s' = sent s @ data
        \<and> cl_into_conn (he_conns X) (fst s') = cl_into_conn (he_conns X) (fst s)"
    and flushes: "\<exists>s'. cl_flush (he_conns X) s = Some (Ok (), s') \<and> sent s' = sent s
        \<and> cl_into_conn (he_conns X) (fst s') = cl_into_conn (he_conns X) (fst s)"
    and interrupt: "\<exists>w'. nl_check_interrupt (he_net X) w = Some (Ok (), w') \<and> sent (v, w') = sent (v, w)"
    and into_conn: "cl_into_conn (he_conns X) (cl_writer (he_conns X) c) = c"
begin

lemma write_each_sent:
  "\<exists>s'. write_each (he_conns X) pieces s = Some (Ok (), s') \<and> sent s' = sent s @ concat pieces
    \<and> cl_into_conn (he_conns X) (fst s') = cl_into_conn (he_conns X) (fst s)"
proof (induction pieces arbitrary: s)
  case Nil
  then show ?case by (simp add: io_simps)
next
  case (Cons p ps)
  obtain s1 where 1: "cl_write (he_conns X) p s = Some (Ok (), s1)" "sent s1 = sent s @ p"
    "cl_into_conn (he_conns X) (fst s1) = cl_into_conn (he_conns X) (fst s)" using writes by blast
  from Cons [of s1] 1 show ?case by auto
qed

lemma send_body_sent:
  "\<exists>s'. send_body X body s = Some (Ok (payload_after body), s') \<and> sent s' = sent s @ payload_bytes body
    \<and> cl_into_conn (he_conns X) (fst s') = cl_into_conn (he_conns X) (fst s)"
proof (cases body)
  case None
  then show ?thesis by (simp add: send_body_def payload_after_def payload_bytes_def io_simps)
next
  case (Some p)
  obtain s1 where 1: "cl_write (he_conns X) (payload_bytes body) s = Some (Ok (), s1)" "sent s1 = sent s @ payload_bytes body"
    "cl_into_conn (he_conns X) (fst s1) = cl_into_conn (he_conns X) (fst s)" using writes by blast
  obtain w2 where 2: "nl_check_interrupt (he_net X) (snd s1) = Some (Ok (), w2)" "sent (fst s1, w2) = sent s1"
    using interrupt [of "snd s1" "fst s1"] by auto
  from Some 1 2 show ?thesis
    by (cases p) (auto simp: send_body_def payload_after_def payload_bytes_def io_simps)
qed

lemma send_request_sent:
  "\<exists>s'. send_request X request version url body s = Some (Ok (payload_after body), s')
    \<and> sent s' = sent s @ request_head X request version url @ payload_bytes body
    \<and> cl_into_conn (he_conns X) (fst s') = cl_into_conn (he_conns X) (fst s)"
proof -
  let ?line = "request_line (rq_method request) (ul_path_and_query (he_urls X) url) version"
  let ?pieces = "concat (map header_pieces (hl_entries (he_headers X) (rq_headers request)))"
  obtain s1 where 1: "cl_write (he_conns X) ?line s = Some (Ok (), s1)" "sent s1 = sent s @ ?line"
    "cl_into_conn (he_conns X) (fst s1) = cl_into_conn (he_conns X) (fst s)" using writes by blast
  obtain s2 where 2: "write_each (he_conns X) ?pieces s1 = Some (Ok (), s2)" "sent s2 = sent s1 @ concat ?pieces"
    "cl_into_conn (he_conns X) (fst s2) = cl_into_conn (he_conns X) (fst s1)" using write_each_sent by blast
  obtain s3 where 3: "cl_write (he_conns X) [0x0D, 0x0A] s2 = Some (Ok (), s3)" "sent s3 = sent s2 @ [0x0D, 0x0A]"
    "cl_into_conn (he_conns X) (fst s3) = cl_into_conn (he_conns X) (fst s2)" using writes by blast
  obtain s4 where 4: "send_body X body s3 = Some (Ok (payload_after body), s4)" "sent s4 = sent s3 @ payload_bytes body"
    "cl_into_conn (he_conns X) (fst s4) = cl_into_conn (he_conns X) (fst s3)" using send_body_sent by blast
  obtain s5 where 5: "cl_flush (he_conns X) s4 = Some (Ok (), s5)" "sent s5 = sent s4"
    "cl_into_conn (he_conns X) (fst s5) = cl_into_conn (he_conns X) (fst s4)" using flushes by blast
  have "concat ?pieces = header_wire (hl_entries (he_headers X) (rq_headers request))"
    by (rule pieces_wire)
  moreover have "send_request X request version url body s = Some (Ok (payload_after body), s5)"
    by (simp add: send_request_def Let_def 1(1) 2(1) 3(1) 4(1) 5(1) io_simps)
  ultimately show ?thesis
    using 1 2 3 4 5 by (simp add: request_head_def crlf_def)
qed

end

section \<open>Redirects\<close>

text \<open>\<open>hops U start n url\<close>: \<open>n\<close> redirects that keep the scheme lead from \<open>start\<close> to \<open>url\<close>.\<close>

inductive hops :: "('u, 'x) url_lib_scheme \<Rightarrow> 'u \<Rightarrow> nat \<Rightarrow> 'u \<Rightarrow> bool" for U start where
  no_hop: "hops U start 0 start"
| hop: "hops U start n url \<Longrightarrow> ul_join U url location = Some new_url \<Longrightarrow>
    ul_scheme U new_url = ul_scheme U start \<Longrightarrow> hops U start (Suc n) new_url"

lemma hops_scheme: "hops U start n url \<Longrightarrow> ul_scheme U url = ul_scheme U start"
  by (induction rule: hops.induct) auto

lemma next_url_Some:
  assumes "next_url X request req_url remaining url response reader = Ok (Some v)"
  shows "remaining > 0 \<and> is_redirection (rr_status response) \<and> (\<exists>location. ul_join (he_urls X) url location = Some v)
    \<and> ul_scheme (he_urls X) v = ul_scheme (he_urls X) req_url"
  using assms by (auto simp: next_url_def res_bind_Ok_iff ok_or_def split: if_splits option.splits)

lemma next_url_None:
  assumes "next_url X request req_url remaining url response reader = Ok None" and "is_redirection (rr_status response)"
  shows "remaining = 0 \<or> headers_get_str (he_headers X) (KName (lit ''location'')) (rr_headers response) = Ok None"
  using assms by (auto simp: next_url_def res_bind_Ok_iff ok_or_def simp del: lit_simps split: if_splits option.splits)

lemma transfer_loop_hops:
  assumes "transfer_loop X request req_url remaining url redirected body headers w = Some (Ok (resp, reader, b), w')"
    and "hops (he_urls X) req_url k url" and "redirected = (if k = 0 then None else Some url)"
  shows "\<exists>n v. n \<le> k + remaining \<and> hops (he_urls X) req_url n v \<and> rr_url resp = (if n = 0 then None else Some v)
    \<and> (is_redirection (rr_status resp) \<longrightarrow> n = k + remaining
        \<or> headers_get_str (he_headers X) (KName (lit ''location'')) (rr_headers resp) = Ok None)
    \<and> (\<exists>r0 body0 headers0 w0. exchange X request v body0 headers0 w0 = Some (Ok (r0, reader, b), w')
        \<and> resp = r0\<lparr>rr_url := rr_url resp\<rparr>)"
  using assms
proof (induction remaining arbitrary: url redirected body headers w k)
  case 0
  from 0(1) obtain r0 b0 rd w1 nx where e: "exchange X request url body headers w = Some (Ok (r0, rd, b0), w1)"
    "next_url X request req_url 0 url r0 rd = Ok nx"
    "resp = r0\<lparr>rr_url := redirected\<rparr>" "reader = rd" "b = b0" "w' = w1"
    by (subst (asm) transfer_loop.simps) (auto simp: io_Ok split: option.splits)
  have n: "rr_url resp = (if k = 0 then None else Some url)" using e(3) 0(3) by simp
  have "nx = None" using e(2) by (simp add: next_url_def)
  with e(2) have "is_redirection (rr_status resp) \<longrightarrow> k = k + 0
        \<or> headers_get_str (he_headers X) (KName (lit ''location'')) (rr_headers resp) = Ok None" by simp
  with e n 0(2) show ?case by (intro exI [of _ k] exI [of _ url]) auto
next
  case (Suc m)
  from Suc(2) obtain r0 b0 rd w1 nx where e: "exchange X request url body headers w = Some (Ok (r0, rd, b0), w1)"
    "next_url X request req_url (Suc m) url r0 rd = Ok nx"
    "(case nx of None \<Rightarrow> io_return (r0\<lparr>rr_url := redirected\<rparr>, rd, b0)
      | Some v \<Rightarrow> transfer_loop X request req_url m v (Some v) b0 (rr_headers r0)) w1 = Some (Ok (resp, reader, b), w')"
    by (subst (asm) transfer_loop.simps) (auto simp: io_Ok split: option.splits)
  show ?case
  proof (cases nx)
    case None
    with e have r: "resp = r0\<lparr>rr_url := redirected\<rparr>" "reader = rd" "b = b0" "w' = w1" by (simp_all add: io_simps)
    have "is_redirection (rr_status resp) \<longrightarrow>
        headers_get_str (he_headers X) (KName (lit ''location'')) (rr_headers resp) = Ok None"
      using next_url_None [of X request req_url "Suc m" url r0 rd] e(2) None r(1) by (auto simp del: lit_simps)
    with e(1) r Suc(3,4) show ?thesis by (intro exI [of _ k] exI [of _ url]) (auto simp del: lit_simps)
  next
    case (Some v)
    from next_url_Some [OF e(2) [unfolded Some]] obtain location where
      "ul_join (he_urls X) url location = Some v" "ul_scheme (he_urls X) v = ul_scheme (he_urls X) req_url" by blast
    with Suc(3) have "hops (he_urls X) req_url (Suc k) v" by (rule hop)
    from Suc.IH [OF _ this, of "Some v" b0 "rr_headers r0" w1] e(3) Some show ?thesis by simp
  qed
qed

lemma transfer_loop_returns:
  assumes "\<And>url body headers w. exchange X request url body headers w \<noteq> None"
  shows "transfer_loop X request req_url remaining url redirected body headers w \<noteq> None"
proof (induction remaining arbitrary: url redirected body headers w)
  case 0
  from assms [of url body headers w] show ?case
    by (subst transfer_loop.simps) (auto simp: io_bind_def io_simps split: result.split option.split)
next
  case (Suc m)
  from assms [of url body headers w] Suc.IH show ?case
    by (subst transfer_loop.simps) (auto simp: io_bind_def io_simps split: result.split option.split)
qed

section \<open>Connections\<close>

lemma get_connection_for_kind:
  assumes "get_connection_for X request url w = Some (Ok (conn, stats), w')" and "tls_handshake (he_tls X)"
  shows "case conn of SecureConn c \<Rightarrow> op_secure (rq_options request) \<and> \<not> tl_is_handshaking (he_tls X) (tc_tls c)
    | PlainConn s \<Rightarrow> \<not> op_secure (rq_options request)"
proof -
  obtain host where "ul_host_str (he_urls X) url = Some host"
    using assms(1) by (cases "ul_host_str (he_urls X) url") (auto simp: get_connection_for_def io_simps)
  with assms show ?thesis
    using tls_handshake.connect_config_done [OF assms(2)]
    by (cases "op_secure (rq_options request)") (fastforce simp: get_connection_for_def io_Ok Let_def)+
qed

section \<open>A whole exchange\<close>

text \<open>
  A server that, after it is sent exactly the request, makes the first \<open>fill\<close> of a reader on that
  connection deliver \<open>response\<close>, with \<open>later\<close> to come.
\<close>

definition answers ::
  "('w, 't, 'v, 'b, 'u, 'm, 'x) http_env_scheme \<Rightarrow> ('v \<times> 'w \<Rightarrow> bytes) \<Rightarrow> ('b \<times> 'w \<Rightarrow> bytes) \<Rightarrow>
    't HttpConn \<Rightarrow> 'w \<Rightarrow> bytes \<Rightarrow> bytes \<Rightarrow> bytes \<Rightarrow> bool" where
  "answers X sent incoming conn w request response later \<longleftrightarrow>
     (\<forall>v w'. cl_into_conn (he_conns X) v = conn \<longrightarrow> sent (v, w') = sent (cl_writer (he_conns X) conn, w) @ request \<longrightarrow>
       (\<exists>n r. br_fill (he_lines X) (cl_reader (he_conns X) conn, w') = Some (Ok n, r)
         \<and> br_buffer (he_lines X) r = response \<and> incoming r = later \<and> max_hex \<le> br_capacity (he_lines X) r))"

locale http_client = http_writer X sent + http_parser "he_lines X" incoming "he_headers X" plain
  for X :: "('w, 't, 'v, 'b, 'u, 'm, 'x) http_env_scheme" and sent :: "'v \<times> 'w \<Rightarrow> bytes"
    and incoming :: "'b \<times> 'w \<Rightarrow> bytes" and plain :: "'m \<Rightarrow> bool"
begin

lemma exchange_result:
  assumes conn: "get_connection_for X request url w = Some (Ok (conn, stats), w1)"
    and ans: "answers X sent incoming conn w1 (request_head X request Http11 url @ payload_bytes body)
        (status_line ver code reason @ header_wire kvs @ crlf @ rest) later"
    and code: "code = [a, b, c]" "in_range 0x31 0x39 a" "in_range 0x30 0x39 b" "in_range 0x30 0x39 c"
    and reason: "\<forall>b\<in>set reason. field_byte b" and kvs: "\<forall>kv\<in>set kvs. header_ok kv"
    and ver: "ver \<noteq> Http09" "op_min_version (rq_options request) \<le> ver" "ver \<le> op_max_version (rq_options request)"
    and small: "length (status_line ver code reason @ header_wire kvs) \<le> unat (op_maximum_header_size (rq_options request))"
  shows "\<exists>resp reader w'. exchange X request url body headers w = Some (Ok (resp, reader, payload_after body), w')
    \<and> rr_status resp = the (hl_status (he_headers X) code) \<and> rr_version resp = ver
    \<and> rr_headers resp = insert_all (he_headers X) kvs (hl_clear (he_headers X) headers) \<and> rr_url resp = None
    \<and> br_buffer (he_lines X) (reader, w') = rest \<and> incoming (reader, w') = later
    \<and> max_hex \<le> br_capacity (he_lines X) (reader, w')"
proof -
  obtain s2 where s: "send_request X request Http11 url body (cl_writer (he_conns X) conn, w1) = Some (Ok (payload_after body), s2)"
    "sent s2 = sent (cl_writer (he_conns X) conn, w1) @ request_head X request Http11 url @ payload_bytes body"
    "cl_into_conn (he_conns X) (fst s2) = conn"
    using send_request_sent [of request Http11 url body "(cl_writer (he_conns X) conn, w1)"] into_conn by auto
  obtain n r where f: "br_fill (he_lines X) (cl_reader (he_conns X) conn, snd s2) = Some (Ok n, r)"
    "br_buffer (he_lines X) r = status_line ver code reason @ header_wire kvs @ crlf @ rest" "incoming r = later" "max_hex \<le> br_capacity (he_lines X) r"
    using ans s(2,3) unfolding answers_def by (metis prod.collapse append.assoc)
  let ?m = "hl_clear (he_headers X) headers"
  have p: "\<exists>r' m'. parse_response (he_lines X) (he_headers X) (rq_options request) (r, ?m) =
      Some (Ok (the (hl_status (he_headers X) code), ver), (r', m'))
    \<and> m' = insert_all (he_headers X) kvs ?m \<and> br_buffer (he_lines X) r' = rest \<and> incoming r' = later
    \<and> max_hex \<le> br_capacity (he_lines X) r'"
    using parse_response_head [OF http_parser_axioms f(2) code reason kvs, of "rq_options request" ?m] ver small f(3,4)
    by auto
  then obtain reader w' where p: "parse_response (he_lines X) (he_headers X) (rq_options request) (r, ?m) =
      Some (Ok (the (hl_status (he_headers X) code), ver), ((reader, w'), insert_all (he_headers X) kvs ?m))"
    "br_buffer (he_lines X) (reader, w') = rest" "incoming (reader, w') = later"
    "max_hex \<le> br_capacity (he_lines X) (reader, w')" by force
  show ?thesis
    using conn s(1,3) f(1) p
    by (simp add: exchange_def receive_response_def Let_def io_bind_def io_return_def case_prod_unfold)
qed

end

end
