(* ===== verification/Read_Stream.thy ===== *)
theory Read_Stream
  imports Errors
begin

text \<open>
  The contract of the \<open>Read\<close> trait as the library's own readers implement it: a \<open>read\<close> into a
  buffer of \<open>n\<close> bytes returns some bytes that come next, and nothing only when there is nothing
  left. \<open>holds s xs\<close> says that \<open>xs\<close> is what is left to read in state \<open>s\<close>. \<open>Body\<close>
  (\<open>src/src/http/body.rs\<close>) and \<open>FileStream\<close> (\<open>src/src/file/stream.rs\<close>) are instances.
\<close>

text \<open>A sequence of reads, with buffers of the given sizes; the bytes they return together.\<close>

fun reads :: "(nat \<Rightarrow> ('s, bytes) act) \<Rightarrow> nat list \<Rightarrow> ('s, bytes) act" where
  "reads rd [] = io_return []"
| "reads rd (n # ns) = io_bind (rd n) (\<lambda>xs. io_bind (reads rd ns) (\<lambda>ys. io_return (xs @ ys)))"

locale read_stream =
  fixes rd :: "nat \<Rightarrow> ('s, bytes) act" and holds :: "'s \<Rightarrow> bytes \<Rightarrow> bool"
  assumes read_some: "holds s xs \<Longrightarrow> 0 < n \<Longrightarrow> xs \<noteq> [] \<Longrightarrow>
      \<exists>ys zs s'. rd n s = Some (Ok ys, s') \<and> ys \<noteq> [] \<and> length ys \<le> n \<and> xs = ys @ zs \<and> holds s' zs"
    and read_end: "holds s [] \<Longrightarrow> 0 < n \<Longrightarrow> \<exists>s'. rd n s = Some (Ok [], s') \<and> holds s' []"
begin

lemma read_next:
  assumes "holds s xs" and "0 < n"
  obtains ys zs s' where "rd n s = Some (Ok ys, s')" and "length ys \<le> n" and "xs = ys @ zs"
    and "holds s' zs" and "ys = [] \<longleftrightarrow> xs = []"
proof (cases "xs = []")
  case True
  with assms read_end [of s n] that [of "[]" _ "[]"] show ?thesis by auto
next
  case False
  with read_some [OF assms] that show ?thesis by (metis append_is_Nil_conv)
qed

text \<open>Any sequence of reads returns a prefix, and every read makes progress until nothing is left.\<close>

lemma reads_prefix:
  assumes "holds s xs" and "\<forall>n\<in>set ns. 0 < n"
  shows "\<exists>ys zs s'. reads rd ns s = Some (Ok ys, s') \<and> xs = ys @ zs \<and> holds s' zs
    \<and> length ys \<le> sum_list ns \<and> (zs = [] \<or> length ns \<le> length ys)"
  using assms
proof (induction ns arbitrary: s xs)
  case Nil
  then show ?case by (auto simp: io_simps)
next
  case (Cons n ns)
  from Cons.prems have "0 < n" by simp
  from read_next [OF Cons.prems(1) this] obtain us vs t where
    r: "rd n s = Some (Ok us, t)" "length us \<le> n" "xs = us @ vs" "holds t vs" "us = [] \<longleftrightarrow> xs = []" .
  from Cons.IH [OF r(4)] Cons.prems(2) obtain ys zs s' where
    ih: "reads rd ns t = Some (Ok ys, s')" "vs = ys @ zs" "holds s' zs" "length ys \<le> sum_list ns"
      "zs = [] \<or> length ns \<le> length ys" by auto
  have "zs = [] \<or> length (n # ns) \<le> length (us @ ys)"
    using r(3,5) ih(2,5) by (cases us) auto
  with r ih show ?case
    by (intro exI [of _ "us @ ys"] exI [of _ zs] exI [of _ s']) (simp add: io_simps)
qed

text \<open>More reads than bytes read everything.\<close>

lemma reads_all:
  assumes "holds s xs" and "\<forall>n\<in>set ns. 0 < n" and "length xs < length ns"
  shows "\<exists>s'. reads rd ns s = Some (Ok xs, s') \<and> holds s' []"
  using reads_prefix [OF assms(1,2)] assms(3) by fastforce

end

end
