(* ===== verification/Http_Body_Laws.thy ===== *)
theory Http_Body_Laws
  imports Http_Body Read_Stream
begin

text \<open>
  \<open>Body\<close> keeps the contract of \<open>Read\<close>: whatever the transfer kind, the sizes of the reads and the
  way the connection delivers its bytes, reading returns the content and leaves the rest of the
  connection. The chunked coding is given as a grammar, \<open>chunk_stream\<close>, over the state machine's
  states: \<open>chunk_stream state wire data rest\<close> says that from \<open>state\<close>, the bytes \<open>wire\<close> carry \<open>data\<close>
  and end with \<open>rest\<close> (the trailers).
\<close>

inductive chunk_stream :: "ChunkedState \<Rightarrow> bytes \<Rightarrow> bytes \<Rightarrow> bytes \<Rightarrow> bool" where
  chunk_size: "chunk_stream (CExtension v) (c # p) data rest \<Longrightarrow> \<forall>b\<in>set hs. ascii_hexdigit b \<Longrightarrow>
    length hs \<le> 32 \<Longrightarrow> \<not> ascii_hexdigit c \<Longrightarrow> u64_from_str_radix 16 hs = Some v \<Longrightarrow>
    chunk_stream CSize (hs @ c # p) data rest"
| chunk_last: "newline \<notin> set line \<Longrightarrow> chunk_stream (CExtension 0) (line @ newline # rest) [] rest"
| chunk_extension: "newline \<notin> set line \<Longrightarrow> v \<noteq> 0 \<Longrightarrow> chunk_stream (CData v) p data rest \<Longrightarrow>
    chunk_stream (CExtension v) (line @ newline # p) data rest"
| chunk_data: "v \<noteq> 0 \<Longrightarrow> length d = unat v \<Longrightarrow> chunk_stream CTrailer p data rest \<Longrightarrow>
    chunk_stream (CData v) (d @ p) (d @ data) rest"
| chunk_trailer: "newline \<notin> set line \<Longrightarrow> chunk_stream CSize p data rest \<Longrightarrow>
    chunk_stream CTrailer (line @ newline # p) data rest"

definition body_holds ::
  "('r, 'x) line_env_scheme \<Rightarrow> ('r \<Rightarrow> bytes) \<Rightarrow> bytes \<Rightarrow> 'r Body \<Rightarrow> bytes \<Rightarrow> bool" where
  "body_holds E incoming rest s data \<longleftrightarrow> max_hex \<le> br_capacity E (bd_reader s) \<and>
     (case bd_transfer s of
        TEmpty \<Rightarrow> data = [] \<and> pending E incoming (bd_reader s) = rest
      | TTrailers \<Rightarrow> data = [] \<and> pending E incoming (bd_reader s) = rest
      | TConnection \<Rightarrow> pending E incoming (bd_reader s) = data \<and> rest = []
      | TLength remaining \<Rightarrow> pending E incoming (bd_reader s) = data @ rest \<and> length data = unat remaining
      | TChunks state \<Rightarrow> chunk_stream state (pending E incoming (bd_reader s)) data rest)"

text \<open>The call returned, did not panic, and stored at most \<open>n\<close> bytes.\<close>

definition bounded_read :: "nat \<Rightarrow> (bytes res \<times> 'r Body) option \<Rightarrow> bool" where
  "bounded_read n out \<longleftrightarrow> (\<exists>res s'. out = Some (res, s') \<and> res \<noteq> Panic \<and> (\<forall>data. res = Ok data \<longrightarrow> length data \<le> n))"

definition chunk_state :: "'r Body \<Rightarrow> bool" where
  "chunk_state s \<longleftrightarrow> (case bd_transfer s of TTrailers \<Rightarrow> True | TChunks _ \<Rightarrow> True | _ \<Rightarrow> False)"

lemma on_body_reader_Ok:
  "m (bd_reader s) = Some (res, r') \<Longrightarrow> on_body_reader m s = Some (res, s\<lparr>bd_reader := r'\<rparr>)"
  by (simp add: on_body_reader_def)

context line_source
begin

lemma read_bytes_pending:
  "\<exists>xs r'. read_bytes E n s = Some (Ok xs, s\<lparr>bd_reader := r'\<rparr>) \<and> length xs \<le> n
    \<and> pend (bd_reader s) = xs @ pend r' \<and> br_capacity E r' = br_capacity E (bd_reader s)
    \<and> (xs = [] \<longleftrightarrow> n = 0 \<or> pend (bd_reader s) = [])"
proof (cases "br_buffer E (bd_reader s) = []")
  case True
  obtain xs r' where "br_inner_read E n (bd_reader s) = Some (Ok xs, r')" "length xs \<le> n"
    "br_buffer E r' = []" "incoming (bd_reader s) = xs @ incoming r'"
    "br_capacity E r' = br_capacity E (bd_reader s)" "xs = [] \<longleftrightarrow> n = 0 \<or> incoming (bd_reader s) = []"
    using inner_read [OF True, of n] by blast
  with True show ?thesis
    by (intro exI [of _ xs] exI [of _ r']) (simp add: read_bytes_def on_body_reader_def pending_def)
next
  case False
  obtain xs r' where "br_read E n (bd_reader s) = Some (Ok xs, r')" "length xs \<le> n"
    "pend (bd_reader s) = xs @ pend r'" "br_capacity E r' = br_capacity E (bd_reader s)"
    "xs = [] \<longleftrightarrow> n = 0 \<or> pend (bd_reader s) = []"
    using read [of n "bd_reader s"] by blast
  with False show ?thesis
    by (intro exI [of _ xs] exI [of _ r']) (simp add: read_bytes_def on_body_reader_def)
qed

lemma checked_sub_length:
  "length xs \<le> unat v \<Longrightarrow> \<exists>w. checked_sub v (word_of_nat (length xs)) = Some w \<and> unat w = unat v - length xs"
  for v :: u64
proof -
  assume l: "length xs \<le> unat v"
  also have "unat v < 2 ^ LENGTH(64)" by (rule unsigned_less)
  finally have "length xs < 2 ^ 64" by simp
  then have "unat (word_of_nat (length xs) :: u64) = length xs" by (rule unat_of_nat_u64)
  with l show ?thesis by (auto simp: checked_sub_def word_le_nat_alt unat_sub)
qed

lemma read_counted_data:
  assumes "pend (bd_reader s) = d @ p" and "length d = unat v" and "v \<noteq> 0" and "0 < n"
  shows "\<exists>ys zs w r'. read_counted E n v next s = Some (Ok ys, s\<lparr>bd_reader := r', bd_transfer := next w\<rparr>)
    \<and> ys \<noteq> [] \<and> length ys \<le> n \<and> d = ys @ zs \<and> length zs = unat w \<and> pend r' = zs @ p
    \<and> br_capacity E r' = br_capacity E (bd_reader s)"
proof -
  let ?n = "min n (unat v)"
  have "d \<noteq> []" "0 < ?n" using assms(2-4) by (auto simp: unat_eq_zero unat_gt_0)
  obtain ys r' where r: "read_bytes E ?n s = Some (Ok ys, s\<lparr>bd_reader := r'\<rparr>)" "length ys \<le> ?n"
    "pend (bd_reader s) = ys @ pend r'" "br_capacity E r' = br_capacity E (bd_reader s)" "ys \<noteq> []"
    using read_bytes_pending [of ?n s] assms(1) \<open>d \<noteq> []\<close> \<open>0 < ?n\<close> by auto
  obtain w where w: "checked_sub v (word_of_nat (length ys)) = Some w" "unat w = unat v - length ys"
    using checked_sub_length [of ys v] r(2) by auto
  have "d = ys @ drop (length ys) d" "pend r' = drop (length ys) d @ p"
    using r(2,3) assms(1,2) by (auto simp: append_eq_append_conv2)
  moreover have "br_read_into E n (unat v) = Some ?n" using \<open>0 < ?n\<close> by (simp add: read_into)
  ultimately show ?thesis using r w assms(2)
    by (intro exI [of _ ys] exI [of _ "drop (length ys) d"] exI [of _ w] exI [of _ r'])
      (simp add: read_counted_def io_simps set_transfer_def)
qed

text \<open>The loops over \<open>fill\<close> end because each call takes from the incoming bytes.\<close>

lemma chunk_size_loop_finds:
  assumes "pend r = hs @ c # p" and "\<forall>b\<in>set hs. ascii_hexdigit b" and "\<not> ascii_hexdigit c"
    and "length hs \<le> 32" and "max_hex \<le> br_capacity E r"
  shows "\<exists>r' tl. chunk_size_loop E r = Some (Ok (Some (length hs)), r') \<and> br_buffer E r' = hs @ c # tl
    \<and> pend r' = pend r \<and> br_capacity E r' = br_capacity E r"
  using assms
proof (induction "length (incoming r)" arbitrary: r rule: less_induct)
  case less
  let ?b = "br_buffer E r"
  have split: "?b @ incoming r = hs @ c # p" using less.prems(1) by (simp add: pending_def)
  show ?case
  proof (cases "length hs < length ?b")
    case True
    then obtain tl where tl: "?b = hs @ c # tl"
      using split by (auto simp: append_eq_append_conv2 Cons_eq_append_conv append_eq_Cons_conv)
    have "take (min (length ?b) max_hex) ?b = hs @ c # take (min (length ?b) max_hex - Suc (length hs)) tl"
      using less.prems(4) by (simp add: tl max_hex_def take_Cons')
    then have "position (\<lambda>b. \<not> ascii_hexdigit b) (take (min (length ?b) max_hex) ?b) = Some (length hs)"
      using less.prems(2,3) by (simp add: position_hit)
    then show ?thesis using tl
      by (subst chunk_size_loop.simps) (simp add: Let_def io_simps)
  next
    case False
    then have b: "?b = take (length ?b) hs" "incoming r \<noteq> []"
      using split by (auto simp: append_eq_append_conv2 dest: arg_cong [of _ _ "take (length ?b)"])
    have hex: "\<forall>x\<in>set ?b. ascii_hexdigit x" using less.prems(2) b(1) by (metis in_set_takeD)
    then have none: "position (\<lambda>b. \<not> ascii_hexdigit b) (take (min (length ?b) max_hex) ?b) = None"
      by (auto simp: position_None dest: in_set_takeD)
    have short: "length ?b < max_hex" using False less.prems(4) by (simp add: max_hex_def)
    obtain n r1 where f: "br_fill E r = Some (Ok n, r1)" "pend r1 = pend r"
      "length (incoming r1) + n = length (incoming r)" "n \<noteq> 0" "br_capacity E r1 = br_capacity E r"
      using fill_pending [of r] b(2) short less.prems(5) by (metis leD)
    have "chunk_size_loop E r = chunk_size_loop E r1"
      using f none short by (subst chunk_size_loop.simps) (simp add: Let_def)
    with less.hyps [of r1] less.prems f show ?thesis by simp
  qed
qed

lemma newline_loop_finds:
  assumes "pend r = line @ newline # p" and "newline \<notin> set line" and "0 < br_capacity E r"
  shows "\<exists>r'. newline_loop E r = Some (Ok (), r') \<and> pend r' = p \<and> br_capacity E r' = br_capacity E r"
  using assms
proof (induction "length (incoming r)" arbitrary: r line rule: less_induct)
  case less
  let ?b = "br_buffer E r"
  have split: "?b @ incoming r = line @ newline # p" using less.prems(1) by (simp add: pending_def)
  show ?case
  proof (cases "length line < length ?b")
    case True
    then obtain tl where tl: "?b = line @ newline # tl" "p = tl @ incoming r"
      using split by (auto simp: append_eq_append_conv2 Cons_eq_append_conv append_eq_Cons_conv)
    then have "newline_loop E r = Some (Ok (), br_consume E (length line + 1) r)"
      using less.prems(2) by (subst newline_loop.simps) (simp add: find_newline io_simps)
    moreover have "pend (br_consume E (length line + 1) r) = p"
      using consume_pending [of "length line + 1" r] tl(1) less.prems(1) by simp
    ultimately show ?thesis using consume [of "length line + 1" r] tl(1) by simp
  next
    case False
    then obtain l2 where l2: "line = ?b @ l2" "incoming r = l2 @ newline # p"
      using split by (auto simp: append_eq_append_conv2)
    let ?d = "br_discard E r"
    have d: "br_buffer E ?d = []" "incoming ?d = l2 @ newline # p" "br_capacity E ?d = br_capacity E r"
      using discard [of r] l2(2) by simp_all
    obtain n r1 where f: "br_fill E ?d = Some (Ok n, r1)" "pend r1 = pend ?d"
      "length (incoming r1) + n = length (incoming ?d)" "n \<noteq> 0" "br_capacity E r1 = br_capacity E ?d"
      using fill_pending [of ?d] d less.prems(3)
      by (metis Nil_is_append_conv list.distinct(1) list.size(3) less_irrefl)
    have "newline_loop E r = newline_loop E r1"
      using f less.prems(2) l2(1) by (subst newline_loop.simps) (simp add: no_newline io_simps)
    moreover have "pend r1 = l2 @ newline # p" using f(2) d by (simp add: pending_def)
    ultimately show ?thesis
      using less.hyps [of r1 l2] less.prems(2,3) f d l2 by simp
  qed
qed

text \<open>One step of the chunk machine.\<close>

lemma read_chunk_size_step:
  assumes "pend (bd_reader s) = hs @ c # p" and "\<forall>b\<in>set hs. ascii_hexdigit b" and "\<not> ascii_hexdigit c"
    and "length hs \<le> 32" and "max_hex \<le> br_capacity E (bd_reader s)" and "u64_from_str_radix 16 hs = Some v"
  shows "\<exists>r'. read_chunk_size E s = Some (Ok (), s\<lparr>bd_reader := r', bd_transfer := TChunks (CExtension v)\<rparr>)
    \<and> pend r' = c # p \<and> br_capacity E r' = br_capacity E (bd_reader s)"
proof -
  obtain r1 tl where r1: "chunk_size_loop E (bd_reader s) = Some (Ok (Some (length hs)), r1)"
    "br_buffer E r1 = hs @ c # tl" "pend r1 = pend (bd_reader s)" "br_capacity E r1 = br_capacity E (bd_reader s)"
    using chunk_size_loop_finds [OF assms(1-5)] by blast
  have "utf8_valid hs"
    using assms(2) by (intro utf8_ascii)
      (auto simp: ascii_hexdigit_def in_range_def word_le_nat_alt word_less_nat_alt)
  then have "read_chunk_size E s =
      Some (Ok (), s\<lparr>bd_reader := br_consume E (length hs) r1, bd_transfer := TChunks (CExtension v)\<rparr>)"
    using r1(1,2) assms(6)
    by (simp add: read_chunk_size_def on_body_reader_def io_simps set_transfer_def)
  moreover have "pend (br_consume E (length hs) r1) = c # p"
    using consume_pending [of "length hs" r1] r1(2,3) assms(1) by simp
  moreover have "br_capacity E (br_consume E (length hs) r1) = br_capacity E (bd_reader s)"
    using consume [of "length hs" r1] r1(2,4) by simp
  ultimately show ?thesis by blast
qed

lemma read_until_newline_step:
  assumes "pend (bd_reader s) = line @ newline # p" and "newline \<notin> set line"
    and "max_hex \<le> br_capacity E (bd_reader s)"
  shows "\<exists>r'. read_until_newline E s = Some (Ok (), s\<lparr>bd_reader := r', bd_transfer :=
      (case bd_transfer s of TChunks (CExtension v) \<Rightarrow> if v = 0 then TTrailers else TChunks (CData v)
       | _ \<Rightarrow> TChunks CSize)\<rparr>)
    \<and> pend r' = p \<and> br_capacity E r' = br_capacity E (bd_reader s)"
proof -
  have "0 < br_capacity E (bd_reader s)" using assms(3) by (simp add: max_hex_def)
  from newline_loop_finds [OF assms(1,2) this] obtain r' where
    "newline_loop E (bd_reader s) = Some (Ok (), r')" "pend r' = p"
    "br_capacity E r' = br_capacity E (bd_reader s)" by blast
  then show ?thesis
    by (auto simp: read_until_newline_def on_body_reader_def io_simps set_transfer_def
        split: Transfer.split ChunkedState.split)
qed

text \<open>Reading in the chunked coding, by induction over the coding.\<close>

lemma read_chunks_stream:
  assumes "chunk_stream st wire data rest" and "wire = pend (bd_reader s)" and "bd_transfer s = TChunks st"
    and "max_hex \<le> br_capacity E (bd_reader s)" and "0 < n"
  shows "\<exists>ys zs s'. read_chunks E st n s = Some (Ok ys, s') \<and> length ys \<le> n \<and> data = ys @ zs
    \<and> (ys = [] \<longleftrightarrow> data = []) \<and> (ys = [] \<longrightarrow> bd_transfer s' = TTrailers) \<and> chunk_state s'
    \<and> body_holds E incoming rest s' zs"
  using assms
proof (induction arbitrary: s rule: chunk_stream.induct)
  case (chunk_size v c p data rest hs)
  obtain r' where r': "read_chunk_size E s = Some (Ok (), s\<lparr>bd_reader := r', bd_transfer := TChunks (CExtension v)\<rparr>)"
    "pend r' = c # p" "br_capacity E r' = br_capacity E (bd_reader s)"
    using read_chunk_size_step [of s hs c p v] chunk_size by auto
  let ?s = "s\<lparr>bd_reader := r', bd_transfer := TChunks (CExtension v)\<rparr>"
  have "read_chunks E CSize n s = read_chunks E (CExtension v) n ?s"
    using r'(1) by (subst read_chunks.simps) simp
  with chunk_size.IH [of ?s] chunk_size.prems r'(2,3) show ?case by simp
next
  case (chunk_last line rest)
  obtain r' where r': "read_until_newline E s = Some (Ok (), s\<lparr>bd_reader := r', bd_transfer := TTrailers\<rparr>)"
    "pend r' = rest" "br_capacity E r' = br_capacity E (bd_reader s)"
    using read_until_newline_step [of s line rest] chunk_last by auto
  then have "read_chunks E (CExtension 0) n s = Some (Ok [], s\<lparr>bd_reader := r', bd_transfer := TTrailers\<rparr>)"
    by (subst read_chunks.simps) (simp add: io_simps)
  with r'(2,3) chunk_last.prems show ?case by (simp add: body_holds_def chunk_state_def)
next
  case (chunk_extension line v p data rest)
  obtain r' where r': "read_until_newline E s = Some (Ok (), s\<lparr>bd_reader := r', bd_transfer := TChunks (CData v)\<rparr>)"
    "pend r' = p" "br_capacity E r' = br_capacity E (bd_reader s)"
    using read_until_newline_step [of s line p] chunk_extension by auto
  let ?s = "s\<lparr>bd_reader := r', bd_transfer := TChunks (CData v)\<rparr>"
  have "read_chunks E (CExtension v) n s = read_chunks E (CData v) n ?s"
    using r'(1) by (subst read_chunks.simps) simp
  with chunk_extension.IH [of ?s] chunk_extension.prems r'(2,3) show ?case by simp
next
  case (chunk_data v d p data rest)
  from chunk_data.prems(1) have "pend (bd_reader s) = d @ p" by simp
  from read_counted_data [OF this chunk_data.hyps(2,1) chunk_data.prems(4)] obtain ys zs w r' where
    r': "read_counted E n v after_data s = Some (Ok ys, s\<lparr>bd_reader := r', bd_transfer := after_data w\<rparr>)"
      "ys \<noteq> []" "length ys \<le> n" "d = ys @ zs" "length zs = unat w" "pend r' = zs @ p"
      "br_capacity E r' = br_capacity E (bd_reader s)" by blast
  have "body_holds E incoming rest (s\<lparr>bd_reader := r', bd_transfer := after_data w\<rparr>) (zs @ data)"
  proof (cases "w = 0")
    case True
    with r'(5,6,7) chunk_data show ?thesis by (simp add: body_holds_def after_data_def)
  next
    case False
    from chunk_stream.chunk_data [OF False r'(5) chunk_data.hyps(3)] r'(6,7) chunk_data.prems(3) False
    show ?thesis by (simp add: body_holds_def after_data_def)
  qed
  moreover have "chunk_state (s\<lparr>bd_reader := r', bd_transfer := after_data w\<rparr>)"
    by (simp add: chunk_state_def after_data_def)
  ultimately show ?case using r'
    by (subst read_chunks.simps) auto
next
  case (chunk_trailer line p data rest)
  obtain r' where r': "read_until_newline E s = Some (Ok (), s\<lparr>bd_reader := r', bd_transfer := TChunks CSize\<rparr>)"
    "pend r' = p" "br_capacity E r' = br_capacity E (bd_reader s)"
    using read_until_newline_step [of s line p] chunk_trailer by auto
  let ?s = "s\<lparr>bd_reader := r', bd_transfer := TChunks CSize\<rparr>"
  have "read_chunks E CTrailer n s = read_chunks E CSize n ?s"
    using r'(1) by (subst read_chunks.simps) simp
  with chunk_trailer.IH [of ?s] chunk_trailer.prems r'(2,3) show ?case by simp
qed

text \<open>The contract of \<open>Read\<close>.\<close>

lemma body_read_holds:
  assumes "body_holds E incoming rest s data" and "0 < n"
  shows "\<exists>ys zs s'. body_read E n s = Some (Ok ys, s') \<and> length ys \<le> n \<and> data = ys @ zs
    \<and> (ys = [] \<longleftrightarrow> data = []) \<and> body_holds E incoming rest s' zs \<and> chunk_state s' = chunk_state s"
proof (cases "bd_transfer s")
  case TEmpty
  with assms show ?thesis by (auto simp: body_read_def body_holds_def io_simps)
next
  case TTrailers
  with assms show ?thesis by (auto simp: body_read_def body_holds_def io_simps)
next
  case (TChunks st)
  with assms show ?thesis
    using read_chunks_stream [of st "pend (bd_reader s)" data rest s n]
    by (auto simp: body_read_def body_holds_def chunk_state_def)
next
  case TConnection
  let ?n = "min n (2 ^ 64 - 1)"
  have into: "br_read_into E n (2 ^ 64 - 1) = Some ?n" using assms(2) by (simp add: read_into)
  have d: "pend (bd_reader s) = data" "rest = []" using assms(1) TConnection by (simp_all add: body_holds_def)
  obtain ys r' where r: "read_bytes E ?n s = Some (Ok ys, s\<lparr>bd_reader := r'\<rparr>)" "length ys \<le> ?n"
    "data = ys @ pend r'" "br_capacity E r' = br_capacity E (bd_reader s)" "ys = [] \<longleftrightarrow> data = []"
    using read_bytes_pending [of ?n s] assms(2) d(1) by auto
  with TConnection into assms d show ?thesis
    by (cases "ys = []") (auto simp: body_read_def body_holds_def io_simps set_transfer_def chunk_state_def)
next
  case (TLength v)
  have d: "pend (bd_reader s) = data @ rest" "length data = unat v" "max_hex \<le> br_capacity E (bd_reader s)"
    using assms(1) TLength by (simp_all add: body_holds_def)
  show ?thesis
  proof (cases "v = 0")
    case True
    with assms(1) d TLength show ?thesis
      by (auto simp: body_read_def read_counted_def read_into io_simps)
  next
    case False
    from read_counted_data [OF d(1,2) False assms(2)] obtain ys zs w r' where
      r': "read_counted E n v after_length s = Some (Ok ys, s\<lparr>bd_reader := r', bd_transfer := after_length w\<rparr>)"
        "ys \<noteq> []" "length ys \<le> n" "data = ys @ zs" "length zs = unat w" "pend r' = zs @ rest"
        "br_capacity E r' = br_capacity E (bd_reader s)" by blast
    then have "body_holds E incoming rest (s\<lparr>bd_reader := r', bd_transfer := after_length w\<rparr>) zs"
      using d(3) by (auto simp: body_holds_def after_length_def unat_eq_zero word_gt_0)
    with r' TLength show ?thesis by (auto simp: body_read_def chunk_state_def after_length_def)
  qed
qed

lemma body_read_stream: "read_stream (body_read E) (body_holds E incoming rest)"
proof (rule read_stream.intro)
  fix s xs and n :: nat
  assume "body_holds E incoming rest s xs" and "0 < n" and "xs \<noteq> []"
  with body_read_holds [of rest s xs n]
  show "\<exists>ys zs s'. body_read E n s = Some (Ok ys, s') \<and> ys \<noteq> [] \<and> length ys \<le> n \<and> xs = ys @ zs
      \<and> body_holds E incoming rest s' zs" by auto
next
  fix s and n :: nat
  assume "body_holds E incoming rest s []" and "0 < n"
  with body_read_holds [of rest s "[]" n]
  show "\<exists>s'. body_read E n s = Some (Ok [], s') \<and> body_holds E incoming rest s' []" by auto
qed

text \<open>The same within the chunked states, or within the others: no read changes between the two.\<close>

lemma body_kind_stream:
  "read_stream (body_read E) (\<lambda>s data. body_holds E incoming rest s data \<and> chunk_state s = b)"
proof (rule read_stream.intro)
  fix s xs and n :: nat
  assume "body_holds E incoming rest s xs \<and> chunk_state s = b" and "0 < n" and "xs \<noteq> []"
  with body_read_holds [of rest s xs n]
  show "\<exists>ys zs s'. body_read E n s = Some (Ok ys, s') \<and> ys \<noteq> [] \<and> length ys \<le> n \<and> xs = ys @ zs
      \<and> body_holds E incoming rest s' zs \<and> chunk_state s' = b" by auto
next
  fix s and n :: nat
  assume "body_holds E incoming rest s [] \<and> chunk_state s = b" and "0 < n"
  with body_read_holds [of rest s "[]" n]
  show "\<exists>s'. body_read E n s = Some (Ok [], s') \<and> body_holds E incoming rest s' [] \<and> chunk_state s' = b" by auto
qed

section \<open>Every read returns\<close>

lemma chunk_size_loop_total:
  "\<exists>res r'. chunk_size_loop E r = Some (res, r') \<and> res \<noteq> Panic
    \<and> (\<forall>i. res = Ok (Some i) \<longrightarrow> (\<forall>b\<in>set (take i (br_buffer E r')). ascii_hexdigit b))"
proof (induction "length (incoming r)" arbitrary: r rule: less_induct)
  case less
  let ?w = "take (min (length (br_buffer E r)) max_hex) (br_buffer E r)"
  show ?case
  proof (cases "position (\<lambda>b. \<not> ascii_hexdigit b) ?w")
    case (Some i)
    then have "i < length ?w" "\<forall>j<i. ascii_hexdigit (?w ! j)" unfolding position_Some by blast+
    then have "ascii_hexdigit (br_buffer E r ! j)" if "j < i" for j
      using that nth_take [of j "min (length (br_buffer E r)) max_hex" "br_buffer E r"] by auto
    with \<open>i < length ?w\<close> have "\<forall>b\<in>set (take i (br_buffer E r)). ascii_hexdigit b"
      by (auto simp: in_set_conv_nth)
    with Some show ?thesis
      by (subst chunk_size_loop.simps) (auto simp: Let_def io_simps)
  next
    case None
    obtain n r1 where f: "br_fill E r = Some (Ok n, r1)" "length (incoming r1) + n = length (incoming r)"
      using fill_pending [of r] by metis
    show ?thesis
    proof (cases "n = 0 \<or> max_hex \<le> min (length (br_buffer E r)) max_hex")
      case True
      then show ?thesis using None f(1)
        by (subst chunk_size_loop.simps) (auto simp: Let_def io_simps)
    next
      case False
      then have "chunk_size_loop E r = chunk_size_loop E r1" using None f(1)
        by (subst chunk_size_loop.simps) (auto simp: Let_def)
      with less [of r1] f(2) False show ?thesis by simp
    qed
  qed
qed

lemma newline_loop_total: "\<exists>res r'. newline_loop E r = Some (res, r') \<and> res \<noteq> Panic"
proof (induction "length (incoming r)" arbitrary: r rule: less_induct)
  case less
  show ?case
  proof (cases "le_memchr E newline (br_buffer E r)")
    case (Some i)
    then show ?thesis by (subst newline_loop.simps) (simp add: io_simps)
  next
    case None
    obtain n r1 where f: "br_fill E (br_discard E r) = Some (Ok n, r1)"
      "length (incoming r1) + n = length (incoming r)"
      using fill_pending [of "br_discard E r"] discard [of r] by metis
    then have "newline_loop E r = (if n = 0 then Some (Err (UrlE PartialFile), r1) else newline_loop E r1)"
      using None by (subst newline_loop.simps) (simp add: io_simps)
    with less [of r1] f(2) show ?thesis by (cases "n = 0") auto
  qed
qed

lemma read_chunk_size_total:
  "\<exists>res s'. read_chunk_size E s = Some (res, s') \<and> res \<noteq> Panic
    \<and> (res = Ok () \<longrightarrow> (\<exists>v. bd_transfer s' = TChunks (CExtension v)))"
proof -
  obtain res r' where l: "chunk_size_loop E (bd_reader s) = Some (res, r')" "res \<noteq> Panic"
    "\<forall>i. res = Ok (Some i) \<longrightarrow> (\<forall>b\<in>set (take i (br_buffer E r')). ascii_hexdigit b)"
    using chunk_size_loop_total [of "bd_reader s"] by blast
  have utf8: "utf8_valid hs" if "\<forall>b\<in>set hs. ascii_hexdigit b" for hs
    using that by (intro utf8_ascii)
      (auto simp: ascii_hexdigit_def in_range_def word_le_nat_alt word_less_nat_alt)
  show ?thesis
  proof (cases res)
    case (Ok index)
    then show ?thesis using l utf8
      by (cases index; cases "u64_from_str_radix 16 (take (the index) (br_buffer E r'))")
        (auto simp: read_chunk_size_def on_body_reader_def io_simps set_transfer_def)
  qed (use l in \<open>auto simp: read_chunk_size_def on_body_reader_def\<close>)
qed

lemma read_until_newline_total:
  "\<exists>res s'. read_until_newline E s = Some (res, s') \<and> res \<noteq> Panic
    \<and> (res = Ok () \<longrightarrow> bd_transfer s' =
      (case bd_transfer s of TChunks (CExtension v) \<Rightarrow> if v = 0 then TTrailers else TChunks (CData v)
       | _ \<Rightarrow> TChunks CSize))"
proof -
  obtain res r' where l: "newline_loop E (bd_reader s) = Some (res, r')" "res \<noteq> Panic"
    using newline_loop_total [of "bd_reader s"] by blast
  then show ?thesis
    by (cases res) (auto simp: read_until_newline_def on_body_reader_def io_simps set_transfer_def
        split: Transfer.split ChunkedState.split)
qed

lemma read_counted_total: "bounded_read n (read_counted E n v next s)"
proof (cases "br_read_into E n (unat v)")
  case None
  then show ?thesis by (simp add: bounded_read_def read_counted_def io_simps)
next
  case (Some n')
  then have n': "n' \<le> n" "n' \<le> unat v" by (auto simp: read_into split: if_splits)
  obtain xs r' where r: "read_bytes E n' s = Some (Ok xs, s\<lparr>bd_reader := r'\<rparr>)" "length xs \<le> n'"
    using read_bytes_pending [of n' s] by blast
  then obtain w where "checked_sub v (word_of_nat (length xs)) = Some w"
    using checked_sub_length [of xs v] n'(2) by auto
  with Some r n'(1) show ?thesis
    by (simp add: bounded_read_def read_counted_def io_simps set_transfer_def)
qed

lemma read_chunks_total:
  assumes "bd_transfer s = TChunks st"
  shows "bounded_read n (read_chunks E st n s)"
proof -
  have data: "bounded_read n (read_chunks E (CData v) n s)" for v s
    by (subst read_chunks.simps) (simp add: read_counted_total)
  have ext: "bounded_read n (read_chunks E (CExtension v) n s)" if t: "bd_transfer s = TChunks (CExtension v)" for v s
  proof -
    obtain res s' where l: "read_until_newline E s = Some (res, s')" "res \<noteq> Panic"
      "res = Ok () \<longrightarrow> bd_transfer s' = (if v = 0 then TTrailers else TChunks (CData v))"
      using read_until_newline_total [of s] t by auto
    then show ?thesis using data [of v s']
      by (subst read_chunks.simps; cases res) (auto simp: bounded_read_def io_simps)
  qed
  have csize: "bounded_read n (read_chunks E CSize n s)" for s
  proof -
    obtain res s' where l: "read_chunk_size E s = Some (res, s')" "res \<noteq> Panic"
      "res = Ok () \<longrightarrow> (\<exists>v. bd_transfer s' = TChunks (CExtension v))"
      using read_chunk_size_total [of s] by blast
    then show ?thesis using ext [of s']
      by (subst read_chunks.simps; cases res) (auto simp: bounded_read_def)
  qed
  have trailer: "bounded_read n (read_chunks E CTrailer n s)" if t: "bd_transfer s = TChunks CTrailer" for s
  proof -
    obtain res s' where l: "read_until_newline E s = Some (res, s')" "res \<noteq> Panic"
      "res = Ok () \<longrightarrow> bd_transfer s' = TChunks CSize"
      using read_until_newline_total [of s] t by auto
    then show ?thesis using csize [of s']
      by (subst read_chunks.simps; cases res) (auto simp: bounded_read_def)
  qed
  show ?thesis using data ext csize trailer assms by (cases st) auto
qed

lemma body_read_total: "bounded_read n (body_read E n s)"
proof (cases "bd_transfer s")
  case TConnection
  obtain xs r' where "read_bytes E (min n (2 ^ 64 - 1)) s = Some (Ok xs, s\<lparr>bd_reader := r'\<rparr>)"
    "length xs \<le> min n (2 ^ 64 - 1)"
    using read_bytes_pending [of "min n (2 ^ 64 - 1)" s] by blast
  with TConnection show ?thesis
    by (cases "xs = []") (auto simp: body_read_def bounded_read_def read_into io_simps set_transfer_def)
next
  case (TChunks st)
  then show ?thesis using read_chunks_total [of s st n] by (simp add: body_read_def)
next
  case (TLength v)
  then show ?thesis using read_counted_total [of n v after_length s] by (simp add: body_read_def)
qed (simp_all add: body_read_def bounded_read_def io_simps)

end

sublocale line_source \<subseteq> body: read_stream "body_read E" "body_holds E incoming rest" for rest
  by (rule body_read_stream)

section \<open>The chunked coding of a list of chunks\<close>

text \<open>Chunks with their extensions, and the last chunk; the trailers follow.\<close>

definition chunk_bytes :: "bytes \<times> bytes \<Rightarrow> bytes" where
  "chunk_bytes ch = digits 16 (length (snd ch)) @ fst ch @ crlf @ snd ch @ crlf"

definition chunk_wire :: "(bytes \<times> bytes) list \<Rightarrow> bytes" where
  "chunk_wire cs = concat (map chunk_bytes cs) @ lit ''0'' @ crlf"

definition chunk_ok :: "bytes \<times> bytes \<Rightarrow> bool" where
  "chunk_ok ch \<longleftrightarrow> snd ch \<noteq> [] \<and> length (snd ch) < 2 ^ 64 \<and> newline \<notin> set (fst ch)
     \<and> (fst ch = [] \<or> \<not> ascii_hexdigit (hd (fst ch)))"

lemma chunk_stream_wire:
  assumes "\<forall>ch\<in>set cs. chunk_ok ch"
  shows "chunk_stream CSize (chunk_wire cs @ rest) (concat (map snd cs)) rest"
  using assms
proof (induction cs)
  case Nil
  have "chunk_stream (CExtension 0) ([carriage_return] @ newline # rest) [] rest"
    by (rule chunk_stream.chunk_last) simp
  then have "chunk_stream CSize (lit ''0'' @ carriage_return # (newline # rest)) [] rest"
    by (intro chunk_stream.chunk_size [where v = 0])
      (simp_all add: ascii_hexdigit_def in_range_def word_le_nat_alt u64_from_str_radix_def to_digit_def)
  then show ?case by (simp add: chunk_wire_def crlf_def)
next
  case (Cons ch cs)
  obtain e d where ch: "ch = (e, d)" by (cases ch)
  let ?v = "word_of_nat (length d) :: u64"
  have ok: "d \<noteq> []" "newline \<notin> set e" "e = [] \<or> \<not> ascii_hexdigit (hd e)" and v: "unat ?v = length d"
    using Cons.prems by (auto simp: ch chunk_ok_def unat_of_nat_u64)
  have "chunk_stream CTrailer ([carriage_return] @ newline # (chunk_wire cs @ rest)) (concat (map snd cs)) rest"
    using Cons by (intro chunk_stream.chunk_trailer) simp_all
  then have "chunk_stream (CData ?v) (d @ ([carriage_return] @ newline # (chunk_wire cs @ rest)))
      (d @ concat (map snd cs)) rest"
    using ok v by (intro chunk_stream.chunk_data) (auto simp: unat_eq_zero [symmetric])
  then have ext: "chunk_stream (CExtension ?v) ((e @ [carriage_return]) @ newline #
      (d @ ([carriage_return] @ newline # (chunk_wire cs @ rest)))) (d @ concat (map snd cs)) rest"
    using ok v by (intro chunk_stream.chunk_extension) (auto simp: unat_eq_zero [symmetric])
  obtain c p where cp: "(e @ [carriage_return]) @ newline #
      (d @ ([carriage_return] @ newline # (chunk_wire cs @ rest))) = c # p" "\<not> ascii_hexdigit c"
    using ok(3) by (cases e) (auto simp: ascii_hexdigit_def in_range_def word_le_nat_alt)
  have "length (digits 16 (length d)) \<le> 16"
    using Cons.prems by (intro length_digits) (simp_all add: ch chunk_ok_def)
  moreover have "u64_from_str_radix 16 (digits 16 (length d)) = Some ?v"
    using u64_from_digits [of 16 ?v] v by simp
  ultimately have "chunk_stream CSize (digits 16 (length d) @ c # p) (d @ concat (map snd cs)) rest"
    using ext digits_hex [of "length d"] cp by (intro chunk_stream.chunk_size [where v = ?v]) simp_all
  then show ?case
    by (simp add: cp(1) [symmetric] chunk_wire_def chunk_bytes_def ch crlf_def)
qed

lemma chunk_wire_holds:
  assumes "line_source E incoming" and "pending E incoming (bd_reader s) = chunk_wire cs @ rest"
    and "\<forall>ch\<in>set cs. chunk_ok ch" and "max_hex \<le> br_capacity E (bd_reader s)"
    and "bd_transfer s = TChunks CSize"
  shows "body_holds E incoming rest s (concat (map snd cs))"
  using assms chunk_stream_wire [OF assms(3)] by (simp add: body_holds_def)

text \<open>A truncated body with a length.\<close>

lemma reads_truncated:
  assumes "line_source E incoming" and "bd_transfer s = TLength v"
    and "length (pending E incoming (bd_reader s)) < unat v" and "\<forall>n\<in>set ns. 0 < n"
    and "length (pending E incoming (bd_reader s)) < length ns"
  shows "\<exists>s'. reads (body_read E) ns s = Some (Err (UrlE PartialFile), s')"
  using assms(2-)
proof (induction ns arbitrary: s v)
  case (Cons n ns)
  note src = assms(1)
  let ?p = "pending E incoming (bd_reader s)" and ?n = "min n (unat v)"
  have n: "0 < ?n" using Cons.prems by auto
  then have into: "br_read_into E n (unat v) = Some ?n"
    using byte_source.read_into [OF line_source.axioms(1) [OF src]] by simp
  obtain xs r' where r: "read_bytes E ?n s = Some (Ok xs, s\<lparr>bd_reader := r'\<rparr>)" "length xs \<le> ?n"
    "?p = xs @ pending E incoming r'" "xs = [] \<longleftrightarrow> ?n = 0 \<or> ?p = []"
    using line_source.read_bytes_pending [OF src, of ?n s] by blast
  show ?case
  proof (cases "xs = []")
    case True
    then show ?thesis using r(1) into Cons.prems(1)
      by (simp add: body_read_def read_counted_def io_simps)
  next
    case False
    obtain w where w: "checked_sub v (word_of_nat (length xs)) = Some w" "unat w = unat v - length xs"
      using line_source.checked_sub_length [OF src, of xs v] r(2) by auto
    let ?s = "s\<lparr>bd_reader := r', bd_transfer := TLength w\<rparr>"
    have "0 < unat w" using w(2) r(3) Cons.prems(2) by simp
    then have "after_length w = TLength w" by (simp add: after_length_def unat_gt_0 word_gt_0)
    then have step: "body_read E n s = Some (Ok xs, ?s)"
      using r(1) False into w(1) Cons.prems(1)
      by (simp add: body_read_def read_counted_def io_simps set_transfer_def)
    have "\<exists>s'. reads (body_read E) ns ?s = Some (Err (UrlE PartialFile), s')"
      using w(2) r(3) Cons.prems False by (intro Cons.IH [where v = w]) (auto simp: neq_Nil_conv)
    then show ?thesis using step by auto
  qed
qed simp

section \<open>Trailers\<close>

lemma read_trailers_loop_wire:
  assumes parser: "http_parser E incoming H plain" and t: "bd_transfer s = TTrailers"
    and buf: "br_buffer E (bd_reader s) = header_wire kvs @ crlf @ rest" and ok: "\<forall>kv\<in>set kvs. header_ok kv"
  shows "\<exists>r'. read_trailers_loop E H m s =
      Some (Ok (insert_all H kvs m), s\<lparr>bd_reader := r', bd_transfer := TEmpty\<rparr>)
    \<and> br_buffer E r' = rest \<and> incoming r' = incoming (bd_reader s)"
  using t buf ok
proof (induction kvs arbitrary: s m)
  case Nil
  have "read_header_line_limited E H (bd_reader s) = Some (Ok None, br_consume E 2 (bd_reader s))"
    using Nil.prems(2) by (intro http_parser.read_header_line_end [OF parser, of _ rest]) (simp add: header_wire_def)
  moreover have "br_buffer E (br_consume E 2 (bd_reader s)) = rest"
    "incoming (br_consume E 2 (bd_reader s)) = incoming (bd_reader s)"
    using byte_source.consume [of E incoming 2 "bd_reader s"] parser Nil.prems(2)
    by (simp_all add: http_parser_def line_source_def header_wire_def crlf_def)
  ultimately show ?case using Nil.prems(1)
    by (subst read_trailers_loop.simps)
      (auto simp: read_trailer_def on_body_reader_def io_simps set_transfer_def insert_all_def)
next
  case (Cons kv kvs)
  let ?n = "length (header_line kv)"
  let ?r = "br_consume E ?n (bd_reader s)"
  have buf: "br_buffer E (bd_reader s) = header_line kv @ header_wire kvs @ crlf @ rest"
    using Cons.prems(2) by (simp add: header_wire_def)
  have "read_header_line_limited E H (bd_reader s)
      = Some (Ok (Some (lower (fst kv), Some (snd kv), ?n)), ?r)"
    using Cons.prems(3) by (intro http_parser.read_header_line_ok [OF parser buf]) simp
  then have "read_trailers_loop E H m s =
      read_trailers_loop E H (hl_insert H (lower (fst kv)) (snd kv) m) (s\<lparr>bd_reader := ?r\<rparr>)"
    using Cons.prems(1)
    by (subst read_trailers_loop.simps)
      (simp add: read_trailer_def on_body_reader_def io_simps io_bind_def headers_insert_def)
  moreover have "br_buffer E ?r = header_wire kvs @ crlf @ rest" "incoming ?r = incoming (bd_reader s)"
    using byte_source.consume [of E incoming ?n "bd_reader s"] parser buf
    by (simp_all add: http_parser_def line_source_def)
  ultimately show ?case
    using Cons.IH [of "s\<lparr>bd_reader := ?r\<rparr>" "hl_insert H (lower (fst kv)) (snd kv) m"] Cons.prems
    by (simp add: insert_all_def case_prod_unfold)
qed

section \<open>Properties\<close>

text \<open>C6: However the connection delivers the bytes and whatever the buffer sizes, reading a chunked body
  gives the concatenated chunks, extensions skipped, then 0 bytes, and leaves the reader at the
  trailers.\<close>

theorem chunked_body_roundtrip:
  assumes src: "line_source E incoming" and cap: "max_hex \<le> br_capacity E (bd_reader s)"
    and wire: "pending E incoming (bd_reader s) = chunk_wire cs @ rest" "bd_transfer s = TChunks CSize"
    and cs: "\<forall>ch\<in>set cs. chunk_ok ch"
    and ns: "\<forall>n\<in>set ns. 0 < n" "length (concat (map snd cs)) < length ns" "0 < n"
  shows "\<exists>s' s''. reads (body_read E) ns s = Some (Ok (concat (map snd cs)), s')
    \<and> body_read E n s' = Some (Ok [], s'')
    \<and> bd_transfer s'' = TTrailers \<and> pending E incoming (bd_reader s'') = rest"
proof -
  note stream = line_source.body_kind_stream [OF src, of rest True]
  have "body_holds E incoming rest s (concat (map snd cs)) \<and> chunk_state s = True"
    using chunk_wire_holds [OF src wire(1) cs cap wire(2)] wire(2) by (simp add: chunk_state_def)
  with read_stream.reads_all [OF stream this ns(1,2)]
  obtain s' where s': "reads (body_read E) ns s = Some (Ok (concat (map snd cs)), s')"
    "body_holds E incoming rest s' []" "chunk_state s'" by blast
  have "\<exists>s''. body_read E n s' = Some (Ok [], s'') \<and> bd_transfer s'' = TTrailers \<and> pending E incoming (bd_reader s'') = rest"
  proof (cases "bd_transfer s'")
    case (TChunks st)
    then have "chunk_stream st (pending E incoming (bd_reader s')) [] rest" "max_hex \<le> br_capacity E (bd_reader s')"
      using s'(2) by (simp_all add: body_holds_def)
    from line_source.read_chunks_stream [OF src this(1) refl TChunks this(2) ns(3)] obtain s'' where
      "read_chunks E st n s' = Some (Ok [], s'')" "bd_transfer s'' = TTrailers" "body_holds E incoming rest s'' []"
      by auto
    then show ?thesis using TChunks by (simp add: body_read_def body_holds_def)
  qed (use s'(2,3) in \<open>auto simp: body_holds_def chunk_state_def body_read_def io_simps\<close>)
  with s'(1) show ?thesis by auto
qed

text \<open>Two chunks, the first with an extension, and the segment borders in awkward places.\<close>

theorem chunked_body_roundtrip_witness:
  "\<exists>s'. reads (body_read script_line) [5, 5, 5, 5, 5]
      \<lparr>bd_reader = \<lparr>sc_buf = lit ''2'', sc_free = 60, sc_rest = [lit '';a=b'', crlf @ lit ''H'', lit ''i'' @ crlf @ lit ''1'',
         crlf @ lit ''!'' @ crlf @ lit ''0'' @ crlf @ crlf]\<rparr>, bd_transfer = TChunks CSize, bd_reusable = False\<rparr>
    = Some (Ok (lit ''Hi!''), s')"
proof -
  let ?s = "\<lparr>bd_reader = \<lparr>sc_buf = lit ''2'', sc_free = 60, sc_rest = [lit '';a=b'', crlf @ lit ''H'', lit ''i'' @ crlf @ lit ''1'',
         crlf @ lit ''!'' @ crlf @ lit ''0'' @ crlf @ crlf]\<rparr>, bd_transfer = TChunks CSize, bd_reusable = False\<rparr>"
  have d: "digits 16 (Suc (Suc 0)) = lit ''2''" "digits 16 (Suc 0) = lit ''1''"
    by (subst digits.simps, simp add: digit_char_def)+
  have "\<exists>s' s''. reads (body_read script_line) [5, 5, 5, 5, 5] ?s
      = Some (Ok (concat (map snd [(lit '';a=b'', lit ''Hi''), ([], lit ''!'')])), s')
    \<and> body_read script_line 5 s' = Some (Ok [], s'')
    \<and> bd_transfer s'' = TTrailers \<and> pending script_line script_incoming (bd_reader s'') = crlf"
    by (rule chunked_body_roundtrip [OF script_line.line_source_axioms])
      (simp_all add: max_hex_def chunk_wire_def chunk_bytes_def d chunk_ok_def ascii_hexdigit_def in_range_def word_le_nat_alt)
  then show ?thesis by auto
qed

text \<open>C21: A body with a \<open>Content-Length\<close> is read exactly: the counted bytes, and what follows them stays on
  the connection.\<close>

theorem length_body_exact:
  assumes src: "line_source E incoming" and cap: "max_hex \<le> br_capacity E (bd_reader s)"
    and wire: "pending E incoming (bd_reader s) = data @ rest" "bd_transfer s = TLength (word_of_nat (length data))"
      "length data < 2 ^ 64"
    and ns: "\<forall>n\<in>set ns. 0 < n" "length data < length ns"
  shows "\<exists>s'. reads (body_read E) ns s = Some (Ok data, s') \<and> pending E incoming (bd_reader s') = rest"
proof -
  have "body_holds E incoming rest s data \<and> chunk_state s = False"
    using assms by (simp add: body_holds_def unat_of_nat_u64 chunk_state_def)
  with read_stream.reads_all [OF line_source.body_kind_stream [OF src, of rest False] _ ns, of s]
  show ?thesis
    by (fastforce simp: body_holds_def chunk_state_def split: Transfer.splits)
qed

theorem length_body_exact_witness:
  "\<exists>s'. reads (body_read script_line) [2, 2, 2, 2] \<lparr>bd_reader = \<lparr>sc_buf = [1], sc_free = 60, sc_rest = [[2, 3, 4]]\<rparr>,
      bd_transfer = TLength 3, bd_reusable = False\<rparr> = Some (Ok [1, 2, 3], s')"
proof -
  let ?s = "\<lparr>bd_reader = \<lparr>sc_buf = [1], sc_free = 60, sc_rest = [[2, 3, 4]]\<rparr>, bd_transfer = TLength 3, bd_reusable = False\<rparr>"
  have "\<exists>s'. reads (body_read script_line) [2, 2, 2, 2] ?s = Some (Ok [1, 2, 3], s')
      \<and> pending script_line script_incoming (bd_reader s') = [4]"
    by (rule length_body_exact [OF script_line.line_source_axioms]) (simp_all add: max_hex_def)
  then show ?thesis by blast
qed

text \<open>C28: If the connection ends before the announced length, reading ends with the error \<open>PartialFile\<close>,
  never as a short body.\<close>

theorem length_body_truncated:
  assumes "line_source E incoming" and "bd_transfer s = TLength v"
    and "length (pending E incoming (bd_reader s)) < unat v"
    and "\<forall>n\<in>set ns. 0 < n" and "length (pending E incoming (bd_reader s)) < length ns"
  shows "\<exists>s'. reads (body_read E) ns s = Some (Err (UrlE PartialFile), s')"
  by (rule reads_truncated [OF assms])

theorem length_body_truncated_witness:
  "\<exists>s'. reads (body_read script_line) [9, 9, 9] \<lparr>bd_reader = \<lparr>sc_buf = [1], sc_free = 60, sc_rest = [[2]]\<rparr>,
      bd_transfer = TLength 3, bd_reusable = False\<rparr> = Some (Err (UrlE PartialFile), s')"
  by (rule length_body_truncated [OF script_line.line_source_axioms, where v = 3]) simp_all

text \<open>C29: Every read of a body returns, whatever the peer sends: it does not panic, loop forever or store
  more than the buffer holds.\<close>

theorem body_read_returns:
  assumes "line_source E incoming"
  shows "\<exists>res s'. body_read E n s = Some (res, s') \<and> res \<noteq> Panic
    \<and> (\<forall>data. res = Ok data \<longrightarrow> length data \<le> n)"
  using line_source.body_read_total [OF assms] by (auto simp: bounded_read_def)

theorem body_read_returns_witness:
  "\<exists>res s'. body_read script_line 8 \<lparr>bd_reader = \<lparr>sc_buf = lit ''zz'', sc_free = 0, sc_rest = []\<rparr>,
      bd_transfer = TChunks CSize, bd_reusable = False\<rparr> = Some (res, s') \<and> res \<noteq> Panic"
  using body_read_returns [OF script_line.line_source_axioms] by blast

text \<open>The trailers behind the last chunk are returned as headers, and the body is then empty.\<close>

theorem read_trailers_result:
  assumes "http_parser E incoming H plain" and "bd_transfer s = TTrailers"
    and "br_buffer E (bd_reader s) = header_wire kvs @ crlf @ rest" and "\<forall>kv\<in>set kvs. header_ok kv"
  shows "\<exists>r'. read_trailers E H s = Some (Ok (insert_all H kvs (hl_new H)), s\<lparr>bd_reader := r', bd_transfer := TEmpty\<rparr>)
    \<and> br_buffer E r' = rest"
  using read_trailers_loop_wire [OF assms] by (auto simp: read_trailers_def)

theorem read_trailers_result_witness:
  "\<exists>r'. read_trailers script_line alist_lib \<lparr>bd_reader = \<lparr>sc_buf = lit ''x: y'' @ crlf @ crlf, sc_free = 0, sc_rest = []\<rparr>,
      bd_transfer = TTrailers, bd_reusable = False\<rparr>
    = Some (Ok [(lit ''x'', lit ''y'')], \<lparr>bd_reader = r', bd_transfer = TEmpty, bd_reusable = False\<rparr>)"
proof -
  let ?kvs = "[(lit ''x'', lit ''y'')]"
  let ?s = "\<lparr>bd_reader = \<lparr>sc_buf = lit ''x: y'' @ crlf @ crlf, sc_free = 0, sc_rest = []\<rparr>,
      bd_transfer = TTrailers, bd_reusable = False\<rparr>"
  have "br_buffer script_line (bd_reader ?s) = header_wire ?kvs @ crlf @ []"
    by (simp add: header_wire_def header_line_def)
  moreover have "\<forall>kv\<in>set ?kvs. header_ok kv"
    by (simp add: header_ok_def token_def token_byte_def field_byte_def visible_def in_range_def word_le_nat_alt)
  ultimately have "\<exists>r'. read_trailers script_line alist_lib ?s
      = Some (Ok (insert_all alist_lib ?kvs (hl_new alist_lib)), ?s\<lparr>bd_reader := r', bd_transfer := TEmpty\<rparr>)"
    using read_trailers_result [OF http_script.http_parser_axioms, of ?s ?kvs "[]"] by auto
  then show ?thesis
    by (simp add: insert_all_def alist_lib_def lower_def ascii_lower_def in_range_def word_le_nat_alt)
qed

end
