(* ===== verification/Http_Client.thy ===== *)
theory Http_Client
  imports Transfer_Laws Http_Body_Laws
begin

text \<open>
  The properties of \<open>transfer\<close> and \<open>Response::fetch\<close> (\<open>src/src/http/transfer.rs\<close>,
  \<open>http/response.rs\<close>), and a scripted environment on which their hypotheses hold.
\<close>

section \<open>Bodies on the wire\<close>

text \<open>\<open>carries t wire content tail\<close>: in the transfer \<open>t\<close> chosen for a response, \<open>wire\<close> is its \<open>content\<close> followed by
  what does not belong to the body (trailers, for a chunked one).\<close>

fun carries :: "Transfer \<Rightarrow> bytes \<Rightarrow> bytes \<Rightarrow> bytes \<Rightarrow> bool" where
  "carries TEmpty wire content tail \<longleftrightarrow> content = [] \<and> wire = tail"
| "carries (TLength v) wire content tail \<longleftrightarrow> wire = content @ tail \<and> length content = unat v"
| "carries (TChunks CSize) wire content tail \<longleftrightarrow>
     (\<exists>cs. (\<forall>ch\<in>set cs. chunk_ok ch) \<and> wire = chunk_wire cs @ tail \<and> content = concat (map snd cs))"
| "carries TConnection wire content tail \<longleftrightarrow> wire = content \<and> tail = []"
| "carries _ wire content tail \<longleftrightarrow> False"

lemma carries_holds:
  assumes "carries (bd_transfer s) (pending E incoming (bd_reader s)) content tail"
    and "max_hex \<le> br_capacity E (bd_reader s)"
  shows "body_holds E incoming tail s content"
proof (cases "bd_transfer s")
  case (TChunks st)
  with assms show ?thesis by (cases st) (auto simp: body_holds_def chunk_stream_wire)
qed (use assms in \<open>auto simp: body_holds_def\<close>)

text \<open>The body of a response, with the state of the system its reader works on.\<close>

definition body_in :: "'b Body \<Rightarrow> 'w \<Rightarrow> ('b \<times> 'w) Body" where
  "body_in body w = \<lparr>bd_reader = (bd_reader body, w), bd_transfer = bd_transfer body, bd_reusable = bd_reusable body\<rparr>"

context http_client
begin

lemma transfer_direct:
  assumes url: "rq_request request = Ok u" and host: "ensure_host X u request = Ok request1"
    and taken: "taken = request1\<lparr>rq_body := None\<rparr>"
    and ex: "exchange X taken u (rq_body request1) (hl_new (he_headers X)) w = Some (Ok (resp, reader, body), w')"
    and direct: "\<not> is_redirection (rr_status resp)"
  shows "transfer X (request, w) = Some (Ok (resp\<lparr>rr_url := None\<rparr>, reader), taken\<lparr>rq_body := body\<rparr>, w')"
proof -
  have fin: "io_zoom (\<lambda>s. rq_request (fst s)) (\<lambda>b s. ((fst s)\<lparr>rq_request := b\<rparr>, snd s)) finalize (request, w)
      = Some (Ok u, request, w)"
    using url by (cases request) (simp add: finalize_def io_zoom_def)
  have "next_url X taken u n u resp reader = Ok None" for n
    using direct by (simp add: next_url_def)
  then have "transfer_loop X taken u n u None (rq_body request1) (hl_new (he_headers X)) w =
      Some (Ok (resp\<lparr>rr_url := None\<rparr>, reader, body), w')" for n
    by (subst transfer_loop.simps) (simp add: io_bind_def ex io_lift_def io_return_def)
  then show ?thesis
    using host unfolding transfer_def by (simp add: io_bind_def fin Let_def taken)
qed

lemma fetch_holds:
  assumes url: "rq_request request = Ok u" and host: "ensure_host X u request = Ok request1"
    and taken: "taken = request1\<lparr>rq_body := None\<rparr>"
    and conn: "get_connection_for X taken u w = Some (Ok (conn, stats), w1)"
    and ans: "answers X sent incoming conn w1 (request_head X taken Http11 u @ payload_bytes (rq_body request1))
        (status_line ver code reason @ header_wire kvs @ crlf @ rest) later"
    and code: "code = [a, b, c]" "in_range 0x31 0x39 a" "in_range 0x30 0x39 b" "in_range 0x30 0x39 c"
    and reason: "\<forall>b\<in>set reason. field_byte b" and kvs: "\<forall>kv\<in>set kvs. header_ok kv"
    and ver: "ver \<noteq> Http09" "op_min_version (rq_options taken) \<le> ver" "ver \<le> op_max_version (rq_options taken)"
    and small: "length (status_line ver code reason @ header_wire kvs) \<le> unat (op_maximum_header_size (rq_options taken))"
    and status: "status = the (hl_status (he_headers X) code)" "\<not> is_redirection status"
    and headers: "headers = insert_all (he_headers X) kvs (hl_clear (he_headers X) (hl_new (he_headers X)))"
    and body: "body_new (he_headers X) () (rq_method taken) status headers = Ok kind"
    and content: "carries (bd_transfer kind) (rest @ later) content tail"
  shows "\<exists>resp w'. response_fetch X (request, w) = Some (Ok resp, taken\<lparr>rq_body := payload_after (rq_body request1)\<rparr>, w')
    \<and> rr_status (rp_response resp) = status \<and> rr_headers (rp_response resp) = headers
    \<and> rr_version (rp_response resp) = ver \<and> rr_url (rp_response resp) = None
    \<and> body_holds (he_lines X) incoming tail (body_in (rp_body resp) w') content"
proof -
  obtain resp reader w' where ex: "exchange X taken u (rq_body request1) (hl_new (he_headers X)) w =
      Some (Ok (resp, reader, payload_after (rq_body request1)), w')"
    and r: "rr_status resp = status" "rr_version resp = ver" "rr_headers resp = headers"
      "br_buffer (he_lines X) (reader, w') = rest" "incoming (reader, w') = later"
      "max_hex \<le> br_capacity (he_lines X) (reader, w')"
    using exchange_result [OF conn ans code reason kvs ver small, of "hl_new (he_headers X)"] status(1) headers by blast
  have t: "transfer X (request, w) = Some (Ok (resp\<lparr>rr_url := None\<rparr>, reader), taken\<lparr>rq_body := payload_after (rq_body request1)\<rparr>, w')"
    using transfer_direct [OF url host taken ex] status(2) r(1) by simp
  let ?body = "\<lparr>bd_reader = reader, bd_transfer = bd_transfer kind, bd_reusable = bd_reusable kind\<rparr>"
  have b: "body_new (he_headers X) reader (rq_method taken) status headers = Ok ?body"
    using body by (auto simp: body_new_def res_bind_Ok_iff)
  let ?s = "body_in ?body w'"
  have "body_holds (he_lines X) incoming tail ?s content"
    by (rule carries_holds) (use content r(4-6) in \<open>simp_all add: body_in_def pending_def\<close>)
  with t b r show ?thesis
    unfolding response_fetch_def by (simp add: io_bind_def)
qed

end

section \<open>The connections of a transfer\<close>

text \<open>
  \<open>transfer\<close> with another function in the place of its exchange with one URL; with \<open>exchange\<close> itself it is
  \<open>transfer\<close> (\<open>transfer_with_exchange\<close>).
\<close>

fun transfer_loop_with ::
  "('u \<Rightarrow> Payload option \<Rightarrow> 'm \<Rightarrow> ('w, ('u, 'm) RawResponse \<times> 'b \<times> Payload option) act) \<Rightarrow>
    ('w, 't, 'v, 'b, 'u, 'm, 'x) http_env_scheme \<Rightarrow> ('u, 'm) Request \<Rightarrow> 'u \<Rightarrow> nat \<Rightarrow> 'u \<Rightarrow> 'u option \<Rightarrow>
    Payload option \<Rightarrow> 'm \<Rightarrow> ('w, ('u, 'm) RawResponse \<times> 'b \<times> Payload option) act" where
  "transfer_loop_with ex X request req_url remaining url redirected body headers w =
     io_bind (ex url body headers) (\<lambda>(response, reader, body).
     io_bind (io_lift (next_url X request req_url remaining url response reader)) (\<lambda>nx.
     case (nx, remaining) of
       (Some new_url, Suc remaining) \<Rightarrow>
         transfer_loop_with ex X request req_url remaining new_url (Some new_url) body (rr_headers response)
     | _ \<Rightarrow> io_return (response\<lparr>rr_url := redirected\<rparr>, reader, body))) w"

declare transfer_loop_with.simps [simp del]

definition transfer_with ::
  "(('u, 'm) Request \<Rightarrow> 'u \<Rightarrow> Payload option \<Rightarrow> 'm \<Rightarrow> ('w, ('u, 'm) RawResponse \<times> 'b \<times> Payload option) act) \<Rightarrow>
    ('w, 't, 'v, 'b, 'u, 'm, 'x) http_env_scheme \<Rightarrow> (('u, 'm) Request \<times> 'w, ('u, 'm) RawResponse \<times> 'b) act" where
  "transfer_with ex X =
     io_bind (io_zoom (\<lambda>s. rq_request (fst s)) (\<lambda>b s. ((fst s)\<lparr>rq_request := b\<rparr>, snd s)) finalize) (\<lambda>req_url s.
     case ensure_host X req_url (fst s) of
       Err e \<Rightarrow> Some (Err e, s)
     | Panic \<Rightarrow> Some (Panic, s)
     | Ok request \<Rightarrow>
         (let taken = request\<lparr>rq_body := None\<rparr> in
          case transfer_loop_with (ex taken) X taken req_url (unat (op_follow_redirect (rq_options taken))) req_url None
              (rq_body request) (hl_new (he_headers X)) (snd s) of
            None \<Rightarrow> None
          | Some (Err e, w) \<Rightarrow> Some (Err e, taken, w)
          | Some (Panic, w) \<Rightarrow> Some (Panic, taken, w)
          | Some (Ok (response, reader, body), w) \<Rightarrow> Some (Ok (response, reader), taken\<lparr>rq_body := body\<rparr>, w)))"

lemma io_bind_cong_Ok:
  "m w = m' w \<Longrightarrow> (\<And>x w'. m w = Some (Ok x, w') \<Longrightarrow> f x w' = f' x w') \<Longrightarrow> io_bind m f w = io_bind m' f' w"
  by (cases "m' w") (auto simp: io_bind_def split: result.split)

text \<open>An exchange may be replaced by one that does the same for all URLs of the scheme of the request.\<close>

lemma transfer_loop_with_step:
  fixes ex :: "'u \<Rightarrow> Payload option \<Rightarrow> 'm \<Rightarrow> ('w, ('u, 'm) RawResponse \<times> 'b \<times> Payload option) act"
  assumes "ex url body headers w = exchange X request url body headers w"
    and same: "\<And>m v body headers w. n = Suc m \<Longrightarrow> ul_scheme (he_urls X) v = ul_scheme (he_urls X) req_url \<Longrightarrow>
      transfer_loop_with ex X request req_url m v (Some v) body headers w
        = transfer_loop X request req_url m v (Some v) body headers w"
  shows "transfer_loop_with ex X request req_url n url redirected body headers w
    = transfer_loop X request req_url n url redirected body headers w"
  unfolding transfer_loop.simps [of _ _ _ n] transfer_loop_with.simps [of _ _ _ _ n]
proof (rule io_bind_cong_Ok, rule assms(1), unfold split_paired_all prod.case, rule io_bind_cong_Ok, rule refl)
  fix w1 w2 :: 'w and nx response and reader :: 'b and body1 :: "Payload option"
  assume "io_lift (next_url X request req_url n url response reader) w1 = Some (Ok nx, w2)"
  then have nx: "next_url X request req_url n url response reader = Ok nx" by (simp add: io_lift_def)
  let ?stop = "io_return (response\<lparr>rr_url := redirected\<rparr>, reader, body1)"
  show "(case nx of None \<Rightarrow> ?stop | Some v \<Rightarrow> (case n of 0 \<Rightarrow> ?stop
      | Suc m \<Rightarrow> transfer_loop_with ex X request req_url m v (Some v) body1 (rr_headers response))) w2
    = (case nx of None \<Rightarrow> ?stop | Some v \<Rightarrow> (case n of 0 \<Rightarrow> ?stop
      | Suc m \<Rightarrow> transfer_loop X request req_url m v (Some v) body1 (rr_headers response))) w2"
  proof (cases nx)
    case (Some v)
    with next_url_Some [OF nx [unfolded Some]] have v: "ul_scheme (he_urls X) v = ul_scheme (he_urls X) req_url" by simp
    show ?thesis
    proof (cases n)
      case (Suc m)
      show ?thesis unfolding Some Suc by (simp add: same [OF Suc v])
    qed (simp add: Some)
  qed simp
qed

lemma transfer_loop_with_same:
  assumes same: "\<And>v body headers w. ul_scheme (he_urls X) v = ul_scheme (he_urls X) req_url \<Longrightarrow>
      ex v body headers w = exchange X request v body headers w"
  shows "ul_scheme (he_urls X) url = ul_scheme (he_urls X) req_url \<Longrightarrow>
    transfer_loop_with ex X request req_url n url redirected body headers w
      = transfer_loop X request req_url n url redirected body headers w"
proof (induction n arbitrary: url redirected body headers w)
  case 0
  show ?case by (rule transfer_loop_with_step, rule same, rule 0) simp
next
  case (Suc n)
  show ?case
  proof (rule transfer_loop_with_step, rule same, rule Suc.prems)
    fix m v body headers w
    assume "Suc n = Suc m"
    then have m: "m = n" by simp
    assume "ul_scheme (he_urls X) v = ul_scheme (he_urls X) req_url"
    then show "transfer_loop_with ex X request req_url m v (Some v) body headers w
      = transfer_loop X request req_url m v (Some v) body headers w"
      unfolding m by (rule Suc.IH)
  qed
qed

lemma transfer_with_same:
  assumes same: "\<And>u request v body headers w. rq_request (fst s) = Ok u \<Longrightarrow> ensure_host X u (fst s) = Ok request \<Longrightarrow>
      ul_scheme (he_urls X) v = ul_scheme (he_urls X) u \<Longrightarrow>
      ex (request\<lparr>rq_body := None\<rparr>) v body headers w = exchange X (request\<lparr>rq_body := None\<rparr>) v body headers w"
  shows "transfer_with ex X s = transfer X s"
  unfolding transfer_with_def transfer_def
proof (rule io_bind_cong_Ok, rule refl)
  fix u s'
  assume "io_zoom (\<lambda>s. rq_request (fst s)) (\<lambda>b s. ((fst s)\<lparr>rq_request := b\<rparr>, snd s)) finalize s = Some (Ok u, s')"
  then have u: "rq_request (fst s) = Ok u" and s': "s' = s"
    by (cases "rq_request (fst s)"; cases s; auto simp: finalize_def io_zoom_def)+
  show "(case ensure_host X u (fst s') of
       Err e \<Rightarrow> Some (Err e, s')
     | Panic \<Rightarrow> Some (Panic, s')
     | Ok request \<Rightarrow>
         (let taken = request\<lparr>rq_body := None\<rparr> in
          case transfer_loop_with (ex taken) X taken u (unat (op_follow_redirect (rq_options taken))) u None
              (rq_body request) (hl_new (he_headers X)) (snd s') of
            None \<Rightarrow> None
          | Some (Err e, w) \<Rightarrow> Some (Err e, taken, w)
          | Some (Panic, w) \<Rightarrow> Some (Panic, taken, w)
          | Some (Ok (response, reader, body), w) \<Rightarrow> Some (Ok (response, reader), taken\<lparr>rq_body := body\<rparr>, w)))
    = (case ensure_host X u (fst s') of
       Err e \<Rightarrow> Some (Err e, s')
     | Panic \<Rightarrow> Some (Panic, s')
     | Ok request \<Rightarrow>
         (let taken = request\<lparr>rq_body := None\<rparr> in
          case transfer_loop X taken u (unat (op_follow_redirect (rq_options taken))) u None (rq_body request)
              (hl_new (he_headers X)) (snd s') of
            None \<Rightarrow> None
          | Some (Err e, w) \<Rightarrow> Some (Err e, taken, w)
          | Some (Panic, w) \<Rightarrow> Some (Panic, taken, w)
          | Some (Ok (response, reader, body), w) \<Rightarrow> Some (Ok (response, reader), taken\<lparr>rq_body := body\<rparr>, w)))"
  proof (cases "ensure_host X u (fst s)")
    case (Ok request)
    from same [OF u Ok] have "transfer_loop_with (ex (request\<lparr>rq_body := None\<rparr>)) X (request\<lparr>rq_body := None\<rparr>) u n u None body headers w
        = transfer_loop X (request\<lparr>rq_body := None\<rparr>) u n u None body headers w" for n body headers w
      by (intro transfer_loop_with_same) simp_all
    with Ok show ?thesis by (simp add: s' Let_def)
  qed (simp_all add: s')
qed

lemma transfer_with_exchange: "transfer_with (exchange X) X s = transfer X s"
  by (rule transfer_with_same) simp

text \<open>The connection to a URL is the right one: TLS with its handshake done for \<open>https\<close>, and plain only for \<open>http\<close>.\<close>

fun connection_fits :: "('w, 't, 'v, 'b, 'u, 'm, 'x) http_env_scheme \<Rightarrow> 'u \<Rightarrow> 't HttpConn \<Rightarrow> bool" where
  "connection_fits X url (SecureConn c) \<longleftrightarrow>
     ul_scheme (he_urls X) url = lit ''https'' \<and> \<not> tl_is_handshaking (he_tls X) (tc_tls c)"
| "connection_fits X url (PlainConn s) \<longleftrightarrow> ul_scheme (he_urls X) url = lit ''http''"

text \<open>An exchange that does not happen on any other connection.\<close>

definition checked_exchange ::
  "('w, 't, 'v, 'b, 'u, 'm, 'x) http_env_scheme \<Rightarrow> ('u, 'm) Request \<Rightarrow> 'u \<Rightarrow> Payload option \<Rightarrow> 'm \<Rightarrow>
    ('w, ('u, 'm) RawResponse \<times> 'b \<times> Payload option) act" where
  "checked_exchange X request url body headers w =
     (case get_connection_for X request url w of
        Some (Ok (conn, stats), w') \<Rightarrow>
          if connection_fits X url conn then exchange X request url body headers w else Some (Panic, w)
      | _ \<Rightarrow> exchange X request url body headers w)"

section \<open>A scripted environment\<close>

text \<open>
  \<open>hw_sent s\<close> is what was written to socket \<open>s\<close>; \<open>server\<close> gives the segments of the answer to it. The
  toy TLS of theory \<open>Tls_Laws\<close> does not change the data, so a connection reads and writes through its
  socket. Nothing is sent yet on a new socket. A byte from the
  peer ends a handshake. A reader's buffer has 4096 bytes; the answer is fixed
  at its first read.
\<close>

record http_world = tls_world +
  hw_sent :: "sock \<Rightarrow> bytes"

record toy_reader =
  tr_conn :: "toy_tls HttpConn"
  tr_buf :: bytes
  tr_free :: nat
  tr_rest :: "bytes list option"

fun conn_sock :: "'t HttpConn \<Rightarrow> sock" where
  "conn_sock (PlainConn s) = s"
| "conn_sock (SecureConn c) = tc_connection c"

definition reader_view :: "(bytes \<Rightarrow> bytes list) \<Rightarrow> toy_reader \<times> http_world \<Rightarrow> script" where
  "reader_view server s = \<lparr>sc_buf = tr_buf (fst s), sc_free = tr_free (fst s),
     sc_rest = (case tr_rest (fst s) of Some rest \<Rightarrow> rest | None \<Rightarrow> server (hw_sent (snd s) (conn_sock (tr_conn (fst s)))))\<rparr>"

definition reader_put :: "script \<Rightarrow> toy_reader \<times> http_world \<Rightarrow> toy_reader \<times> http_world" where
  "reader_put t s = ((fst s)\<lparr>tr_buf := sc_buf t, tr_free := sc_free t, tr_rest := Some (sc_rest t)\<rparr>, snd s)"

definition toy_lines :: "(bytes \<Rightarrow> bytes list) \<Rightarrow> (toy_reader \<times> http_world) line_env" where
  "toy_lines server = buf_read.extend (lift_reader (reader_view server) reader_put script_ops)
     \<lparr>le_memchr = (\<lambda>c. position (\<lambda>b. b = c)), \<dots> = ()\<rparr>"

definition toy_conns :: "(http_world, toy_tls, toy_tls HttpConn, toy_reader) conn_lib" where
  "toy_conns = \<lparr>cl_writer = (\<lambda>c. c),
     cl_write = (\<lambda>data (c, w). Some (Ok (), c, w\<lparr>hw_sent := (hw_sent w)(conn_sock c := hw_sent w (conn_sock c) @ data)\<rparr>)),
     cl_flush = io_return (), cl_into_conn = (\<lambda>c. c),
     cl_reader = (\<lambda>c. \<lparr>tr_conn = c, tr_buf = [], tr_free = 4096, tr_rest = None\<rparr>)\<rparr>"

definition toy_tcp :: "http_world net_lib" where
  "toy_tcp = (script_net (\<lambda>_ _. None))\<lparr>nl_socket := (\<lambda>ip port w. Some (Ok (nw_sockets w),
     w\<lparr>nw_sockets := Suc (nw_sockets w), hw_sent := (hw_sent w)(nw_sockets w := [])\<rparr>)),
     nl_recv := (\<lambda>s n now. io_return [2])\<rparr>"

definition toy_http ::
  "(bytes \<Rightarrow> bytes list) \<Rightarrow> (http_world, toy_tls, toy_tls HttpConn, toy_reader, bytes, (bytes \<times> bytes) list) http_env" where
  "toy_http server = \<lparr>he_urls = toy_urls, he_headers = alist_lib, he_lines = toy_lines server, he_net = toy_tcp,
     he_tls = toy_tls_lib, he_conns = toy_conns, he_resolver = two_addresses, he_tls_config = 0\<rparr>"

lemma toy_http_net: "he_net (toy_http server) = toy_tcp"
  by (simp add: toy_http_def)

definition toy_sent :: "toy_tls HttpConn \<times> http_world \<Rightarrow> bytes" where
  "toy_sent s = hw_sent (snd s) (conn_sock (fst s))"

definition toy_incoming :: "(bytes \<Rightarrow> bytes list) \<Rightarrow> toy_reader \<times> http_world \<Rightarrow> bytes" where
  "toy_incoming server s = script_incoming (reader_view server s)"

lemma toy_lines_source: "line_source (toy_lines server) (toy_incoming server)"
proof (rule line_source.intro)
  have "byte_source (lift_reader (reader_view server) reader_put script_ops) (\<lambda>s. script_incoming (reader_view server s))"
    by (rule byte_source_lift [OF script.byte_source_axioms]) (simp add: reader_view_def reader_put_def)
  then show "byte_source (toy_lines server) (toy_incoming server)"
    unfolding toy_lines_def toy_incoming_def [abs_def] by (rule byte_source_extend)
  show "line_source_axioms (toy_lines server)"
    by unfold_locales (simp add: toy_lines_def buf_read.defs)
qed

interpretation toy_http: http_client "toy_http server" toy_sent "toy_incoming server" "\<lambda>m. distinct (map fst m)" for server
proof (rule http_client.intro)
  show "http_writer (toy_http server) toy_sent"
    by unfold_locales (auto simp: toy_http_def toy_conns_def toy_sent_def toy_tcp_def script_net_def io_simps)
  show "http_parser (he_lines (toy_http server)) (toy_incoming server) (he_headers (toy_http server)) (\<lambda>m. distinct (map fst m))"
    using toy_lines_source alist.header_map_axioms by (simp add: toy_http_def http_parser_def)
qed

text \<open>Requests to it.\<close>

definition toy_world :: http_world where
  "toy_world = \<lparr>nw_events = [], nw_sockets = 0, tw_sent = [], tw_room = 0, hw_sent = (\<lambda>_. [])\<rparr>"

lemma toy_tcp_connect:
  assumes "op_timeout (rq_options request) = None"
    and "op_strategy (rq_options request) = IpDefault" and "host = drop 3 url" and "host = 0x70 # t"
  shows "\<exists>s stats w'. connect_stats toy_tcp (connection_options (toy_http server) request url host) w = Some (Ok (s, stats), w')
    \<and> hw_sent w' s = []"
proof -
  let ?o = "connection_options (toy_http server) request url host"
  have r: "resolve_ips toy_tcp two_addresses host w = Some (Ok \<lparr>li_v4 = [1, 2], li_v6 = []\<rparr>, w)" for w
    using assms(4) ip_parse_letter [of "0x70" t]
    by (simp add: resolve_ips_def resolve_ips_lookup_def numeral_3_eq_3 toy_tcp_def script_net_def two_addresses_def
        address_query_def io_simps note_answer_def Answer_new_def push_records_def push_record_def LookupIp_default_def
        to_digit_def in_range_def word_le_nat_alt)
  have o1: "co_host ?o = host" "co_resolver ?o = two_addresses" "co_timeout ?o = None" "co_strategy ?o = IpDefault"
    using assms by (auto simp: connection_options_def Let_def with_resolver_def set_strategy_def set_timeout_def
        set_tcp_nodelay_def set_tcp_keepalive_def set_recvbuf_size_def set_sendbuf_size_def set_port_def toy_http_def
        split: option.splits)
  have opts: "\<exists>w'. set_options toy_tcp options s w = Some (Ok (), w') \<and> hw_sent w' = hw_sent w"
    for options s and w :: http_world
    by (cases "co_recvbuf_size options"; cases "co_sendbuf_size options"; cases "co_tcp_nodelay options";
        cases "co_tcp_keepalive options")
      (simp_all add: set_options_def if_some_def toy_tcp_def script_net_def log_event_def io_simps)
  let ?s = "nw_sockets w"
  let ?w = "w\<lparr>nw_events := nw_events w @ [EvConnect ?s (V4 1) (co_port ?o)], nw_sockets := Suc ?s,
      hw_sent := (hw_sent w)(?s := [])\<rparr>"
  have "connect_to toy_tcp ?o \<lparr>li_v4 = [1, 2], li_v6 = []\<rparr> (w, st) =
      Some (Ok ?s, ?w, st\<lparr>cs_tcp_tries := cs_tcp_tries st + 1, cs_tcp_connect := 1\<rparr>)" for st
    by (simp add: connect_to_def Let_def o1 connect_addrs_def toy_tcp_def script_net_def log_event_def on_net_def on_stats_def
        elapsed_def io_simps)
  moreover obtain w' where w': "set_options toy_tcp ?o ?s ?w = Some (Ok (), w')" "hw_sent w' = hw_sent ?w"
    using opts by blast
  ultimately obtain st where "connect_stats toy_tcp ?o w = Some (Ok (?s, st), w')"
    by (simp add: connect_stats_def o1 r connect_timed_def io_bind_def io_lift_def io_return_def)
  moreover have "hw_sent w' ?s = []" using w'(2) by simp
  ultimately show ?thesis by blast
qed

lemma toy_connect:
  assumes "op_secure (rq_options request) = False" and "op_timeout (rq_options request) = None"
    and "op_strategy (rq_options request) = IpDefault" and "host = drop 3 url" and "host = 0x70 # t"
  shows "\<exists>s stats w'. get_connection_for (toy_http server) request url w = Some (Ok (PlainConn s, stats), w')
    \<and> hw_sent w' s = []"
proof -
  obtain s stats w' where "connect_stats toy_tcp (connection_options (toy_http server) request url host) w = Some (Ok (s, stats), w')"
    "hw_sent w' s = []" using toy_tcp_connect [OF assms(2-5)] by blast
  moreover have "ul_host_str (he_urls (toy_http server)) url = Some host"
    using assms(4) by (simp add: toy_http_def toy_urls_def)
  ultimately show ?thesis
    using assms(1) by (simp add: get_connection_for_def Let_def io_bind_def io_return_def toy_http_net)
qed

lemma toy_tls_connect:
  "\<exists>stats'. tls_connect toy_tcp toy_tls_lib s stats (w, \<lparr>tt_out = [1], tt_in = [], tt_plain = [], tt_handshaking = True\<rparr>)
    = Some (Ok stats', (w, \<lparr>tt_out = [], tt_in = [], tt_plain = [2], tt_handshaking = False\<rparr>))"
proof -
  have "handshake_loop toy_tcp toy_tls_lib s False (w, \<lparr>tt_out = [1], tt_in = [], tt_plain = [], tt_handshaking = True\<rparr>)
      = Some (Ok (), (w, \<lparr>tt_out = [], tt_in = [], tt_plain = [2], tt_handshaking = False\<rparr>))"
    by (subst handshake_loop.simps)
      (simp add: handshake_step_def handshake_read_def toy_tcp_def script_net_def toy_tls_lib_def io_simps on_conn_def on_tls_def
        io_bind_def Let_def)
  then show ?thesis by (simp add: tls_connect_def io_bind_def io_get_def)
qed

lemma toy_secure_connect:
  assumes "op_secure (rq_options request)" and "op_timeout (rq_options request) = None"
    and "op_strategy (rq_options request) = IpDefault" and "host = drop 3 url" and "host = 0x70 # t"
  shows "\<exists>c stats w'. get_connection_for (toy_http server) request url w = Some (Ok (SecureConn c, stats), w')
    \<and> hw_sent w' (tc_connection c) = []"
proof -
  let ?o = "connection_options (toy_http server) request url host"
  obtain s stats w' where c: "connect_stats toy_tcp ?o w = Some (Ok (s, stats), w')"
    "hw_sent w' s = []" using toy_tcp_connect [OF assms(2-5)] by blast
  obtain stats' where t: "tls_connect toy_tcp toy_tls_lib s (tls_stats_from stats)
        (w', \<lparr>tt_out = [1], tt_in = [], tt_plain = [], tt_handshaking = True\<rparr>)
      = Some (Ok stats', (w', \<lparr>tt_out = [], tt_in = [], tt_plain = [2], tt_handshaking = False\<rparr>))"
    using toy_tls_connect by blast
  have "co_host ?o \<noteq> []"
    using assms(5) by (auto simp: connection_options_def Let_def with_resolver_def set_strategy_def set_timeout_def
        set_tcp_nodelay_def set_tcp_keepalive_def set_recvbuf_size_def set_sendbuf_size_def set_port_def split: option.splits)
  then have "res_bind (tl_server_name (toy_tls_lib :: (http_world, toy_tls) tls_io) (co_host ?o)) (tl_new (toy_tls_lib :: (http_world, toy_tls) tls_io) config)
      = Ok \<lparr>tt_out = [1], tt_in = [], tt_plain = [], tt_handshaking = True\<rparr>" for config
    by (simp add: toy_tls_lib_def)
  then have "tls_connect_stats_config toy_tcp toy_tls_lib ?o config w = Some (Ok (\<lparr>tc_connection = s,
      tc_tls = \<lparr>tt_out = [], tt_in = [], tt_plain = [2], tt_handshaking = False\<rparr>\<rparr>, stats'), w')" for config
    using c(1) t by (simp add: tls_connect_stats_config_def io_bind_def io_lift_def)
  moreover have "ul_host_str (he_urls (toy_http server)) url = Some host"
    using assms(4) by (simp add: toy_http_def toy_urls_def)
  moreover have "he_tls (toy_http server) = toy_tls_lib" by (simp add: toy_http_def)
  ultimately show ?thesis
    using assms(1) c(2) by (simp add: get_connection_for_def Let_def io_bind_def io_return_def toy_http_net)
qed

lemma toy_answers:
  assumes "hw_sent w (conn_sock conn) = []" and "server request = [response]" and "response \<noteq> []"
    and "length response \<le> 4096"
  shows "answers (toy_http server) toy_sent (toy_incoming server) conn w request response []"
proof -
  have "\<exists>n r. br_fill (toy_lines server) (\<lparr>tr_conn = conn, tr_buf = [], tr_free = 4096, tr_rest = None\<rparr>, w') = Some (Ok n, r)
      \<and> br_buffer (toy_lines server) r = response \<and> toy_incoming server r = [] \<and> max_hex \<le> br_capacity (toy_lines server) r"
    if "hw_sent w' (conn_sock conn) = request" for w'
  proof -
    obtain x xs where "response = x # xs" using assms(3) by (cases response) auto
    then have seg: "next_segment 4096 [response] = (response, [[]])" using assms(4) by simp
    show ?thesis
      using that assms(2,4) seg
      by (simp add: toy_lines_def buf_read.defs lift_reader_def script_ops_def reader_view_def reader_put_def io_zoom_def
          script_fill_def toy_incoming_def script_incoming_def max_hex_def)
  qed
  with assms(1) show ?thesis
    by (simp add: answers_def toy_http_def toy_conns_def toy_sent_def)
qed

text \<open>A server that answers every request with the same head.\<close>

lemma toy_exchange:
  assumes "op_timeout (rq_options request) = None"
    and "op_strategy (rq_options request) = IpDefault" and "drop 3 url = 0x70 # t"
    and "op_min_version (rq_options request) = Http10" and "op_max_version (rq_options request) = Http11"
    and reply: "reply = status_line Http11 code reason @ header_wire kvs @ crlf @ rest" "length reply \<le> 4096"
    and code: "code = [a, b, c]" "in_range 0x31 0x39 a" "in_range 0x30 0x39 b" "in_range 0x30 0x39 c"
    and reason: "\<forall>b\<in>set reason. field_byte b" and kvs: "\<forall>kv\<in>set kvs. header_ok kv"
    and small: "4096 \<le> unat (op_maximum_header_size (rq_options request))"
  shows "\<exists>resp reader w'. exchange (toy_http (\<lambda>_. [reply])) request url body headers w = Some (Ok (resp, reader, payload_after body), w')
    \<and> rr_status resp = the (status_of_digits code) \<and> rr_headers resp = insert_all alist_lib kvs []"
proof -
  obtain c stats w1 where conn: "get_connection_for (toy_http (\<lambda>_. [reply])) request url w = Some (Ok (c, stats), w1)"
    "hw_sent w1 (conn_sock c) = []"
    using toy_connect [OF _ assms(1,2) refl assms(3)] toy_secure_connect [OF _ assms(1,2) refl assms(3)]
    by (cases "op_secure (rq_options request)") (metis conn_sock.simps)+
  have "reply \<noteq> []" by (simp add: reply(1) status_line_def)
  then have ans: "answers (toy_http (\<lambda>_. [reply])) toy_sent (toy_incoming (\<lambda>_. [reply])) c w1
      (request_head (toy_http (\<lambda>_. [reply])) request Http11 url @ payload_bytes body)
      (status_line Http11 code reason @ header_wire kvs @ crlf @ rest) []"
    using toy_answers [of w1 c "\<lambda>_. [reply]" _ reply] conn(2) reply(2) unfolding reply(1) by simp
  have "length (status_line Http11 code reason @ header_wire kvs) \<le> unat (op_maximum_header_size (rq_options request))"
    using reply small by simp
  from toy_http.exchange_result [OF conn(1) ans code reason kvs _ _ _ this, of headers] assms(4,5)
  show ?thesis
    by (auto simp: toy_http_def alist_lib_def less_eq_Version_def)
qed

text \<open>A server that answers with two bytes, and the hypotheses of the properties of \<open>fetch\<close> for it.\<close>

definition toy_reply :: bytes where
  "toy_reply = status_line Http11 (lit ''200'') (lit ''OK'') @ header_wire [(lit ''Content-Length'', lit ''2'')] @ crlf @ lit ''hi''"

abbreviation toy_site :: "(http_world, toy_tls, toy_tls HttpConn, toy_reader, bytes, (bytes \<times> bytes) list) http_env" where
  "toy_site \<equiv> toy_http (\<lambda>_. [toy_reply])"

definition toy_request :: "(bytes, (bytes \<times> bytes) list) Request" where
  "toy_request = \<lparr>rq_options = Options_new, rq_request = Ok (lit ''http:x''), rq_method = lit ''GET'', rq_headers = [], rq_body = None\<rparr>"

definition toy_prepared :: "(bytes, (bytes \<times> bytes) list) Request" where
  "toy_prepared = toy_request\<lparr>rq_headers := [(lit ''host'', lit ''p:x'')]\<rparr>"

lemma toy_get: "http_get toy_urls alist_lib (lit ''http:x'') = toy_request"
  by (simp add: toy_request_def http_get_def new_request_def set_secure_if_def Request_new_def request_base_new_def
      toy_urls_def request_url_def Let_def alist_lib_def)

lemma toy_prepare: "ensure_host toy_site (lit ''http:x'') toy_request = Ok toy_prepared"
  by (simp add: toy_prepared_def toy_request_def ensure_host_def headers_contains_key_def headers_insert_def toy_http_def
      alist_lib_def toy_urls_def field_byte_def in_range_def word_le_nat_alt)

lemma toy_site_answers:
  obtains s stats w1 where
    "get_connection_for toy_site (toy_prepared\<lparr>rq_body := None\<rparr>) (lit ''http:x'') toy_world = Some (Ok (PlainConn s, stats), w1)"
    and "answers toy_site toy_sent (toy_incoming (\<lambda>_. [toy_reply])) (PlainConn s) w1
      (request_head toy_site (toy_prepared\<lparr>rq_body := None\<rparr>) Http11 (lit ''http:x'') @ payload_bytes (rq_body toy_prepared))
      (status_line Http11 (lit ''200'') (lit ''OK'') @ header_wire [(lit ''Content-Length'', lit ''2'')] @ crlf @ lit ''hi'') []"
proof -
  let ?t = "toy_prepared\<lparr>rq_body := None\<rparr>" and ?u = "lit ''http:x''"
  obtain s stats w1 where conn: "get_connection_for toy_site ?t ?u toy_world = Some (Ok (PlainConn s, stats), w1)" "hw_sent w1 s = []"
    using toy_connect [of ?t "lit ''p:x''" ?u "lit '':x''" "\<lambda>_. [toy_reply]" toy_world]
    by (auto simp: toy_prepared_def toy_request_def Options_new_def)
  have "answers toy_site toy_sent (toy_incoming (\<lambda>_. [toy_reply])) (PlainConn s) w1
      (request_head toy_site ?t Http11 ?u @ payload_bytes (rq_body toy_prepared)) toy_reply []"
    using toy_answers [of w1 "PlainConn s" "\<lambda>_. [toy_reply]" _ toy_reply] conn(2)
    by (simp add: toy_reply_def status_line_def header_wire_def header_line_def crlf_def)
  with conn(1) show ?thesis using that by (simp only: toy_reply_def)
qed

lemma toy_response:
  defines "H \<equiv> he_headers toy_site" and "kvs \<equiv> [(lit ''Content-Length'', lit ''2'')]"
  shows toy_status: "the (hl_status H (lit ''200'')) = 200"
    and toy_headers: "insert_all H kvs (hl_clear H (hl_new H)) = [(lit ''content-length'', lit ''2'')]"
    and toy_kind: "body_new H () (rq_method (toy_prepared\<lparr>rq_body := None\<rparr>)) 200 [(lit ''content-length'', lit ''2'')] =
      Ok \<lparr>bd_reader = (), bd_transfer = TLength 2, bd_reusable = False\<rparr>"
proof -
  have H: "H = alist_lib" by (simp add: H_def toy_http_def)
  show "the (hl_status H (lit ''200'')) = 200"
    by (simp add: H alist_lib_def status_of_digits_def in_range_def word_le_nat_alt)
  show "insert_all H kvs (hl_clear H (hl_new H)) = [(lit ''content-length'', lit ''2'')]"
    by (simp add: H kvs_def insert_all_def alist_lib_def lower_def ascii_lower_def in_range_def word_le_nat_alt)
  show "body_new H () (rq_method (toy_prepared\<lparr>rq_body := None\<rparr>)) 200 [(lit ''content-length'', lit ''2'')] =
      Ok \<lparr>bd_reader = (), bd_transfer = TLength 2, bd_reusable = False\<rparr>"
    by (simp add: H body_new_def body_transfer_def bodyless_def toy_prepared_def toy_request_def headers_get_str_def alist_lib_def
        field_byte_def in_range_def word_le_nat_alt u64_parse_def u64_from_str_radix_def to_digit_def u64_max_def)
qed

section \<open>Properties\<close>

text \<open>C2: A request whose server answers with a well-formed head, in the version range and size allowed, and a
  status that is not a redirection: \<open>fetch\<close> gives the status, version and headers sent, and reading its
  body, in buffers of any sizes, gives the content for each of the ways a body is delimited (none,
  \<open>Content-Length\<close>, chunked, end of the connection).\<close>

theorem fetch_result:
  assumes client: "http_client X sent incoming plain"
    and url: "rq_request request = Ok u" and host: "ensure_host X u request = Ok request1"
    and taken: "taken = request1\<lparr>rq_body := None\<rparr>"
    and conn: "get_connection_for X taken u w = Some (Ok (conn, stats), w1)"
    and ans: "answers X sent incoming conn w1 (request_head X taken Http11 u @ payload_bytes (rq_body request1))
        (status_line ver code reason @ header_wire kvs @ crlf @ rest) later"
    and code: "code = [a, b, c]" "in_range 0x31 0x39 a" "in_range 0x30 0x39 b" "in_range 0x30 0x39 c"
    and reason: "\<forall>b\<in>set reason. field_byte b" and kvs: "\<forall>kv\<in>set kvs. header_ok kv"
    and ver: "ver \<noteq> Http09" "op_min_version (rq_options taken) \<le> ver" "ver \<le> op_max_version (rq_options taken)"
    and small: "length (status_line ver code reason @ header_wire kvs) \<le> unat (op_maximum_header_size (rq_options taken))"
    and status: "status = the (hl_status (he_headers X) code)" "\<not> is_redirection status"
    and headers: "headers = insert_all (he_headers X) kvs (hl_clear (he_headers X) (hl_new (he_headers X)))"
    and body: "body_new (he_headers X) () (rq_method taken) status headers = Ok kind"
    and content: "carries (bd_transfer kind) (rest @ later) content tail"
    and ns: "\<forall>n\<in>set ns. 0 < n" "length content < length ns"
  shows "\<exists>resp w' s'. response_fetch X (request, w) = Some (Ok resp, taken\<lparr>rq_body := payload_after (rq_body request1)\<rparr>, w')
    \<and> rr_status (rp_response resp) = status \<and> rr_headers (rp_response resp) = headers
    \<and> rr_version (rp_response resp) = ver \<and> rr_url (rp_response resp) = None
    \<and> reads (body_read (he_lines X)) ns (body_in (rp_body resp) w') = Some (Ok content, s')"
proof -
  obtain resp w' where f: "response_fetch X (request, w) = Some (Ok resp, taken\<lparr>rq_body := payload_after (rq_body request1)\<rparr>, w')"
    "rr_status (rp_response resp) = status" "rr_headers (rp_response resp) = headers" "rr_version (rp_response resp) = ver"
    "rr_url (rp_response resp) = None" "body_holds (he_lines X) incoming tail (body_in (rp_body resp) w') content"
    using http_client.fetch_holds [OF client url host taken conn ans code reason kvs ver small status headers body content] by blast
  have "line_source (he_lines X) incoming" using client by (simp add: http_client_def http_parser_def)
  from read_stream.reads_all [OF line_source.body_read_stream [OF this] f(6) ns] f show ?thesis by blast
qed

theorem fetch_result_witness:
  "\<exists>resp w' s' r. response_fetch toy_site (http_get toy_urls alist_lib (lit ''http:x''), toy_world)
      = Some (Ok resp, r, w') \<and> rr_status (rp_response resp) = 200
    \<and> reads (body_read (toy_lines (\<lambda>_. [toy_reply]))) [1, 1, 1] (body_in (rp_body resp) w') = Some (Ok (lit ''hi''), s')"
proof -
  obtain s stats w1 where conn: "get_connection_for toy_site (toy_prepared\<lparr>rq_body := None\<rparr>) (lit ''http:x'') toy_world
      = Some (Ok (PlainConn s, stats), w1)"
    and ans: "answers toy_site toy_sent (toy_incoming (\<lambda>_. [toy_reply])) (PlainConn s) w1
      (request_head toy_site (toy_prepared\<lparr>rq_body := None\<rparr>) Http11 (lit ''http:x'') @ payload_bytes (rq_body toy_prepared))
      (status_line Http11 (lit ''200'') (lit ''OK'') @ header_wire [(lit ''Content-Length'', lit ''2'')] @ crlf @ lit ''hi'') []"
    by (rule toy_site_answers)
  have cont: "carries (TLength 2) (lit ''hi'' @ []) (lit ''hi'') []" by simp
  have "\<exists>resp w' s'. response_fetch toy_site (toy_request, toy_world)
        = Some (Ok resp, toy_prepared\<lparr>rq_body := None\<rparr>\<lparr>rq_body := payload_after (rq_body toy_prepared)\<rparr>, w')
      \<and> rr_status (rp_response resp) = 200 \<and> rr_headers (rp_response resp) = [(lit ''content-length'', lit ''2'')]
      \<and> rr_version (rp_response resp) = Http11 \<and> rr_url (rp_response resp) = None
      \<and> reads (body_read (he_lines toy_site)) [1, 1, 1] (body_in (rp_body resp) w') = Some (Ok (lit ''hi''), s')"
    by (rule fetch_result [where a = "0x32" and b = "0x30" and c = "0x30" and tail = "[]", OF toy_http.http_client_axioms _ toy_prepare refl
          conn ans _ _ _ _ _ _ _ _ _ _ toy_status [symmetric] _ toy_headers [symmetric] toy_kind])
      (simp_all add: toy_prepared_def toy_request_def Options_new_def in_range_def word_le_nat_alt field_byte_def header_ok_def
        token_def token_byte_def visible_def less_eq_Version_def DEFAULT_MAXIMUM_HEADER_SIZE_def status_line_def header_wire_def
        header_line_def crlf_def is_redirection_def)
  then show ?thesis unfolding toy_get by (simp add: toy_http_def) blast
qed

text \<open>C9: A transfer that succeeds followed at most \<open>follow_redirect\<close> redirects, each to a URL that some
  location gives when it is joined to the URL before it, and none to another scheme; the response is the answer of the last URL, which it
  names if there was a redirect, and it is itself a redirection only if the limit was reached or it
  has no location.\<close>

theorem transfer_redirects:
  assumes url: "rq_request request = Ok u"
    and run: "transfer X (request, w) = Some (Ok (resp, reader), request', w')"
  shows "\<exists>n v. n \<le> unat (op_follow_redirect (rq_options request)) \<and> hops (he_urls X) u n v
    \<and> ul_scheme (he_urls X) v = ul_scheme (he_urls X) u \<and> rr_url resp = (if n = 0 then None else Some v)
    \<and> (is_redirection (rr_status resp) \<longrightarrow> n = unat (op_follow_redirect (rq_options request))
        \<or> headers_get_str (he_headers X) (KName (lit ''location'')) (rr_headers resp) = Ok None)
    \<and> (\<exists>request1 body headers w0 r0. ensure_host X u request = Ok request1
        \<and> exchange X (request1\<lparr>rq_body := None\<rparr>) v body headers w0 = Some (Ok (r0, reader, rq_body request'), w')
        \<and> resp = r0\<lparr>rr_url := rr_url resp\<rparr>)"
proof -
  have fin: "io_zoom (\<lambda>s. rq_request (fst s)) (\<lambda>b s. ((fst s)\<lparr>rq_request := b\<rparr>, snd s)) finalize (request, w)
      = Some (Ok u, request, w)"
    using url by (cases request) (simp add: finalize_def io_zoom_def)
  obtain request1 where r1: "ensure_host X u request = Ok request1"
    using run unfolding transfer_def by (cases "ensure_host X u request") (auto simp: io_bind_def fin)
  then have opts: "rq_options request1 = rq_options request"
    by (auto simp: ensure_host_def map_ok_Ok_iff split: if_splits option.splits)
  let ?taken = "request1\<lparr>rq_body := None\<rparr>"
  obtain body where loop: "transfer_loop X ?taken u (unat (op_follow_redirect (rq_options request))) u None (rq_body request1)
      (hl_new (he_headers X)) w = Some (Ok (resp, reader, body), w')" "rq_body request' = body"
    using run r1 opts unfolding transfer_def
    by (auto simp: io_bind_def fin Let_def split: option.splits result.splits prod.splits)
  from transfer_loop_hops [OF loop(1) hops.no_hop] have "\<exists>n v. n \<le> unat (op_follow_redirect (rq_options request))
    \<and> hops (he_urls X) u n v \<and> rr_url resp = (if n = 0 then None else Some v)
    \<and> (is_redirection (rr_status resp) \<longrightarrow> n = unat (op_follow_redirect (rq_options request))
        \<or> headers_get_str (he_headers X) (KName (lit ''location'')) (rr_headers resp) = Ok None)
    \<and> (\<exists>r0 body0 headers0 w0. exchange X ?taken v body0 headers0 w0 = Some (Ok (r0, reader, body), w') \<and> resp = r0\<lparr>rr_url := rr_url resp\<rparr>)"
    by (simp del: lit_simps)
  then obtain n v where
    h: "n \<le> unat (op_follow_redirect (rq_options request))" "hops (he_urls X) u n v" "rr_url resp = (if n = 0 then None else Some v)"
      "is_redirection (rr_status resp) \<longrightarrow> n = unat (op_follow_redirect (rq_options request))
        \<or> headers_get_str (he_headers X) (KName (lit ''location'')) (rr_headers resp) = Ok None"
      "\<exists>r0 body0 headers0 w0. exchange X ?taken v body0 headers0 w0 = Some (Ok (r0, reader, body), w') \<and> resp = r0\<lparr>rr_url := rr_url resp\<rparr>"
    by (elim exE conjE) (rule that; (assumption | (intro exI conjI; assumption)))
  with r1 loop(2) hops_scheme [OF h(2)] show ?thesis by blast
qed

text \<open>A request with one redirect allowed, to a server that always redirects.\<close>

definition moved_reply :: bytes where
  "moved_reply = status_line Http11 (lit ''302'') (lit ''Found'') @ header_wire [(lit ''Location'', lit ''http:y'')] @ crlf"

definition one_redirect :: "(bytes, (bytes \<times> bytes) list) Request" where
  "one_redirect = \<lparr>rq_options = Options_new\<lparr>op_follow_redirect := 1\<rparr>, rq_request = Ok (lit ''http:x''), rq_method = lit ''GET'',
     rq_headers = [(lit ''host'', lit ''x'')], rq_body = None\<rparr>"

lemma moved_exchange:
  assumes "drop 3 url = 0x70 # t"
  shows "\<exists>resp reader w'. exchange (toy_http (\<lambda>_. [moved_reply])) one_redirect url None headers w = Some (Ok (resp, reader, None), w')
    \<and> rr_status resp = 302 \<and> rr_headers resp = [(lit ''location'', lit ''http:y'')]"
proof -
  have "\<exists>resp reader w'. exchange (toy_http (\<lambda>_. [moved_reply])) one_redirect url None headers w = Some (Ok (resp, reader, payload_after None), w')
    \<and> rr_status resp = the (status_of_digits (lit ''302'')) \<and> rr_headers resp = insert_all alist_lib [(lit ''Location'', lit ''http:y'')] []"
    by (rule toy_exchange [where a = "0x33" and b = "0x30" and c = "0x32" and reason = "lit ''Found''" and rest = "[]" and t = t])
      (simp_all add: assms one_redirect_def Options_new_def moved_reply_def status_line_def header_wire_def header_line_def crlf_def
        in_range_def word_le_nat_alt field_byte_def header_ok_def token_def token_byte_def visible_def DEFAULT_MAXIMUM_HEADER_SIZE_def)
  moreover have "the (status_of_digits (lit ''302'')) = 302"
    by (simp add: status_of_digits_def in_range_def word_le_nat_alt)
  moreover have "insert_all alist_lib [(lit ''Location'', lit ''http:y'')] [] = [(lit ''location'', lit ''http:y'')]"
    by (simp add: insert_all_def alist_lib_def lower_def ascii_lower_def in_range_def word_le_nat_alt)
  ultimately show ?thesis by (simp add: payload_after_def del: lit_simps)
qed

lemma moved_next_url:
  assumes "rr_status resp = 302" and "rr_headers resp = [(lit ''location'', lit ''http:y'')]"
  shows "next_url (toy_http server) one_redirect (lit ''http:x'') n url resp reader = Ok (if n = 0 then None else Some (lit ''http:y''))"
  using assms
  by (simp add: next_url_def is_redirection_def word_le_nat_alt word_less_nat_alt headers_get_str_def toy_http_def alist_lib_def
      toy_urls_def field_byte_def in_range_def body_new_def body_transfer_def bodyless_def one_redirect_def)

theorem transfer_redirects_witness:
  "\<exists>resp reader w' r'. transfer (toy_http (\<lambda>_. [moved_reply])) (one_redirect, toy_world) = Some (Ok (resp, reader), r', w')
    \<and> rr_url resp = Some (lit ''http:y'') \<and> ul_scheme toy_urls (lit ''http:y'') = ul_scheme toy_urls (lit ''http:x'')"
proof -
  let ?X = "toy_http (\<lambda>_. [moved_reply])"
  let ?u = "lit ''http:x''" and ?v = "lit ''http:y''"
  have drop: "drop 3 ?u = 0x70 # lit '':x''" "drop 3 ?v = 0x70 # lit '':y''" by simp_all
  obtain r1 rd1 w1 where e1: "exchange ?X one_redirect ?u None [] toy_world = Some (Ok (r1, rd1, None), w1)"
    "rr_status r1 = 302" "rr_headers r1 = [(lit ''location'', ?v)]" using moved_exchange [OF drop(1)] by blast
  obtain r2 rd2 w2 where e2: "exchange ?X one_redirect ?v None [(lit ''location'', ?v)] w1 = Some (Ok (r2, rd2, None), w2)"
    "rr_status r2 = 302" "rr_headers r2 = [(lit ''location'', ?v)]" using moved_exchange [OF drop(2)] by blast
  have "transfer_loop ?X one_redirect ?u 0 ?v (Some ?v) None [(lit ''location'', ?v)] w1 = Some (Ok (r2\<lparr>rr_url := Some ?v\<rparr>, rd2, None), w2)"
    by (subst transfer_loop.simps)
      (simp add: io_bind_def e2(1) io_lift_def io_return_def moved_next_url [OF e2(2,3)] del: lit_simps)
  then have loop: "transfer_loop ?X one_redirect ?u (Suc 0) ?u None None [] toy_world = Some (Ok (r2\<lparr>rr_url := Some ?v\<rparr>, rd2, None), w2)"
    by (subst transfer_loop.simps)
      (simp add: io_bind_def e1(1,3) io_lift_def io_return_def moved_next_url [OF e1(2,3)] del: lit_simps)
  have host: "ensure_host ?X ?u one_redirect = Ok one_redirect"
    by (simp add: ensure_host_def headers_contains_key_def one_redirect_def toy_http_def alist_lib_def)
  have req: "rq_request one_redirect = Ok ?u" "one_redirect\<lparr>rq_body := None\<rparr> = one_redirect" "rq_body one_redirect = None"
    "unat (op_follow_redirect (rq_options one_redirect)) = Suc 0" by (simp_all add: one_redirect_def)
  have new: "hl_new (he_headers ?X) = []" and toy_http_urls: "he_urls ?X = toy_urls" by (simp_all add: toy_http_def alist_lib_def)
  have "io_zoom (\<lambda>s. rq_request (fst s)) (\<lambda>b s. ((fst s)\<lparr>rq_request := b\<rparr>, snd s)) finalize (one_redirect, toy_world)
      = Some (Ok ?u, one_redirect, toy_world)"
    by (simp add: finalize_def io_zoom_def one_redirect_def)
  then have run: "transfer ?X (one_redirect, toy_world) = Some (Ok (r2\<lparr>rr_url := Some ?v\<rparr>, rd2), one_redirect, w2)"
    unfolding transfer_def using loop host req
    by (simp add: io_bind_def Let_def new req(2) del: lit_simps)
  have "ul_scheme (he_urls ?X) ?v = ul_scheme (he_urls ?X) ?u"
    using transfer_redirects [OF req(1) run] by (auto simp del: lit_simps split: if_splits)
  with run show ?thesis by (auto simp: toy_http_urls simp del: lit_simps)
qed

text \<open>If every exchange returns, the redirect loop ends and \<open>transfer\<close> returns.\<close>

theorem transfer_returns:
  assumes "\<And>request url body headers w. exchange X request url body headers w \<noteq> None"
  shows "\<exists>out s'. transfer X s = Some (out, s')"
proof -
  have "transfer_loop X request req_url n url redirected body headers w \<noteq> None" for request req_url n url redirected body headers w
    by (rule transfer_loop_returns) (rule assms)
  then have loop: "transfer_loop X request req_url n url redirected body headers w = None \<longleftrightarrow> False"
    for request req_url n url redirected body headers w by blast
  then show ?thesis
    unfolding transfer_def
    by (cases "rq_request (fst s)")
      (auto simp: io_bind_def io_zoom_def finalize_def Let_def loop split: result.splits option.splits prod.splits)
qed

text \<open>C10: Every connection that a transfer makes for a request that \<open>get\<close> or \<open>post\<close> built, for its own URL and for
  every redirect it follows, is a TLS connection with its handshake done if the scheme of that URL is
  \<open>https\<close>, and is not encrypted only if it is \<open>http\<close>: the transfer is the same as one that panics
  rather than use any other connection.\<close>

theorem connection_matches_scheme:
  assumes start: "start = http_get (he_urls X) H url \<or> start = http_post (he_urls X) H url p"
    and steps: "(builder_step H)\<^sup>*\<^sup>* start r" and tls: "tls_handshake (he_tls X)"
  shows "transfer X (r, w) = transfer_with (checked_exchange X) X (r, w)"
proof (rule transfer_with_same [symmetric])
  fix u r1 v body headers w'
  assume "rq_request (fst (r, w)) = Ok u" and "ensure_host X u (fst (r, w)) = Ok r1"
    and v: "ul_scheme (he_urls X) v = ul_scheme (he_urls X) u"
  then have u: "rq_request r = Ok u" and "rq_options r1 = rq_options r"
    by (auto simp: ensure_host_def map_ok_Ok_iff split: if_splits option.splits)
  with request_scheme_secure [OF start steps u] get_connection_for_kind [OF _ tls, of "r1\<lparr>rq_body := None\<rparr>" v w'] v
  show "checked_exchange X (r1\<lparr>rq_body := None\<rparr>) v body headers w' = exchange X (r1\<lparr>rq_body := None\<rparr>) v body headers w'"
    by (auto simp: checked_exchange_def simp del: lit_simps split: option.split result.split HttpConn.splits)
qed

text \<open>An \<open>https\<close> request whose server always redirects to \<open>https:y\<close>: it is sent six times, each time over TLS.\<close>

definition secure_reply :: bytes where
  "secure_reply = status_line Http11 (lit ''302'') (lit ''Found'') @ header_wire [(lit ''Location'', lit ''https:y'')] @ crlf"

definition secure_taken :: "(bytes, (bytes \<times> bytes) list) Request" where
  "secure_taken = \<lparr>rq_options = Options_new\<lparr>op_secure := True\<rparr>, rq_request = Ok (lit ''https:x''), rq_method = lit ''GET'',
     rq_headers = [(lit ''host'', lit ''ps:x'')], rq_body = None\<rparr>"

lemma secure_exchange:
  assumes "drop 3 url = 0x70 # t"
  shows "\<exists>resp reader w'. exchange (toy_http (\<lambda>_. [secure_reply])) secure_taken url None headers w = Some (Ok (resp, reader, None), w')
    \<and> rr_status resp = 302 \<and> rr_headers resp = [(lit ''location'', lit ''https:y'')]"
proof -
  have "\<exists>resp reader w'. exchange (toy_http (\<lambda>_. [secure_reply])) secure_taken url None headers w = Some (Ok (resp, reader, payload_after None), w')
    \<and> rr_status resp = the (status_of_digits (lit ''302'')) \<and> rr_headers resp = insert_all alist_lib [(lit ''Location'', lit ''https:y'')] []"
    by (rule toy_exchange [where a = "0x33" and b = "0x30" and c = "0x32" and reason = "lit ''Found''" and rest = "[]" and t = t])
      (simp_all add: assms secure_taken_def Options_new_def secure_reply_def status_line_def header_wire_def header_line_def crlf_def
        in_range_def word_le_nat_alt field_byte_def header_ok_def token_def token_byte_def visible_def DEFAULT_MAXIMUM_HEADER_SIZE_def)
  moreover have "the (status_of_digits (lit ''302'')) = 302"
    by (simp add: status_of_digits_def in_range_def word_le_nat_alt)
  moreover have "insert_all alist_lib [(lit ''Location'', lit ''https:y'')] [] = [(lit ''location'', lit ''https:y'')]"
    by (simp add: insert_all_def alist_lib_def lower_def ascii_lower_def in_range_def word_le_nat_alt)
  ultimately show ?thesis by (simp add: payload_after_def del: lit_simps)
qed

lemma secure_next_url:
  assumes "rr_status resp = 302" and "rr_headers resp = [(lit ''location'', lit ''https:y'')]"
  shows "next_url (toy_http server) secure_taken (lit ''https:x'') n url resp reader = Ok (if n = 0 then None else Some (lit ''https:y''))"
  using assms
  by (simp add: next_url_def is_redirection_def word_le_nat_alt word_less_nat_alt headers_get_str_def toy_http_def alist_lib_def
      toy_urls_def field_byte_def in_range_def body_new_def body_transfer_def bodyless_def secure_taken_def)

lemma secure_loop:
  assumes "drop 3 url = 0x70 # t"
  shows "\<exists>resp reader w'. transfer_loop (toy_http (\<lambda>_. [secure_reply])) secure_taken (lit ''https:x'') n url redirected None headers w
      = Some (Ok (resp, reader, None), w') \<and> rr_url resp = (if n = 0 then redirected else Some (lit ''https:y''))"
  using assms
proof (induction n arbitrary: url t redirected headers w)
  case (0 url t)
  obtain r rd w1 where "exchange (toy_http (\<lambda>_. [secure_reply])) secure_taken url None headers w = Some (Ok (r, rd, None), w1)"
    "rr_status r = 302" "rr_headers r = [(lit ''location'', lit ''https:y'')]" using secure_exchange [OF 0] by blast
  then show ?case
    by (subst transfer_loop.simps) (simp add: io_bind_def io_lift_def io_return_def secure_next_url del: lit_simps)
next
  case (Suc n url t)
  obtain r rd w1 where e: "exchange (toy_http (\<lambda>_. [secure_reply])) secure_taken url None headers w = Some (Ok (r, rd, None), w1)"
    "rr_status r = 302" "rr_headers r = [(lit ''location'', lit ''https:y'')]" using secure_exchange [OF Suc.prems] by blast
  have "drop 3 (lit ''https:y'') = 0x70 # lit ''s:y''" by simp
  from Suc.IH [OF this, of "Some (lit ''https:y'')" "rr_headers r" w1] e show ?case
    by (subst transfer_loop.simps) (simp add: io_bind_def io_lift_def io_return_def secure_next_url del: lit_simps)
qed

theorem connection_matches_scheme_witness:
  "\<exists>resp reader r' w'. transfer_with (checked_exchange (toy_http (\<lambda>_. [secure_reply]))) (toy_http (\<lambda>_. [secure_reply]))
      (http_get toy_urls alist_lib (lit ''https:x''), toy_world) = Some (Ok (resp, reader), r', w')
    \<and> rr_url resp = Some (lit ''https:y'')"
proof -
  let ?X = "toy_http (\<lambda>_. [secure_reply])" and ?u = "lit ''https:x''"
  let ?r = "http_get toy_urls alist_lib ?u"
  have X: "he_urls ?X = toy_urls" "hl_new (he_headers ?X) = []" "he_tls ?X = toy_tls_lib" by (simp_all add: toy_http_def alist_lib_def)
  have r: "?r = secure_taken\<lparr>rq_headers := []\<rparr>"
    by (simp add: secure_taken_def http_get_def new_request_def set_secure_if_def Request_new_def request_base_new_def
        toy_urls_def request_url_def Let_def alist_lib_def Options_new_def)
  have host: "ensure_host ?X ?u ?r = Ok secure_taken" unfolding r
    by (simp add: secure_taken_def ensure_host_def headers_contains_key_def headers_insert_def toy_http_def
        alist_lib_def toy_urls_def field_byte_def in_range_def word_le_nat_alt)
  have fin: "io_zoom (\<lambda>s. rq_request (fst s)) (\<lambda>b s. ((fst s)\<lparr>rq_request := b\<rparr>, snd s)) finalize (?r, toy_world)
      = Some (Ok ?u, ?r, toy_world)" unfolding r
    by (simp add: finalize_def io_zoom_def secure_taken_def)
  have taken: "secure_taken\<lparr>rq_body := None\<rparr> = secure_taken" "rq_body secure_taken = None"
    "unat (op_follow_redirect (rq_options secure_taken)) = 5" by (simp_all add: secure_taken_def Options_new_def)
  have "drop 3 ?u = 0x70 # lit ''s:x''" by simp
  from secure_loop [OF this, of 5 None "[]" toy_world] obtain resp reader w' where
    "transfer_loop ?X secure_taken ?u 5 ?u None None [] toy_world = Some (Ok (resp, reader, None), w')"
    "rr_url resp = Some (lit ''https:y'')" by (auto simp del: lit_simps)
  then have "\<exists>resp reader r' w'. transfer ?X (?r, toy_world) = Some (Ok (resp, reader), r', w') \<and> rr_url resp = Some (lit ''https:y'')"
    unfolding transfer_def using host by (simp add: io_bind_def fin Let_def X taken del: lit_simps)
  moreover have "transfer ?X (?r, w) = transfer_with (checked_exchange ?X) ?X (?r, w)" for w
    by (rule connection_matches_scheme [where H = alist_lib and start = ?r and url = ?u])
      (simp_all add: X toy_handshake.tls_handshake_axioms)
  ultimately show ?thesis by simp
qed

text \<open>The requests of a redirect chain all carry the \<open>Host\<close> of the first URL: for a request without a
  \<open>Host\<close> header of its own, the head sent to any later URL has that of the original one.\<close>

theorem redirect_keeps_host:
  assumes headers: "header_map (he_headers X) plain" "plain (rq_headers request)"
    and absent: "hl_get (he_headers X) (lit ''host'') (rq_headers request) = None"
    and host: "ul_host_str (he_urls X) u = Some host" "\<forall>b\<in>set host. field_byte b"
    and r1: "ensure_host X u request = Ok request1"
  shows "\<exists>before after. request_head X (request1\<lparr>rq_body := None\<rparr>) Http11 v =
    request_line (rq_method request) (ul_path_and_query (he_urls X) v) Http11
      @ before @ header_line (lit ''host'', host) @ after"
proof -
  let ?H = "he_headers X" and ?m = "hl_insert (he_headers X) (lit ''host'') host (rq_headers request)"
  have r: "request1 = request\<lparr>rq_headers := ?m\<rparr>"
    using r1 absent host header_map.contains [OF headers(1)] header_map.value_field [OF headers(1) host(2)]
    by (auto simp: ensure_host_def headers_contains_key_def headers_insert_def simp del: lit_simps)
  have "plain ?m" using header_map.plain_insert [OF headers(1,2)] .
  then have "(lit ''host'', host) \<in> set (hl_entries ?H ?m)"
    using header_map.entries [OF headers(1)] header_map.get_insert [OF headers(1)] by (simp del: lit_simps)
  then obtain xs ys where "hl_entries ?H ?m = xs @ (lit ''host'', host) # ys" by (metis split_list)
  then show ?thesis
    by (intro exI [of _ "header_wire xs"] exI [of _ "header_wire ys @ crlf"])
      (simp add: request_head_def r header_wire_def del: lit_simps)
qed

text \<open>What \<open>send_request\<close> writes: the request line, one line for each header in the map's order, an empty
  line and the payload. A stream payload is used up, so that sending it again writes nothing.\<close>

theorem send_request_bytes:
  assumes writer: "http_writer X sent"
  shows "\<exists>s'. send_request X request version url body s = Some (Ok (payload_after body), s')
    \<and> sent s' = sent s @ request_line (rq_method request) (ul_path_and_query (he_urls X) url) version
        @ header_wire (hl_entries (he_headers X) (rq_headers request)) @ crlf @ payload_bytes body
    \<and> payload_bytes (payload_after body) = (case body of Some (PayloadBytes data) \<Rightarrow> data | _ \<Rightarrow> [])"
proof -
  from http_writer.send_request_sent [OF writer] obtain s' where
    "send_request X request version url body s = Some (Ok (payload_after body), s')"
    "sent s' = sent s @ request_head X request version url @ payload_bytes body" by blast
  then show ?thesis
    by (auto simp: request_head_def payload_after_def payload_bytes_def split: option.splits Payload.splits)
qed

theorem send_request_bytes_witness:
  "\<exists>s'. send_request (toy_http (\<lambda>_. [])) (one_redirect\<lparr>rq_headers := []\<rparr>) Http11 (lit ''http:x'') (Some (PayloadStream (lit ''ab''))) (PlainConn 0, toy_world)
      = Some (Ok (Some (PayloadStream [])), s') \<and> toy_sent s' = hw_sent toy_world 0 @ lit ''GET / HTTP/1.1'' @ crlf @ crlf @ lit ''ab''"
proof -
  have "request_line (rq_method (one_redirect\<lparr>rq_headers := []\<rparr>)) (ul_path_and_query (he_urls (toy_http (\<lambda>_. []))) (lit ''http:x'')) Http11
      = lit ''GET / HTTP/1.1'' @ crlf"
    by (simp add: one_redirect_def toy_http_def toy_urls_def request_line_def crlf_def)
  moreover have "hl_entries (he_headers (toy_http (\<lambda>_. []))) (rq_headers (one_redirect\<lparr>rq_headers := []\<rparr>)) = []"
    by (simp add: toy_http_def alist_lib_def)
  ultimately show ?thesis
    using send_request_bytes [OF toy_http.http_writer_axioms, of "\<lambda>_. []" "one_redirect\<lparr>rq_headers := []\<rparr>" Http11 "lit ''http:x''"
        "Some (PayloadStream (lit ''ab''))" "(PlainConn 0, toy_world)"]
    by (simp add: payload_after_def payload_bytes_def toy_sent_def header_wire_def del: lit_simps)
qed

theorem redirect_keeps_host_witness:
  "\<exists>before after. request_head (toy_http (\<lambda>_. [])) ((one_redirect\<lparr>rq_headers := [(lit ''host'', lit ''p:x'')]\<rparr>)\<lparr>rq_body := None\<rparr>)
      Http11 (lit ''http:y'') = lit ''GET / HTTP/1.1'' @ crlf @ before @ header_line (lit ''host'', lit ''p:x'') @ after"
proof -
  let ?r = "one_redirect\<lparr>rq_headers := []\<rparr>"
  have "ensure_host (toy_http (\<lambda>_. [])) (lit ''http:x'') ?r = Ok (?r\<lparr>rq_headers := [(lit ''host'', lit ''p:x'')]\<rparr>)"
    by (simp add: ensure_host_def headers_contains_key_def headers_insert_def toy_http_def alist_lib_def toy_urls_def
        one_redirect_def field_byte_def in_range_def word_le_nat_alt)
  moreover have "?r\<lparr>rq_headers := [(lit ''host'', lit ''p:x'')]\<rparr> = one_redirect\<lparr>rq_headers := [(lit ''host'', lit ''p:x'')]\<rparr>" by simp
  ultimately show ?thesis
    using redirect_keeps_host [OF toy_http.header_map_axioms, of ?r "\<lambda>_. []" "lit ''http:x''" "lit ''p:x''"
        "?r\<lparr>rq_headers := [(lit ''host'', lit ''p:x'')]\<rparr>" "lit ''http:y''"]
    by (simp add: toy_http_def alist_lib_def toy_urls_def one_redirect_def field_byte_def in_range_def word_le_nat_alt
        request_line_def crlf_def)
qed

text \<open>An environment in which no connection succeeds.\<close>

definition refusing_http ::
  "(http_world, toy_tls, toy_tls HttpConn, toy_reader, bytes, (bytes \<times> bytes) list) http_env" where
  "refusing_http = (toy_http (\<lambda>_. []))\<lparr>he_net := script_net (\<lambda>_ _. Some (Foreign 111))\<rparr>"

lemma refused_connect:
  assumes "co_resolver options = two_addresses"
  shows "\<exists>e w'. connect_stats (script_net (\<lambda>_ _. Some (Foreign 111))) options w = Some (Err e, w')"
proof -
  let ?N = "script_net (\<lambda>_ _. Some (Foreign 111))"
  have "\<exists>out. resolve_ips ?N two_addresses (co_host options) w = Some (out, w) \<and> out \<noteq> Panic"
    by (cases "ip_parse (co_host options)")
      (auto simp: resolve_ips_def resolve_ips_lookup_def numeral_3_eq_3 script_net_def two_addresses_def address_query_def
        io_simps note_answer_def Answer_new_def)
  then obtain out where out: "resolve_ips ?N two_addresses (co_host options) w = Some (out, w)" "out \<noteq> Panic" by blast
  show ?thesis
  proof (cases out)
    case (Ok addrs)
    with out have r: "resolve_ips ?N (co_resolver options) (co_host options) w = Some (Ok addrs, w)" by (simp add: assms)
    show ?thesis using script_net.connect_stats_fail [OF r] by auto
  next
    case (Err e)
    with out show ?thesis by (simp add: connect_stats_def assms io_bind_def)
  qed (use out in simp)
qed

theorem transfer_returns_witness: "\<exists>out s'. transfer refusing_http (one_redirect, toy_world) = Some (out, s')"
proof (rule transfer_returns)
  fix request url body headers and w :: http_world
  let ?o = "connection_options refusing_http request url (drop 3 url)"
  have net: "he_net refusing_http = script_net (\<lambda>_ _. Some (Foreign 111))" and tls: "he_tls refusing_http = toy_tls_lib"
    and host: "ul_host_str (he_urls refusing_http) url = Some (drop 3 url)"
    by (simp_all add: refusing_http_def toy_http_def toy_urls_def)
  have "co_resolver ?o = two_addresses"
    by (auto simp: connection_options_def Let_def with_resolver_def set_strategy_def set_timeout_def set_tcp_nodelay_def
        set_tcp_keepalive_def set_recvbuf_size_def set_sendbuf_size_def set_port_def refusing_http_def toy_http_def split: option.splits)
  then obtain e w' where c: "connect_stats (script_net (\<lambda>_ _. Some (Foreign 111))) ?o w = Some (Err e, w')"
    using refused_connect by blast
  then have "\<exists>e w'. get_connection_for refusing_http request url w = Some (Err e, w')"
    by (cases "res_bind (tl_server_name toy_tls_lib (co_host ?o)) (tl_new toy_tls_lib (he_tls_config refusing_http))")
      (auto simp: get_connection_for_def host Let_def net tls tls_connect_stats_config_def io_bind_def io_lift_def toy_tls_lib_def
        split: if_splits)
  then show "exchange refusing_http request url body headers w \<noteq> None"
    by (auto simp: exchange_def io_bind_def)
qed

end
