(* ===== verification/Ws_Handshake_Laws.thy ===== *)
theory Ws_Handshake_Laws
  imports Ws_Handshake Http_Client
begin

text \<open>
  The opening handshake, end to end: what \<open>handle_upgrade\<close> answers to a request, which answers
  \<open>connect\<close> accepts (\<open>src/src/ws/transfer.rs\<close>), and that the two ends agree. Locale \<open>codec\<close> is the
  contract of base64 and SHA-1, \<open>upgrade_server\<close> that of the reader and writer of a server.
\<close>

lemma io_bind_assoc: "io_bind (io_bind m f) g = io_bind m (\<lambda>x. io_bind (f x) g)"
proof (rule ext)
  fix s
  show "io_bind (io_bind m f) g s = io_bind m (\<lambda>x. io_bind (f x) g) s"
    by (cases "m s"; cases "fst (the (m s))") (auto simp: io_bind_def)
qed

lemma io_bind_return: "io_bind (io_return x) f = f x"
  by (rule ext) (simp add: io_simps)

section \<open>Keys\<close>

locale codec =
  fixes C :: key_codec
  assumes length_encode: "length (kc_encode C xs) = 4 * ((length xs + 2) div 3)"
    and encode_visible: "b \<in> set (kc_encode C xs) \<Longrightarrow> visible b"
    and decode_encode: "length xs \<le> n \<Longrightarrow> kc_decode C (kc_encode C xs) n = Some xs"
    and decode_length: "kc_decode C s n = Some xs \<Longrightarrow> length xs \<le> n"
    and length_sha1: "length (kc_sha1 C xs) = 20"

text \<open>The value of \<open>Sec-WebSocket-Accept\<close> for the text of a key.\<close>

definition accept_text :: "key_codec \<Rightarrow> bytes \<Rightarrow> bytes" where
  "accept_text C key = kc_encode C (kc_sha1 C (key @ WEB_SOCKET_GUID))"

context codec
begin

lemma encode_slice_fit:
  "4 * ((length xs + 2) div 3) = n \<Longrightarrow> encode_slice C xs n = Ok (kc_encode C xs)"
  by (simp add: encode_slice_def length_encode into_array_def)

lemma Key_encode_ok: "length (key_data k) = 16 \<Longrightarrow> Key_encode C k = Ok (kc_encode C (key_data k))"
  by (simp add: Key_encode_def encode_slice_fit)

lemma Key_accept_ok:
  "length (key_data k) = 16 \<Longrightarrow> Key_accept C k = Ok (accept_text C (kc_encode C (key_data k)))"
  by (simp add: Key_accept_def Key_encode_ok encode_slice_fit length_sha1 accept_text_def)

lemma Key_from_length: "Key_from C s = Ok k \<Longrightarrow> length (key_data k) = 16"
  by (auto simp: Key_from_def into_array_def dest: decode_length split: option.splits)

lemma Key_from_encode: "length (key_data k) = 16 \<Longrightarrow> Key_from C (kc_encode C (key_data k)) = Ok k"
  by (simp add: Key_from_def decode_encode into_array_def)

lemma utf8_encode: "utf8_valid (kc_encode C xs)"
  by (rule utf8_ascii) (auto dest: encode_visible visible_not_space)

lemma key_texts_ok:
  "length (key_data k) = 16 \<Longrightarrow>
    key_texts C k = Ok (kc_encode C (key_data k), accept_text C (kc_encode C (key_data k)))"
  by (simp add: key_texts_def Key_encode_ok Key_accept_ok utf8_encode accept_text_def)

end

section \<open>Header values\<close>

definition offers :: "(bytes \<Rightarrow> bytes option) \<Rightarrow> bytes \<Rightarrow> bytes \<Rightarrow> bool" where
  "offers lookup header value \<longleftrightarrow>
     (case lookup (lower header) of Some v \<Rightarrow> eq_ignore_ascii_case v value | None \<Rightarrow> False)"

text \<open>The key of a request that may be upgraded.\<close>

definition offered_key :: "(bytes \<Rightarrow> bytes option) \<Rightarrow> bytes option" where
  "offered_key lookup =
     (if offers lookup (lit ''Connection'') (lit ''Upgrade'') \<and> offers lookup (lit ''Upgrade'') (lit ''websocket'')
        \<and> offers lookup (lit ''Sec-WebSocket-Version'') WEB_SOCKET_VERSION
      then lookup (lower (lit ''Sec-WebSocket-Key'')) else None)"

text \<open>The last value sent for a name.\<close>

definition last_value :: "(bytes \<times> bytes) list \<Rightarrow> bytes \<Rightarrow> bytes option" where
  "last_value kvs name = map_of (rev (map (\<lambda>(k, v). (lower k, v)) kvs)) name"

lemma handshake_tokens:
  "token (lit ''Connection'')" "token (lit ''Upgrade'')" "token (lit ''Sec-WebSocket-Version'')"
  "token (lit ''Sec-WebSocket-Key'')" "token (lit ''Sec-WebSocket-Accept'')" "token (lit ''host'')"
  by (simp_all add: token_def token_byte_def in_range_def word_le_nat_alt)

lemma field_lits:
  "\<forall>b\<in>set (lit ''Upgrade''). field_byte b" "\<forall>b\<in>set (lit ''websocket''). field_byte b" "\<forall>b\<in>set WEB_SOCKET_VERSION. field_byte b"
  by (simp_all add: field_byte_def in_range_def word_le_nat_alt WEB_SOCKET_VERSION_def)

context header_map
begin

lemma get_insert_all:
  "hl_get H n (insert_all H kvs m) = (case last_value kvs n of Some v \<Rightarrow> Some v | None \<Rightarrow> hl_get H n m)"
proof -
  have "insert_all H kvs m = fold (\<lambda>(k, v). hl_insert H k v) (map (\<lambda>(k, v). (lower k, v)) kvs) m" for m
    by (induction kvs arbitrary: m) (auto simp: insert_all_def)
  then show ?thesis by (simp add: get_fold last_value_def)
qed

lemma get_insert_new: "hl_get H n (insert_all H kvs (hl_new H)) = last_value kvs n"
  by (simp add: get_insert_all split: option.split)

lemma last_value_entries:
  assumes "plain m" and "\<forall>kv\<in>set (hl_entries H m). lower (fst kv) = fst kv"
  shows "last_value (hl_entries H m) n = hl_get H n m"
proof -
  let ?es = "hl_entries H m"
  have "map (\<lambda>(k, v). (lower k, v)) ?es = ?es" using assms(2) by (auto intro!: map_idI)
  moreover have d: "distinct (map fst ?es)" "\<And>v. (n, v) \<in> set ?es \<longleftrightarrow> hl_get H n m = Some v"
    using entries [OF assms(1)] by auto
  ultimately have "last_value ?es n = map_of (rev ?es) n" by (simp add: last_value_def)
  also have "\<dots> = map_of ?es n"
    using d(1) by (metis distinct_rev map_of_inject_set rev_map set_rev)
  also have "\<dots> = hl_get H n m"
    using d by (cases "hl_get H n m") (auto simp: map_of_eq_None_iff intro: rev_image_eqI)
  finally show ?thesis .
qed

lemma check_header_spec:
  assumes "token header" and "\<And>v. hl_get H (lower header) m = Some v \<Longrightarrow> \<forall>b\<in>set v. field_byte b"
  shows "check_header H m header value err =
    (if offers (\<lambda>n. hl_get H n m) header value then Ok () else Err (WebSocketE err))"
  using assms headers_get_str_token [OF assms(1)] headers_get_str_absent [OF assms(1)]
  by (cases "hl_get H (lower header) m") (simp_all add: check_header_def offers_def)

lemma check_upgrade_spec:
  assumes "\<And>n v. hl_get H n m = Some v \<Longrightarrow> \<forall>b\<in>set v. field_byte b"
  shows "check_upgrade H m = ok_or (WebSocketE InvalidClientRequest) (offered_key (\<lambda>n. hl_get H n m))"
proof -
  have "headers_get_str H (KStr (lit ''Sec-WebSocket-Key'')) m = Ok (hl_get H (lower (lit ''Sec-WebSocket-Key'')) m)"
    using headers_get_str_token [OF handshake_tokens(4)] headers_get_str_absent [OF handshake_tokens(4)] assms
    by (cases "hl_get H (lower (lit ''Sec-WebSocket-Key'')) m") (simp_all del: lit_simps)
  then show ?thesis
    by (simp add: check_upgrade_def check_header_spec [OF handshake_tokens(1) assms]
        check_header_spec [OF handshake_tokens(2) assms] check_header_spec [OF handshake_tokens(3) assms]
        offered_key_def del: lit_simps)
qed

end

lemma last_value_field:
  assumes "\<forall>kv\<in>set kvs. header_ok kv" and "last_value kvs n = Some v"
  shows "\<forall>b\<in>set v. field_byte b"
  using map_of_SomeD [OF assms(2) [unfolded last_value_def]] assms(1) by (auto simp: header_ok_def)

section \<open>What the server reads\<close>

context http_parser
begin

lemma handle_request_wire:
  assumes fill: "br_fill E r = Some (Ok n, r1)" and empty: "br_buffer E r = []"
    and buf: "br_buffer E r1 = request_line (lit ''GET'') path Http11 @ header_wire kvs @ crlf @ rest"
    and path: "\<forall>b\<in>set path. visible b" and kvs: "\<forall>kv\<in>set kvs. header_ok kv"
    and small: "length (request_line (lit ''GET'') path Http11 @ header_wire kvs) \<le> unat DEFAULT_MAXIMUM_HEADER_SIZE"
  shows "\<exists>r'. handle_request E H r = Some (Ok (insert_all H kvs (hl_new H)), r')
    \<and> br_buffer E r' = rest \<and> incoming r' = incoming r1"
proof -
  let ?xs = "lit ''GET'' @ [0x20] @ path @ [0x20] @ version_str Http11"
  let ?n = "length ?xs + 2"
  have line: "request_line (lit ''GET'') path Http11 = ?xs @ crlf"
    by (simp add: request_line_def crlf_def)
  have field: "\<forall>b\<in>set ?xs. field_byte b"
    using path by (auto simp: field_byte_def visible_def in_range_def word_le_nat_alt)
  have utf8: "utf8_valid ((?xs @ [carriage_return]) @ [newline])"
    using utf8_ascii [OF field_ascii [OF field]] by (simp add: crlf_def del: lit_simps utf8_valid.simps)
  have read: "read_line_in_place E r = Some (Ok (?xs, ?n), r1)"
  proof -
    have "strip_line ((?xs @ [carriage_return]) @ [newline]) = ?xs"
      using strip_line_crlf [of ?xs] by (simp add: crlf_def del: lit_simps)
    moreover have "br_buffer E r1 = (?xs @ [carriage_return]) @ newline # header_wire kvs @ crlf @ rest"
      by (simp add: buf line crlf_def del: lit_simps)
    ultimately show ?thesis
      using read_line_fill [OF fill, of "?xs @ [carriage_return]" "header_wire kvs @ crlf @ rest"] empty
        field_no_newline [OF field] utf8 by simp
  qed
  have "0x20 \<notin> set path" using path by (auto simp: visible_def in_range_def word_le_nat_alt)
  moreover have "parse_version (version_str Http11) = Some Http11" by (simp add: parse_version_eq)
  ultimately have parse: "parse_request_line ?xs = Some (Http11, path)"
    by (simp add: parse_request_line_def split_on_append split_on_none)
  let ?r = "br_consume E ?n r1"
  have "?n \<le> length (br_buffer E r1)" by (simp add: buf line crlf_def del: lit_simps)
  moreover have "drop ?n (br_buffer E r1) = header_wire kvs @ crlf @ rest"
    by (simp add: buf line crlf_def del: lit_simps)
  ultimately have r: "br_buffer E ?r = header_wire kvs @ crlf @ rest" "incoming ?r = incoming r1"
    using consume [of ?n r1] by simp_all
  have size: "length (header_wire kvs) \<le> unat DEFAULT_MAXIMUM_HEADER_SIZE - ?n" "?n \<le> unat DEFAULT_MAXIMUM_HEADER_SIZE"
    using small by (simp_all add: line crlf_def del: lit_simps)
  from read_headers_wire [OF r(1) kvs, of "unat DEFAULT_MAXIMUM_HEADER_SIZE - ?n" "hl_new H"] size(1) r(2)
  obtain r' where "read_headers_limited E H (unat DEFAULT_MAXIMUM_HEADER_SIZE - ?n) (?r, hl_new H) =
      Some (Ok (), r', insert_all H kvs (hl_new H))" "br_buffer E r' = rest" "incoming r' = incoming r1" by auto
  then show ?thesis
    using read parse size(2) by (simp add: handle_request_def io_simps nat_checked_sub_def io_bind_def del: lit_simps)
qed

end


section \<open>What the server answers\<close>

definition upgrade_headers :: "bytes \<Rightarrow> (bytes \<times> bytes) list" where
  "upgrade_headers accept = [(lit ''Connection'', lit ''Upgrade''), (lit ''Upgrade'', lit ''websocket''),
     (lit ''Sec-WebSocket-Accept'', accept)]"

definition upgrade_response :: "bytes \<Rightarrow> bytes \<Rightarrow> bytes" where
  "upgrade_response reason accept = status_line Http11 (lit ''101'') reason @ header_wire (upgrade_headers accept) @ crlf"

locale upgrade_server = http_writer X sent + http_parser "he_lines X" incoming "he_headers X" plain + codec "wh_codec X"
  for X :: "('w, 't, 'v, 'b, 'u, 'm, 'x) ws_http_env_scheme" and sent :: "'v \<times> 'w \<Rightarrow> bytes"
    and incoming :: "'b \<times> 'w \<Rightarrow> bytes" and plain :: "'m \<Rightarrow> bool" +
  fixes reason :: bytes
  assumes reason: "hl_reason (he_headers X) 101 = Some reason"
    and parts: "wh_into_parts X reader = (conn, buf, pos) \<Longrightarrow>
      br_buffer (he_lines X) (wh_from_parts X conn buf pos, w') = br_buffer (he_lines X) (reader, w)"
begin

lemma write_upgrade_sent:
  assumes "utf8_valid accept"
  shows "\<exists>s'. write_upgrade X accept s = Some (Ok (), s') \<and> sent s' = sent s @ upgrade_response reason accept
    \<and> cl_into_conn (he_conns X) (fst s') = cl_into_conn (he_conns X) (fst s)"
proof -
  let ?pieces = "[version_str Http11 @ [0x20] @ lit ''101'' @ [0x20] @ reason @ crlf, lit ''Connection: Upgrade'' @ crlf,
    lit ''Upgrade: websocket'' @ crlf, lit ''Sec-WebSocket-Accept: '' @ accept @ crlf, crlf]"
  obtain s1 where 1: "write_each (he_conns X) ?pieces s = Some (Ok (), s1)" "sent s1 = sent s @ concat ?pieces"
    "cl_into_conn (he_conns X) (fst s1) = cl_into_conn (he_conns X) (fst s)" using write_each_sent by blast
  obtain s2 where 2: "cl_flush (he_conns X) s1 = Some (Ok (), s2)" "sent s2 = sent s1"
    "cl_into_conn (he_conns X) (fst s2) = cl_into_conn (he_conns X) (fst s1)" using flushes by blast
  have "write_upgrade X accept s = io_bind (write_each (he_conns X) ?pieces) (\<lambda>_. cl_flush (he_conns X)) s"
    using assms by (simp add: write_upgrade_def reason Let_def io_bind_assoc io_bind_return [abs_def] del: lit_simps)
  moreover have "concat ?pieces = upgrade_response reason accept"
    by (simp add: upgrade_response_def status_line_def upgrade_headers_def header_wire_def header_line_def)
  ultimately show ?thesis using 1 2 by simp
qed

lemma upgrade_result:
  assumes fill: "br_fill (he_lines X) (cl_reader (he_conns X) stream, w) = Some (Ok n, r1)"
    and empty: "br_buffer (he_lines X) (cl_reader (he_conns X) stream, w) = []"
    and buf: "br_buffer (he_lines X) r1 = request_line (lit ''GET'') path Http11 @ header_wire kvs @ crlf @ rest"
    and path: "\<forall>b\<in>set path. visible b" and kvs: "\<forall>kv\<in>set kvs. header_ok kv"
    and small: "length (request_line (lit ''GET'') path Http11 @ header_wire kvs) \<le> unat DEFAULT_MAXIMUM_HEADER_SIZE"
  shows "\<exists>headers reader w1. handle_request (he_lines X) (he_headers X) (cl_reader (he_conns X) stream, w)
      = Some (Ok headers, reader, w1) \<and>
    (case res_bind (ok_or (WebSocketE InvalidClientRequest) (offered_key (last_value kvs))) (Key_from (wh_codec X)) of
        Ok k \<Rightarrow> \<exists>reader' s. handle_upgrade X stream w = Some (Ok reader', snd s)
          \<and> sent s = sent (cl_writer (he_conns X) (fst (wh_into_parts X reader)), w1)
              @ upgrade_response reason (accept_text (wh_codec X) (kc_encode (wh_codec X) (key_data k)))
          \<and> br_buffer (he_lines X) (reader', snd s) = rest
      | Err e \<Rightarrow> handle_upgrade X stream w = Some (Err e, w1)
      | Panic \<Rightarrow> False)"
proof -
  let ?H = "he_headers X" and ?m = "insert_all (he_headers X) kvs (hl_new (he_headers X))"
  from handle_request_wire [OF fill empty buf path kvs small] obtain reader w1 where
    req: "handle_request (he_lines X) ?H (cl_reader (he_conns X) stream, w) = Some (Ok ?m, reader, w1)"
      "br_buffer (he_lines X) (reader, w1) = rest" by auto
  obtain conn buf pos where parts': "wh_into_parts X reader = (conn, buf, pos)" by (cases "wh_into_parts X reader")
  have "(\<lambda>n. hl_get ?H n ?m) = last_value kvs" by (rule ext) (rule get_insert_new)
  then have check: "check_upgrade ?H ?m = ok_or (WebSocketE InvalidClientRequest) (offered_key (last_value kvs))"
    using check_upgrade_spec [of ?m] last_value_field [OF kvs] by (simp add: get_insert_new)
  have "case res_bind (ok_or (WebSocketE InvalidClientRequest) (offered_key (last_value kvs))) (Key_from (wh_codec X)) of
        Ok k \<Rightarrow> \<exists>reader' s. handle_upgrade X stream w = Some (Ok reader', snd s)
          \<and> sent s = sent (cl_writer (he_conns X) conn, w1)
              @ upgrade_response reason (accept_text (wh_codec X) (kc_encode (wh_codec X) (key_data k)))
          \<and> br_buffer (he_lines X) (reader', snd s) = rest
      | Err e \<Rightarrow> handle_upgrade X stream w = Some (Err e, w1)
      | Panic \<Rightarrow> False"
  proof (cases "offered_key (last_value kvs)")
    case None
    then show ?thesis using req(1) check by (simp add: handle_upgrade_def parts' io_bind_lift)
  next
    case (Some key)
    show ?thesis
    proof (cases "Key_from (wh_codec X) key")
      case (Ok k)
      let ?accept = "accept_text (wh_codec X) (kc_encode (wh_codec X) (key_data k))"
      have accept: "Key_accept (wh_codec X) k = Ok ?accept" by (rule Key_accept_ok [OF Key_from_length [OF Ok]])
      have "utf8_valid ?accept" by (simp add: accept_text_def utf8_encode)
      from write_upgrade_sent [OF this, of "(cl_writer (he_conns X) conn, w1)"] obtain v w2 where
        wr: "write_upgrade X ?accept (cl_writer (he_conns X) conn, w1) = Some (Ok (), v, w2)"
          "sent (v, w2) = sent (cl_writer (he_conns X) conn, w1) @ upgrade_response reason ?accept"
          "cl_into_conn (he_conns X) v = conn" using into_conn by auto
      have "br_buffer (he_lines X) (wh_from_parts X conn buf pos, w2) = rest"
        using parts [OF parts', of w2 w1] req(2) by simp
      moreover have "handle_upgrade X stream w = Some (Ok (wh_from_parts X conn buf pos), w2)"
        using req(1) check Some Ok accept wr by (simp add: handle_upgrade_def parts' io_bind_lift)
      ultimately show ?thesis using wr(2) Some Ok by (auto intro!: exI [of _ "(v, w2)"])
    next
      case (Err e)
      then show ?thesis using req(1) check Some by (simp add: handle_upgrade_def parts' io_bind_lift)
    next
      case Panic
      then show ?thesis by (simp add: Key_from_def split: option.splits)
    qed
  qed
  then show ?thesis
    by (intro exI [of _ ?m] exI [of _ reader] exI [of _ w1] conjI req(1)) (simp only: parts' fst_conv)
qed

end

section \<open>What the client sends and accepts\<close>

context header_map
begin

lemma request_header_token:
  "token k \<Longrightarrow> \<forall>b\<in>set v. field_byte b \<Longrightarrow>
    request_header H (KStr k) (VStr v) r = r\<lparr>rq_headers := hl_insert H (lower k) v (rq_headers r)\<rparr>"
  by (simp add: request_header_def headers_insert_token)

text \<open>The headers \<open>connect\<close> adds.\<close>

lemma upgrade_request_headers:
  assumes "\<forall>b\<in>set key. field_byte b"
  shows "upgrade_request H key request = request\<lparr>wq_inner := (wq_inner request)\<lparr>
      rq_options := (rq_options (wq_inner request))\<lparr>op_timeout :=
        map_option (\<lambda>t. min t (wo_handshake_timeout (wq_options request))) (op_timeout (rq_options (wq_inner request)))\<rparr>,
      rq_headers := insert_all H [(lit ''Connection'', lit ''Upgrade''), (lit ''Upgrade'', lit ''websocket''),
        (lit ''Sec-WebSocket-Version'', WEB_SOCKET_VERSION), (lit ''Sec-WebSocket-Key'', key)] (rq_headers (wq_inner request))\<rparr>\<rparr>"
  using assms handshake_tokens field_lits
  by (simp add: upgrade_request_def wsr_header_def on_inner_def request_header_token insert_all_def Let_def del: lit_simps)

lemma plain_insert_all: "plain m \<Longrightarrow> plain (insert_all H kvs m)"
  unfolding insert_all_def by (induction kvs arbitrary: m) auto

end

lemma upgrade_lookups:
  "last_value (upgrade_headers accept) (lower (lit ''Connection'')) = Some (lit ''Upgrade'')"
  "last_value (upgrade_headers accept) (lower (lit ''Upgrade'')) = Some (lit ''websocket'')"
  "last_value (upgrade_headers accept) (lower (lit ''Sec-WebSocket-Accept'')) = Some accept"
  by (simp_all add: last_value_def upgrade_headers_def lower_def ascii_lower_def in_range_def word_le_nat_alt)

context http_parser
begin

lemma check_response_upgrade:
  assumes "rr_status resp = 101" and "rr_headers resp = insert_all H (upgrade_headers accept) m"
    and "\<forall>b\<in>set accept. field_byte b"
  shows "check_response H accept resp = Ok ()"
proof -
  note get = get_insert_all [of _ "upgrade_headers accept" m, unfolded assms(2) [symmetric]] upgrade_lookups
  note str = headers_get_str_token [of _ "rr_headers resp"]
  have "headers_get_str H (KStr (lit ''Connection'')) (rr_headers resp) = Ok (Some (lit ''Upgrade''))"
    "headers_get_str H (KStr (lit ''Upgrade'')) (rr_headers resp) = Ok (Some (lit ''websocket''))"
    "headers_get_str H (KStr (lit ''Sec-WebSocket-Accept'')) (rr_headers resp) = Ok (Some accept)"
    using handshake_tokens field_lits assms(3) by (auto intro!: str simp: get simp del: lit_simps)
  then show ?thesis by (simp add: check_response_def check_header_def assms(1) del: lit_simps)
qed

end

locale upgrade_client = http_client X sent incoming plain + codec "wh_codec X"
  for X :: "('w, 't, 'v, 'b, 'u, 'm, 'x) ws_http_env_scheme" and sent :: "'v \<times> 'w \<Rightarrow> bytes"
    and incoming :: "'b \<times> 'w \<Rightarrow> bytes" and plain :: "'m \<Rightarrow> bool"
begin

lemma encode_field: "\<forall>b\<in>set (kc_encode (wh_codec X) xs). field_byte b"
proof
  fix b assume "b \<in> set (kc_encode (wh_codec X) xs)"
  then have "visible b" by (rule encode_visible)
  then show "field_byte b" by (auto simp: field_byte_def visible_def in_range_def word_le_nat_alt)
qed

lemma accept_header_ok: "\<forall>kv\<in>set (upgrade_headers (accept_text (wh_codec X) key)). header_ok kv"
proof -
  obtain b t where bt: "accept_text (wh_codec X) key = b # t"
    using length_encode [of "kc_sha1 (wh_codec X) (key @ WEB_SOCKET_GUID)"] length_sha1
    by (cases "accept_text (wh_codec X) key") (simp_all add: accept_text_def)
  then have "b \<in> set (accept_text (wh_codec X) key)" by simp
  then have "visible b" unfolding accept_text_def by (rule encode_visible)
  then have "visible (hd (accept_text (wh_codec X) key))" using bt by simp
  moreover have "\<forall>b\<in>set (accept_text (wh_codec X) key). field_byte b"
    unfolding accept_text_def by (rule encode_field)
  moreover have "visible (hd (lit ''Upgrade''))" "visible (hd (lit ''websocket''))"
    by (simp_all add: visible_def in_range_def word_le_nat_alt)
  ultimately show ?thesis
    using handshake_tokens(1,2,5) field_lits(1,2) by (simp add: upgrade_headers_def header_ok_def del: lit_simps)
qed

lemma connect_accepts:
  assumes random: "wh_random X w = (data, w0)" "length data = 16"
    and key: "key = kc_encode (wh_codec X) data"
    and ureq: "request1 = upgrade_request (he_headers X) key request"
    and url: "rq_request (wq_inner request) = Ok u" and host: "ensure_host X u (wq_inner request1) = Ok request2"
    and taken: "taken = request2\<lparr>rq_body := None\<rparr>"
    and conn: "get_connection_for X taken u w0 = Some (Ok (conn, stats), w1)"
    and ans: "answers X sent incoming conn w1 (request_head X taken Http11 u @ payload_bytes (rq_body request2))
        (upgrade_response reason (accept_text (wh_codec X) key) @ rest) later"
    and reason: "\<forall>b\<in>set reason. field_byte b"
    and ver: "op_min_version (rq_options taken) \<le> Http11" "Http11 \<le> op_max_version (rq_options taken)"
    and small: "length reason + 200 \<le> unat (op_maximum_header_size (rq_options taken))"
    and intime: "wh_transfer_timeout X (wo_handshake_timeout (wq_options request)) (transfer X) (wq_inner request1, w0)
        = map_option (\<lambda>(out, s). (Some out, s)) (transfer X (wq_inner request1, w0))"
  shows "\<exists>reader s. ws_connect X (request, w) = Some (Ok reader, s)
    \<and> br_buffer (he_lines X) (reader, snd s) = rest \<and> incoming (reader, snd s) = later"
proof -
  let ?accept = "accept_text (wh_codec X) key" and ?H = "he_headers X"
  have keys: "key_texts (wh_codec X) \<lparr>key_data = data\<rparr> = Ok (key, ?accept)"
    using key_texts_ok [of "\<lparr>key_data = data\<rparr>"] random(2) by (simp add: key)
  have url1: "rq_request (wq_inner request1) = Ok u"
    using url encode_field by (simp add: ureq key upgrade_request_headers)
  have status: "the (hl_status ?H (lit ''101'')) = 101"
    using status_digits [of "0x31" "0x30" "0x31"] by (simp add: in_range_def word_le_nat_alt)
  have acc: "length ?accept = 28" by (simp add: accept_text_def length_encode length_sha1)
  have len: "length (status_line Http11 (lit ''101'') reason @ header_wire (upgrade_headers ?accept))
      \<le> unat (op_maximum_header_size (rq_options taken))"
    using small acc by (simp add: status_line_def crlf_def header_wire_def header_line_def upgrade_headers_def del: lit_simps)
  have ans': "answers X sent incoming conn w1 (request_head X taken Http11 u @ payload_bytes (rq_body request2))
      (status_line Http11 (lit ''101'') reason @ header_wire (upgrade_headers ?accept) @ crlf @ rest) later"
    using ans by (simp add: upgrade_response_def)
  obtain resp reader w' where ex: "exchange X taken u (rq_body request2) (hl_new ?H) w0
        = Some (Ok (resp, reader, payload_after (rq_body request2)), w')"
    and r: "rr_status resp = 101" "rr_headers resp = insert_all ?H (upgrade_headers ?accept) (hl_clear ?H (hl_new ?H))"
      "br_buffer (he_lines X) (reader, w') = rest" "incoming (reader, w') = later"
    using exchange_result [OF conn ans' _ _ _ _ reason accept_header_ok _ ver len, of "0x31" "0x30" "0x31" "hl_new ?H"] status
    by (auto simp: in_range_def word_le_nat_alt)
  have t: "transfer X (wq_inner request1, w0)
      = Some (Ok (resp\<lparr>rr_url := None\<rparr>, reader), taken\<lparr>rq_body := payload_after (rq_body request2)\<rparr>, w')"
    using transfer_direct [OF url1 host taken ex] r(1) by (simp add: is_redirection_def)
  have "\<forall>b\<in>set ?accept. field_byte b" using encode_field by (simp add: accept_text_def)
  then have "check_response ?H ?accept (resp\<lparr>rr_url := None\<rparr>) = Ok ()"
    using check_response_upgrade [of "resp\<lparr>rr_url := None\<rparr>" ?accept] r by simp
  then show ?thesis
    using intime t r keys by (simp add: ws_connect_def Key_new_def random(1) ureq Let_def)
qed

end

end
