(* ===== verification/Key_Codec.thy ===== *)
theory Key_Codec
  imports Ws_Handshake_Laws
begin

text \<open>
  The contract \<open>codec\<close> on a concrete base64 (RFC 4648, with padding), and a stand-in of the right length
  for the digest.
\<close>

definition b64_char :: "nat \<Rightarrow> u8" where
  "b64_char d = (if d < 26 then word_of_nat (0x41 + d) else if d < 52 then word_of_nat (0x47 + d)
     else if d < 62 then word_of_nat (d - 4) else if d = 62 then 0x2B else 0x2F)"

definition b64_value :: "u8 \<Rightarrow> nat option" where
  "b64_value b =
     (if in_range 0x41 0x5A b then Some (unat b - 0x41) else if in_range 0x61 0x7A b then Some (unat b - 0x47)
      else if in_range 0x30 0x39 b then Some (unat b + 4) else if b = 0x2B then Some 62 else if b = 0x2F then Some 63
      else None)"

fun b64_encode :: "bytes \<Rightarrow> bytes" where
  "b64_encode [] = []"
| "b64_encode [a] = [b64_char (unat a div 4), b64_char (unat a mod 4 * 16), 0x3D, 0x3D]"
| "b64_encode [a, b] = [b64_char (unat a div 4), b64_char (unat a mod 4 * 16 + unat b div 16),
     b64_char (unat b mod 16 * 4), 0x3D]"
| "b64_encode (a # b # c # rest) = [b64_char (unat a div 4), b64_char (unat a mod 4 * 16 + unat b div 16),
     b64_char (unat b mod 16 * 4 + unat c div 64), b64_char (unat c mod 64)] @ b64_encode rest"

fun b64_decode :: "bytes \<Rightarrow> bytes option" where
  "b64_decode [] = Some []"
| "b64_decode (p # q # r # s # rest) =
     (case (b64_value p, b64_value q, b64_value r, b64_value s) of
        (Some p, Some q, Some r, Some s) \<Rightarrow>
          map_option (\<lambda>xs. [word_of_nat (p * 4 + q div 16), word_of_nat (q mod 16 * 16 + r div 4),
            word_of_nat (r mod 4 * 64 + s)] @ xs) (b64_decode rest)
      | (Some p, Some q, Some r, None) \<Rightarrow>
          if s = 0x3D \<and> rest = [] \<and> r mod 4 = 0
          then Some [word_of_nat (p * 4 + q div 16), word_of_nat (q mod 16 * 16 + r div 4)] else None
      | (Some p, Some q, None, None) \<Rightarrow>
          if r = 0x3D \<and> s = 0x3D \<and> rest = [] \<and> q mod 16 = 0 then Some [word_of_nat (p * 4 + q div 16)] else None
      | _ \<Rightarrow> None)"
| "b64_decode _ = None"

definition toy_codec :: key_codec where
  "toy_codec = \<lparr>kc_encode = b64_encode,
     kc_decode = (\<lambda>s n. case b64_decode s of Some xs \<Rightarrow> if length xs \<le> n then Some xs else None | None \<Rightarrow> None),
     kc_sha1 = (\<lambda>xs. take 20 (rev xs @ replicate 20 0))\<rparr>"

lemma unat_b64_char:
  "d < 64 \<Longrightarrow> unat (b64_char d) = (if d < 26 then 0x41 + d else if d < 52 then 0x47 + d
     else if d < 62 then d - 4 else if d = 62 then 0x2B else 0x2F)"
  by (auto simp: b64_char_def unsigned_of_nat take_bit_nat_eq_self_iff simp del: of_nat_add of_nat_diff)

lemma b64_value_char: "d < 64 \<Longrightarrow> b64_value (b64_char d) = Some d"
  by (auto simp: b64_value_def in_range_def word_le_nat_alt unat_b64_char word_unat_eq_iff)

lemma b64_char_visible: "d < 64 \<Longrightarrow> visible (b64_char d)"
  by (auto simp: visible_def in_range_def word_le_nat_alt unat_b64_char)

lemma b64_digits:
  "unat (a :: u8) div 4 < 64" "unat (a :: u8) mod 4 * 16 < 64" "unat (b :: u8) mod 16 * 4 < 64"
  "unat (a :: u8) mod 4 * 16 + unat (b :: u8) div 16 < 64" "unat (b :: u8) mod 16 * 4 + unat (c :: u8) div 64 < 64"
  "unat (c :: u8) mod 64 < 64"
  using u8_less [of a] u8_less [of b] u8_less [of c] by linarith+

lemma join_digits: "y < m \<Longrightarrow> (x * m + y) div m = (x :: nat)" "y < m \<Longrightarrow> (x * m + y) mod m = (y :: nat)"
  by simp_all

lemma b64_split:
  "(unat (a :: u8) mod 4 * 16 + unat (b :: u8) div 16) div 16 = unat a mod 4"
  "(unat (a :: u8) mod 4 * 16 + unat (b :: u8) div 16) mod 16 = unat b div 16"
  "(unat (b :: u8) mod 16 * 4 + unat (c :: u8) div 64) div 4 = unat b mod 16"
  "(unat (b :: u8) mod 16 * 4 + unat (c :: u8) div 64) mod 4 = unat c div 64"
proof -
  have "unat b div 16 < 16" using u8_less [of b] by linarith
  then show "(unat a mod 4 * 16 + unat b div 16) div 16 = unat a mod 4"
    "(unat a mod 4 * 16 + unat b div 16) mod 16 = unat b div 16" by (rule join_digits)+
  have "unat c div 64 < 4" using u8_less [of c] by linarith
  then show "(unat b mod 16 * 4 + unat c div 64) div 4 = unat b mod 16"
    "(unat b mod 16 * 4 + unat c div 64) mod 4 = unat c div 64" by (rule join_digits)+
qed

lemma b64_high: "unat (b :: u8) div 16 mod 16 = unat b div 16" "unat (c :: u8) div 64 mod 4 = unat c div 64"
  using u8_less [of b] u8_less [of c] by (auto intro!: mod_less)

lemma b64_decode_encode: "b64_decode (b64_encode xs) = Some xs"
proof (induction xs rule: b64_encode.induct)
  case (2 a)
  have "b64_value 0x3D = None" by (simp add: b64_value_def in_range_def word_le_nat_alt)
  then show ?case by (simp add: b64_value_char b64_digits del: of_nat_add)
next
  case (3 a b)
  have "b64_value 0x3D = None" by (simp add: b64_value_def in_range_def word_le_nat_alt)
  then show ?case by (simp add: b64_value_char b64_digits b64_split b64_high del: of_nat_add)
next
  case (4 a b c rest)
  then show ?case by (simp add: b64_value_char b64_digits b64_split b64_high del: of_nat_add)
qed simp

lemma length_b64: "length (b64_encode xs) = 4 * ((length xs + 2) div 3)"
proof (induction xs rule: b64_encode.induct)
  case (4 a b c rest)
  have "(length (a # b # c # rest) + 2) div 3 = (length rest + 2) div 3 + 1" by simp
  with 4 show ?case by simp
qed simp_all

lemma b64_visible: "b \<in> set (b64_encode xs) \<Longrightarrow> visible b"
  by (induction xs rule: b64_encode.induct)
    (auto simp: b64_char_visible b64_digits visible_def [of "0x3D"] in_range_def word_le_nat_alt)

interpretation toy_codec: codec toy_codec
  by unfold_locales
    (auto simp: toy_codec_def length_b64 b64_decode_encode split: option.splits if_splits intro: b64_visible)

text \<open>The example of RFC 6455.\<close>

lemma b64_example: "b64_encode (lit ''the sample nonce'') = lit ''dGhlIHNhbXBsZSBub25jZQ==''"
  by (simp add: b64_char_def)

end
