(* ===== verification/Ws_Upgrade.thy ===== *)
theory Ws_Upgrade
  imports Key_Codec
begin

text \<open>
  The properties of the opening handshake (\<open>src/src/ws/transfer.rs\<close>), and the scripted environment of
  theory \<open>Http_Client\<close> with what a WebSocket needs besides.
\<close>

section \<open>The request of a client as the server sees it\<close>

lemma ensure_host_headers:
  assumes "header_map (he_headers X) plain" and "plain (rq_headers request)" and "ensure_host X u request = Ok request1"
  shows "plain (rq_headers request1)" and "rq_method request1 = rq_method request"
    and "n \<noteq> lit ''host'' \<Longrightarrow> hl_get (he_headers X) n (rq_headers request1) = hl_get (he_headers X) n (rq_headers request)"
  using assms header_map.plain_insert [OF assms(1)] header_map.get_insert [OF assms(1)]
  by (auto simp: ensure_host_def headers_insert_def map_ok_Ok_iff res_bind_Ok_iff simp del: lit_simps
      split: if_splits option.splits)

lemma last_values:
  assumes "kvs = [(lit ''Connection'', a), (lit ''Upgrade'', b), (lit ''Sec-WebSocket-Version'', c), (lit ''Sec-WebSocket-Key'', d)]"
  shows "last_value kvs (lower (lit ''Connection'')) = Some a" "last_value kvs (lower (lit ''Upgrade'')) = Some b"
    "last_value kvs (lower (lit ''Sec-WebSocket-Version'')) = Some c" "last_value kvs (lower (lit ''Sec-WebSocket-Key'')) = Some d"
  by (simp_all add: assms last_value_def lower_def ascii_lower_def in_range_def word_le_nat_alt)

lemma not_host:
  "lower (lit ''Connection'') \<noteq> lit ''host''" "lower (lit ''Upgrade'') \<noteq> lit ''host''"
  "lower (lit ''Sec-WebSocket-Version'') \<noteq> lit ''host''" "lower (lit ''Sec-WebSocket-Key'') \<noteq> lit ''host''"
  by (simp_all add: lower_def ascii_lower_def in_range_def word_le_nat_alt)

lemma client_offers:
  assumes H: "header_map (he_headers X) plain" and plain: "plain (rq_headers (wq_inner request))"
    and key: "\<forall>b\<in>set key. field_byte b"
    and host: "ensure_host X u (wq_inner (upgrade_request (he_headers X) key request)) = Ok request1"
    and names: "\<forall>kv\<in>set (hl_entries (he_headers X) (rq_headers request1)). lower (fst kv) = fst kv"
  shows "offered_key (last_value (hl_entries (he_headers X) (rq_headers request1))) = Some key"
proof -
  let ?H = "he_headers X"
  let ?kvs = "[(lit ''Connection'', lit ''Upgrade''), (lit ''Upgrade'', lit ''websocket''),
    (lit ''Sec-WebSocket-Version'', WEB_SOCKET_VERSION), (lit ''Sec-WebSocket-Key'', key)]"
  have hdrs: "rq_headers (wq_inner (upgrade_request ?H key request)) = insert_all ?H ?kvs (rq_headers (wq_inner request))"
    by (simp add: header_map.upgrade_request_headers [OF H key] del: lit_simps)
  have p: "plain (rq_headers (wq_inner (upgrade_request ?H key request)))"
    unfolding hdrs by (rule header_map.plain_insert_all [OF H plain])
  note e = ensure_host_headers [OF H p host]
  have "last_value (hl_entries ?H (rq_headers request1)) n = hl_get ?H n (rq_headers request1)" for n
    by (rule header_map.last_value_entries [OF H e(1) names])
  then have look: "last_value (hl_entries ?H (rq_headers request1)) n = last_value ?kvs n"
    if "n \<noteq> lit ''host''" and "last_value ?kvs n \<noteq> None" for n
    using that e(3) by (auto simp: hdrs header_map.get_insert_all [OF H] simp del: lit_simps)
  note v = last_values [OF refl, of "lit ''Upgrade''" "lit ''websocket''" WEB_SOCKET_VERSION key]
  show ?thesis
    by (simp add: offered_key_def offers_def look v not_host del: lit_simps)
qed

section \<open>A scripted environment\<close>

definition toy_ws ::
  "(bytes \<Rightarrow> bytes list) \<Rightarrow> bytes \<Rightarrow>
    (http_world, toy_tls, toy_tls HttpConn, toy_reader, bytes, (bytes \<times> bytes) list) ws_http_env" where
  "toy_ws server data = http_env.extend (toy_http server)
     \<lparr>wh_codec = toy_codec, wh_random = (\<lambda>w. (data, w)),
      wh_into_parts = (\<lambda>r. (tr_conn r, tr_buf r, 0)),
      wh_from_parts = (\<lambda>conn buf pos. \<lparr>tr_conn = conn, tr_buf = drop pos buf, tr_free = pos, tr_rest = None\<rparr>),
      wh_accept = (\<lambda>listener. io_return (Suc listener)),
      wh_transfer_timeout = (\<lambda>d m s. map_option (\<lambda>(out, s). (Some out, s)) (m s)),
      wh_upgrade_timeout = (\<lambda>d m s. map_option (\<lambda>(out, s). (Some out, s)) (m s)), \<dots> = ()\<rparr>"

lemma toy_ws_simps [simp]:
  "he_urls (toy_ws server data) = he_urls (toy_http server)" "he_headers (toy_ws server data) = he_headers (toy_http server)"
  "he_lines (toy_ws server data) = he_lines (toy_http server)" "he_net (toy_ws server data) = he_net (toy_http server)"
  "he_tls (toy_ws server data) = he_tls (toy_http server)" "he_conns (toy_ws server data) = he_conns (toy_http server)"
  "he_resolver (toy_ws server data) = he_resolver (toy_http server)"
  "he_tls_config (toy_ws server data) = he_tls_config (toy_http server)"
  "wh_codec (toy_ws server data) = toy_codec" "wh_random (toy_ws server data) w = (data, w)"
  by (simp_all add: toy_ws_def http_env.defs)

lemma toy_ws_intime: "wh_transfer_timeout (toy_ws server data) d m s = map_option (\<lambda>(out, s). (Some out, s)) (m s)"
  by (simp add: toy_ws_def http_env.defs)

lemma toy_ws_connection: "get_connection_for (toy_ws server data) = get_connection_for (toy_http server)"
  by (intro ext) (simp only: get_connection_for_def connection_options_def toy_ws_simps)

interpretation toy_client: upgrade_client "toy_ws server data" toy_sent "toy_incoming server" "\<lambda>m. distinct (map fst m)"
  for server data
proof (intro upgrade_client.intro http_client.intro)
  show "http_writer (toy_ws server data) toy_sent"
    using toy_http.http_writer_axioms by (simp add: http_writer_def)
  show "http_parser (he_lines (toy_ws server data)) (toy_incoming server) (he_headers (toy_ws server data)) (\<lambda>m. distinct (map fst m))"
    using toy_http.http_parser_axioms by simp
  show "codec (wh_codec (toy_ws server data))"
    using toy_codec.codec_axioms by simp
qed

interpretation toy_server: upgrade_server "toy_ws server data" toy_sent "toy_incoming server" "\<lambda>m. distinct (map fst m)"
    "lit ''Switching Protocols''" for server data
proof (intro upgrade_server.intro)
  show "upgrade_server_axioms (toy_ws server data) (lit ''Switching Protocols'')"
  proof
    show "hl_reason (he_headers (toy_ws server data)) 101 = Some (lit ''Switching Protocols'')"
      by (simp add: toy_http_def alist_lib_def)
    fix reader conn buf pos w w'
    assume "wh_into_parts (toy_ws server data) reader = (conn, buf, pos)"
    then show "br_buffer (he_lines (toy_ws server data)) (wh_from_parts (toy_ws server data) conn buf pos, w')
        = br_buffer (he_lines (toy_ws server data)) (reader, w)"
      by (auto simp: toy_ws_def http_env.defs toy_http_def toy_lines_def buf_read.defs lift_reader_def script_ops_def reader_view_def)
  qed
qed (rule toy_client.http_writer_axioms toy_client.http_parser_axioms toy_client.codec_axioms)+

text \<open>A request made by \<open>open\<close>, with the nonce of the example of RFC 6455.\<close>

definition toy_request :: "(bytes, (bytes \<times> bytes) list) WsRequest" where
  "toy_request = \<lparr>wq_inner = \<lparr>rq_options = Options_new, rq_request = Ok (lit ''ws:px''), rq_method = lit ''GET'',
     rq_headers = [], rq_body = None\<rparr>, wq_options = WebSocketOptions_new\<rparr>"

definition toy_nonce :: bytes where
  "toy_nonce = lit ''the sample nonce''"

definition toy_headers :: "(bytes \<times> bytes) list" where
  "toy_headers = [(lit ''connection'', lit ''Upgrade''), (lit ''upgrade'', lit ''websocket''), (lit ''sec-websocket-version'', lit ''13''),
     (lit ''sec-websocket-key'', lit ''dGhlIHNhbXBsZSBub25jZQ==''), (lit ''host'', lit ''px'')]"

definition toy_taken :: "(bytes, (bytes \<times> bytes) list) Request" where
  "toy_taken = (wq_inner toy_request)\<lparr>rq_headers := toy_headers\<rparr>"

definition toy_upgrade_bytes :: bytes where
  "toy_upgrade_bytes = lit ''GET / HTTP/1.1'' @ crlf @ header_wire toy_headers @ crlf"

lemma toy_open: "ws_open toy_urls alist_lib (lit ''ws:px'') = Ok toy_request"
  by (simp add: ws_open_def toy_request_def request_base_new_def toy_urls_def set_secure_if_def request_url_def
      Request_new_def alist_lib_def)

lemma toy_nonce_key: "kc_encode toy_codec toy_nonce = lit ''dGhlIHNhbXBsZSBub25jZQ==''" "length toy_nonce = 16"
  unfolding toy_nonce_def by (simp_all add: toy_codec_def b64_example del: lit_simps b64_encode.simps)

lemma toy_key_field: "\<forall>b\<in>set (lit ''dGhlIHNhbXBsZSBub25jZQ==''). field_byte b"
  by (simp add: field_byte_def in_range_def word_le_nat_alt)

lemma toy_host:
  "ensure_host (toy_ws server data) (lit ''ws:px'') (wq_inner (upgrade_request alist_lib (lit ''dGhlIHNhbXBsZSBub25jZQ=='') toy_request))
    = Ok toy_taken"
proof -
  have "insert_all alist_lib [(lit ''Connection'', lit ''Upgrade''), (lit ''Upgrade'', lit ''websocket''),
      (lit ''Sec-WebSocket-Version'', WEB_SOCKET_VERSION), (lit ''Sec-WebSocket-Key'', lit ''dGhlIHNhbXBsZSBub25jZQ=='')] []
      = butlast toy_headers"
    by (simp add: insert_all_def alist_lib_def lower_def ascii_lower_def in_range_def word_le_nat_alt toy_headers_def
        WEB_SOCKET_VERSION_def)
  then have "wq_inner (upgrade_request alist_lib (lit ''dGhlIHNhbXBsZSBub25jZQ=='') toy_request)
      = toy_taken\<lparr>rq_headers := butlast toy_headers\<rparr>"
    by (simp add: alist.upgrade_request_headers [OF toy_key_field] toy_request_def toy_taken_def Options_new_def del: lit_simps)
  then show ?thesis
    by (simp add: ensure_host_def headers_contains_key_def headers_insert_def toy_http_def alist_lib_def toy_urls_def
        toy_headers_def toy_taken_def field_byte_def in_range_def word_le_nat_alt)
qed

lemma toy_head: "request_head (toy_ws server data) toy_taken Http11 u = toy_upgrade_bytes"
  by (simp add: request_head_def toy_taken_def toy_request_def toy_upgrade_bytes_def request_line_def toy_http_def toy_urls_def
      alist_lib_def crlf_def)

lemma toy_entries: "\<forall>kv\<in>set toy_headers. header_ok kv \<and> lower (fst kv) = fst kv"
  by (simp add: toy_headers_def header_ok_def token_def token_byte_def field_byte_def visible_def lower_def ascii_lower_def
      in_range_def word_le_nat_alt)

lemma length_toy_upgrade: "length toy_upgrade_bytes \<le> 4096" "toy_upgrade_bytes \<noteq> []"
  by (simp_all add: toy_upgrade_bytes_def toy_headers_def header_wire_def header_line_def crlf_def)

text \<open>The first \<open>fill\<close> of a server.\<close>

lemma toy_first_fill:
  assumes "response \<noteq> []" and "length response \<le> 4096"
  shows "\<exists>n r1. br_fill (toy_lines (\<lambda>_. [response])) (cl_reader toy_conns (PlainConn 0), toy_world) = Some (Ok n, r1)
    \<and> br_buffer (toy_lines (\<lambda>_. [response])) r1 = response
    \<and> br_buffer (toy_lines (\<lambda>_. [response])) (cl_reader toy_conns (PlainConn 0), toy_world) = []"
proof -
  have "answers (toy_http (\<lambda>_. [response])) toy_sent (toy_incoming (\<lambda>_. [response])) (PlainConn 0) toy_world [] response []"
    by (rule toy_answers) (use assms in \<open>simp_all add: toy_world_def\<close>)
  then have "\<exists>n r. br_fill (toy_lines (\<lambda>_. [response])) (cl_reader toy_conns (PlainConn 0), toy_world) = Some (Ok n, r)
      \<and> br_buffer (toy_lines (\<lambda>_. [response])) r = response"
    unfolding answers_def by (auto simp: toy_http_def toy_conns_def dest!: spec [of _ "PlainConn 0"] spec [of _ toy_world])
  then show ?thesis
    by (auto simp: toy_lines_def buf_read.defs lift_reader_def script_ops_def reader_view_def toy_conns_def)
qed

definition toy_reply_101 :: bytes where
  "toy_reply_101 = upgrade_response (lit ''Switching Protocols'') (accept_text toy_codec (kc_encode toy_codec toy_nonce))"

lemma toy_reply_101_bounds: "toy_reply_101 \<noteq> []" "length toy_reply_101 \<le> 4096"
proof -
  have "length (accept_text toy_codec k) = 28" for k
    by (simp add: accept_text_def toy_codec.length_encode toy_codec.length_sha1)
  then show "toy_reply_101 \<noteq> []" "length toy_reply_101 \<le> 4096"
    by (simp_all add: toy_reply_101_def upgrade_response_def status_line_def crlf_def header_wire_def header_line_def
        upgrade_headers_def del: lit_simps)
qed

lemma toy_reason: "\<forall>b\<in>set (lit ''Switching Protocols''). field_byte b"
  by (simp add: field_byte_def in_range_def word_le_nat_alt)

text \<open>The facts about the client of a request to \<open>ws:px\<close>.\<close>

lemma toy_request_facts:
  "rq_method (wq_inner toy_request) = lit ''GET''" "distinct (map fst (rq_headers (wq_inner toy_request)))"
  "rq_request (wq_inner toy_request) = Ok (lit ''ws:px'')" "toy_taken = toy_taken\<lparr>rq_body := None\<rparr>" "rq_body toy_taken = None"
  "op_min_version (rq_options toy_taken) \<le> Http11" "Http11 \<le> op_max_version (rq_options toy_taken)"
  "length (lit ''Switching Protocols'') + 200 \<le> unat (op_maximum_header_size (rq_options toy_taken))"
  by (simp_all add: toy_taken_def toy_request_def Options_new_def less_eq_Version_def DEFAULT_MAXIMUM_HEADER_SIZE_def)

lemma toy_ws_host:
  "ensure_host (toy_ws server data) (lit ''ws:px'')
      (wq_inner (upgrade_request (he_headers (toy_ws server data)) (kc_encode (wh_codec (toy_ws server data)) toy_nonce) toy_request))
    = Ok toy_taken"
proof -
  have "he_headers (toy_ws server data) = alist_lib" by (simp add: toy_http_def)
  then show ?thesis unfolding toy_ws_simps(9) toy_nonce_key(1) using toy_host [of server data] by (simp only:)
qed

lemma toy_ws_response:
  "toy_reply_101 = upgrade_response (lit ''Switching Protocols'')
    (accept_text (wh_codec (toy_ws server data)) (kc_encode (wh_codec (toy_ws server data)) toy_nonce))"
  by (simp add: toy_reply_101_def del: lit_simps)

lemma toy_ws_connect:
  obtains st stats w1 where
    "get_connection_for (toy_ws (\<lambda>_. [toy_reply_101]) data) toy_taken (lit ''ws:px'') toy_world = Some (Ok (PlainConn st, stats), w1)"
    "answers (toy_ws (\<lambda>_. [toy_reply_101]) data) toy_sent (toy_incoming (\<lambda>_. [toy_reply_101])) (PlainConn st) w1
      (request_head (toy_ws (\<lambda>_. [toy_reply_101]) data) toy_taken Http11 (lit ''ws:px'') @ payload_bytes (rq_body toy_taken))
      (toy_reply_101 @ []) []"
proof -
  let ?X = "toy_ws (\<lambda>_. [toy_reply_101]) data"
  obtain st stats w1 where conn: "get_connection_for (toy_http (\<lambda>_. [toy_reply_101])) toy_taken (lit ''ws:px'') toy_world
      = Some (Ok (PlainConn st, stats), w1)" "hw_sent w1 st = []"
    using toy_connect [of toy_taken "lit ''px''" "lit ''ws:px''" "lit ''x''" "\<lambda>_. [toy_reply_101]" toy_world]
    by (auto simp: toy_taken_def toy_request_def Options_new_def)
  have bytes: "request_head ?X toy_taken Http11 (lit ''ws:px'') @ payload_bytes (rq_body toy_taken) = toy_upgrade_bytes"
    by (simp add: toy_head payload_bytes_def toy_request_facts(5))
  have "answers ?X toy_sent (toy_incoming (\<lambda>_. [toy_reply_101])) (PlainConn st) w1
      (request_head ?X toy_taken Http11 (lit ''ws:px'') @ payload_bytes (rq_body toy_taken)) (toy_reply_101 @ []) []"
    unfolding bytes
    using toy_answers [of w1 "PlainConn st" "\<lambda>_. [toy_reply_101]" "toy_upgrade_bytes" toy_reply_101] conn(2) toy_reply_101_bounds
    by (simp add: answers_def del: lit_simps)
  then show ?thesis by (rule that [rotated]) (simp only: toy_ws_connection conn(1))
qed

lemma toy_connects:
  "\<exists>reader s. ws_connect (toy_ws (\<lambda>_. [toy_reply_101]) toy_nonce) (toy_request, toy_world) = Some (Ok reader, s)"
proof -
  obtain st stats w1 where c:
    "get_connection_for (toy_ws (\<lambda>_. [toy_reply_101]) toy_nonce) toy_taken (lit ''ws:px'') toy_world = Some (Ok (PlainConn st, stats), w1)"
    "answers (toy_ws (\<lambda>_. [toy_reply_101]) toy_nonce) toy_sent (toy_incoming (\<lambda>_. [toy_reply_101])) (PlainConn st) w1
      (request_head (toy_ws (\<lambda>_. [toy_reply_101]) toy_nonce) toy_taken Http11 (lit ''ws:px'') @ payload_bytes (rq_body toy_taken))
      (toy_reply_101 @ []) []"
    by (rule toy_ws_connect)
  have ans: "answers (toy_ws (\<lambda>_. [toy_reply_101]) toy_nonce) toy_sent (toy_incoming (\<lambda>_. [toy_reply_101])) (PlainConn st) w1
      (request_head (toy_ws (\<lambda>_. [toy_reply_101]) toy_nonce) toy_taken Http11 (lit ''ws:px'') @ payload_bytes (rq_body toy_taken))
      (upgrade_response (lit ''Switching Protocols'') (accept_text (wh_codec (toy_ws (\<lambda>_. [toy_reply_101]) toy_nonce))
        (kc_encode (wh_codec (toy_ws (\<lambda>_. [toy_reply_101]) toy_nonce)) toy_nonce)) @ []) []"
    by (subst toy_ws_response [symmetric]) (rule c(2))
  from toy_client.connect_accepts [OF toy_ws_simps(10) toy_nonce_key(2) refl refl toy_request_facts(3) toy_ws_host
      toy_request_facts(4) c(1) ans toy_reason toy_request_facts(6-8) toy_ws_intime]
  show ?thesis by blast
qed

section \<open>Properties\<close>

text \<open>C14: What \<open>handle_upgrade\<close> does with a well-formed request that arrives in one piece: if its headers ask for
  version 13 of the protocol with a key that decodes, exactly the 101 response with the matching
  \<open>Sec-WebSocket-Accept\<close> is written, and what the client sent behind the request is still in the buffer
  of the reader returned; otherwise the error is \<open>InvalidClientRequest\<close> or \<open>InvalidKey\<close> and nothing is
  written.\<close>

theorem handle_upgrade_result:
  assumes server: "upgrade_server X sent incoming plain reason"
    and fill: "br_fill (he_lines X) (cl_reader (he_conns X) stream, w) = Some (Ok n, r1)"
    and empty: "br_buffer (he_lines X) (cl_reader (he_conns X) stream, w) = []"
    and buf: "br_buffer (he_lines X) r1 = request_line (lit ''GET'') path Http11 @ header_wire kvs @ crlf @ rest"
    and path: "\<forall>b\<in>set path. visible b" and kvs: "\<forall>kv\<in>set kvs. header_ok kv"
    and small: "length (request_line (lit ''GET'') path Http11 @ header_wire kvs) \<le> unat DEFAULT_MAXIMUM_HEADER_SIZE"
  shows "\<exists>headers reader w1. handle_request (he_lines X) (he_headers X) (cl_reader (he_conns X) stream, w)
      = Some (Ok headers, reader, w1) \<and>
    (case res_bind (ok_or (WebSocketE InvalidClientRequest) (offered_key (last_value kvs))) (Key_from (wh_codec X)) of
        Ok k \<Rightarrow> \<exists>reader' s. handle_upgrade X stream w = Some (Ok reader', snd s)
          \<and> sent s = sent (cl_writer (he_conns X) (fst (wh_into_parts X reader)), w1)
              @ upgrade_response reason (accept_text (wh_codec X) (kc_encode (wh_codec X) (key_data k)))
          \<and> br_buffer (he_lines X) (reader', snd s) = rest
      | Err e \<Rightarrow> handle_upgrade X stream w = Some (Err e, w1)
      | Panic \<Rightarrow> False)"
  by (rule upgrade_server.upgrade_result [OF assms])

text \<open>C3: A client and a server of this library complete the handshake: the server finds the client's key in the
  bytes \<open>connect\<close> sends and answers it, and \<open>connect\<close> accepts the answer. The bytes that follow the
  request and the response are the first of the two sockets' streams.\<close>

theorem handshake_completes:
  assumes client: "upgrade_client X sent incoming plain" and server: "upgrade_server Y ssent sincoming splain reason"
    and codecs: "wh_codec Y = wh_codec X" and reason: "\<forall>b\<in>set reason. field_byte b"
    and random: "wh_random X w = (data, w0)" "length data = 16"
    and get: "rq_method (wq_inner request) = lit ''GET''" and plain: "plain (rq_headers (wq_inner request))"
    and url: "rq_request (wq_inner request) = Ok u" and path: "\<forall>b\<in>set (ul_path_and_query (he_urls X) u). visible b"
    and host: "ensure_host X u (wq_inner (upgrade_request (he_headers X) (kc_encode (wh_codec X) data) request)) = Ok request1"
    and taken: "taken = request1\<lparr>rq_body := None\<rparr>"
    and entries: "\<forall>kv\<in>set (hl_entries (he_headers X) (rq_headers taken)). header_ok kv \<and> lower (fst kv) = fst kv"
    and small: "length (request_head X taken Http11 u) \<le> unat DEFAULT_MAXIMUM_HEADER_SIZE"
    and fill: "br_fill (he_lines Y) (cl_reader (he_conns Y) stream, v) = Some (Ok n, r1)"
    and empty: "br_buffer (he_lines Y) (cl_reader (he_conns Y) stream, v) = []"
    and arrives: "br_buffer (he_lines Y) r1 = request_head X taken Http11 u @ client_data"
    and conn: "get_connection_for X taken u w0 = Some (Ok (conn, stats), w1)"
    and response: "response = upgrade_response reason (accept_text (wh_codec X) (kc_encode (wh_codec X) data))"
    and ans: "answers X sent incoming conn w1 (request_head X taken Http11 u @ payload_bytes (rq_body request1))
        (response @ server_data) later"
    and ver: "op_min_version (rq_options taken) \<le> Http11" "Http11 \<le> op_max_version (rq_options taken)"
    and limit: "length reason + 200 \<le> unat (op_maximum_header_size (rq_options taken))"
    and intime: "\<And>d m s. wh_transfer_timeout X d m s = map_option (\<lambda>(out, s). (Some out, s)) (m s)"
  shows "\<exists>reader s sreader t sconn v1. ws_connect X (request, w) = Some (Ok reader, s)
    \<and> br_buffer (he_lines X) (reader, snd s) = server_data \<and> incoming (reader, snd s) = later
    \<and> handle_upgrade Y stream v = Some (Ok sreader, snd t) \<and> ssent t = ssent (cl_writer (he_conns Y) sconn, v1) @ response
    \<and> br_buffer (he_lines Y) (sreader, snd t) = client_data"
proof -
  let ?key = "kc_encode (wh_codec X) data" and ?H = "he_headers X"
  let ?ureq = "upgrade_request ?H ?key request"
  have H: "header_map ?H plain" and codec: "codec (wh_codec X)"
    using client by (simp_all add: upgrade_client_def http_client_def http_parser_def)
  have field: "\<forall>b\<in>set ?key. field_byte b" by (rule upgrade_client.encode_field [OF client])
  have "plain (rq_headers (wq_inner ?ureq))"
    using header_map.plain_insert_all [OF H plain]
    by (simp add: header_map.upgrade_request_headers [OF H field] del: lit_simps)
  then have "rq_method taken = lit ''GET''"
    using ensure_host_headers(2) [OF H _ host] get
    by (simp add: taken header_map.upgrade_request_headers [OF H field] del: lit_simps)
  then have head: "request_head X taken Http11 u = request_line (lit ''GET'') (ul_path_and_query (he_urls X) u) Http11
      @ header_wire (hl_entries ?H (rq_headers taken)) @ crlf"
    by (simp add: request_head_def del: lit_simps)
  have offered: "offered_key (last_value (hl_entries ?H (rq_headers taken))) = Some ?key"
    using client_offers [OF H plain field host] entries by (simp add: taken)
  have decodes: "Key_from (wh_codec X) ?key = Ok \<lparr>key_data = data\<rparr>"
    using codec.Key_from_encode [OF codec, of "\<lparr>key_data = data\<rparr>"] random(2) by simp
  have arrives': "br_buffer (he_lines Y) r1 = request_line (lit ''GET'') (ul_path_and_query (he_urls X) u) Http11
      @ header_wire (hl_entries ?H (rq_headers taken)) @ crlf @ client_data"
    using arrives by (simp add: head del: lit_simps)
  have kvs: "\<forall>kv\<in>set (hl_entries ?H (rq_headers taken)). header_ok kv" using entries by blast
  have small': "length (request_line (lit ''GET'') (ul_path_and_query (he_urls X) u) Http11
      @ header_wire (hl_entries ?H (rq_headers taken))) \<le> unat DEFAULT_MAXIMUM_HEADER_SIZE"
    using small by (simp add: head del: lit_simps)
  from upgrade_server.upgrade_result [OF server fill empty arrives' path kvs small'] obtain sreader t sconn v1 where
    "handle_upgrade Y stream v = Some (Ok sreader, snd t)" "ssent t = ssent (cl_writer (he_conns Y) sconn, v1) @ response"
    "br_buffer (he_lines Y) (sreader, snd t) = client_data"
    by (auto simp: offered decodes codecs response simp del: lit_simps)
  moreover have "\<exists>reader s. ws_connect X (request, w) = Some (Ok reader, s)
      \<and> br_buffer (he_lines X) (reader, snd s) = server_data \<and> incoming (reader, snd s) = later"
    by (rule upgrade_client.connect_accepts [OF client random refl refl url host taken conn ans [unfolded response] reason ver limit])
      (rule intime)
  ultimately show ?thesis by blast
qed

text \<open>C13: \<open>connect\<close> returns a connection only if the response to the request with its own fresh key had status
  101, \<open>Connection: Upgrade\<close>, \<open>Upgrade: websocket\<close> and the \<open>Sec-WebSocket-Accept\<close> of that key (all three
  compared without regard to case).\<close>

theorem ws_connect_checked:
  assumes codec: "codec (wh_codec X)"
    and intime: "\<forall>d m s out s'. wh_transfer_timeout X d m s = Some (Some out, s') \<longrightarrow> m s = Some (out, s')"
    and random: "wh_random X w = (data, w0)" "length data = 16"
    and run: "ws_connect X (request, w) = Some (Ok reader, request', w')"
  shows "\<exists>resp. transfer X (wq_inner (upgrade_request (he_headers X) (kc_encode (wh_codec X) data) request), w0)
      = Some (Ok (resp, reader), wq_inner request', w') \<and> rr_status resp = 101
    \<and> (\<forall>(header, value) \<in> set (upgrade_headers (accept_text (wh_codec X) (kc_encode (wh_codec X) data))).
        \<exists>v. headers_get_str (he_headers X) (KStr header) (rr_headers resp) = Ok (Some v) \<and> eq_ignore_ascii_case v value)"
proof -
  let ?accept = "accept_text (wh_codec X) (kc_encode (wh_codec X) data)"
  have keys: "key_texts (wh_codec X) \<lparr>key_data = data\<rparr> = Ok (kc_encode (wh_codec X) data, ?accept)"
    using codec.key_texts_ok [OF codec, of "\<lparr>key_data = data\<rparr>"] random(2) by simp
  from run keys obtain resp where t: "transfer X (wq_inner (upgrade_request (he_headers X) (kc_encode (wh_codec X) data) request), w0)
      = Some (Ok (resp, reader), wq_inner request', w')" and c: "check_response (he_headers X) ?accept resp = Ok ()"
    by (auto simp: ws_connect_def Key_new_def random(1) Let_def res_bind_Ok_iff map_ok_Ok_iff ok_or_def
        dest!: intime [rule_format] split: option.splits)
  have header: "\<exists>v. headers_get_str (he_headers X) (KStr header) m = Ok (Some v) \<and> eq_ignore_ascii_case v expected"
    if "check_header (he_headers X) m header expected err = Ok u" for m header expected err u
    using that by (auto simp: check_header_def res_bind_Ok_iff split: if_splits option.splits)
  from c have "rr_status resp = 101" by (auto simp: check_response_def split: if_splits)
  with c t show ?thesis
    by (auto simp: check_response_def upgrade_headers_def res_bind_Ok_iff simp del: lit_simps dest: header)
qed

text \<open>A client opens \<open>ws:px\<close> and a server answers it.\<close>

theorem handshake_completes_witness:
  "\<exists>reader s sreader v. ws_connect (toy_ws (\<lambda>_. [toy_reply_101]) toy_nonce) (toy_request, toy_world) = Some (Ok reader, s)
    \<and> handle_upgrade (toy_ws (\<lambda>_. [toy_upgrade_bytes]) toy_nonce) (PlainConn 0) toy_world = Some (Ok sreader, v)"
proof -
  let ?X = "toy_ws (\<lambda>_. [toy_reply_101]) toy_nonce" and ?Y = "toy_ws (\<lambda>_. [toy_upgrade_bytes]) toy_nonce"
  obtain st stats w1 where c:
    "get_connection_for ?X toy_taken (lit ''ws:px'') toy_world = Some (Ok (PlainConn st, stats), w1)"
    "answers ?X toy_sent (toy_incoming (\<lambda>_. [toy_reply_101])) (PlainConn st) w1
      (request_head ?X toy_taken Http11 (lit ''ws:px'') @ payload_bytes (rq_body toy_taken)) (toy_reply_101 @ []) []"
    by (rule toy_ws_connect)
  obtain n r1 where fill: "br_fill (he_lines ?Y) (cl_reader (he_conns ?Y) (PlainConn 0), toy_world) = Some (Ok n, r1)"
    "br_buffer (he_lines ?Y) (cl_reader (he_conns ?Y) (PlainConn 0), toy_world) = []" "br_buffer (he_lines ?Y) r1 = toy_upgrade_bytes @ []"
    using toy_first_fill [OF length_toy_upgrade(2,1)] by (auto simp: toy_http_def)
  have H: "he_headers ?X = alist_lib" "he_urls ?X = toy_urls" by (simp_all add: toy_http_def)
  have codecs: "wh_codec ?Y = wh_codec ?X" by simp
  have path: "\<forall>b\<in>set (ul_path_and_query (he_urls ?X) (lit ''ws:px'')). visible b"
    unfolding H by (simp add: toy_urls_def visible_def in_range_def word_le_nat_alt)
  have "hl_entries (he_headers ?X) (rq_headers toy_taken) = toy_headers" unfolding H by (simp add: alist_lib_def toy_taken_def)
  then have entries: "\<forall>kv\<in>set (hl_entries (he_headers ?X) (rq_headers toy_taken)). header_ok kv \<and> lower (fst kv) = fst kv"
    using toy_entries by simp
  have small: "length (request_head ?X toy_taken Http11 (lit ''ws:px'')) \<le> unat DEFAULT_MAXIMUM_HEADER_SIZE"
    unfolding toy_head using length_toy_upgrade(1) by (simp add: DEFAULT_MAXIMUM_HEADER_SIZE_def)
  have arrives: "br_buffer (he_lines ?Y) r1 = request_head ?X toy_taken Http11 (lit ''ws:px'') @ []"
    unfolding toy_head by (rule fill(3))
  from handshake_completes [OF toy_client.upgrade_client_axioms toy_server.upgrade_server_axioms codecs toy_reason toy_ws_simps(10)
      toy_nonce_key(2) toy_request_facts(1-3) path toy_ws_host toy_request_facts(4) entries small fill(1,2) arrives c(1)
      toy_ws_response c(2) toy_request_facts(6-8) toy_ws_intime]
  show ?thesis by (elim exE conjE) (intro exI conjI, assumption+)
qed

text \<open>A request without headers is refused.\<close>

theorem handle_upgrade_result_witness:
  "\<exists>w'. handle_upgrade (toy_ws (\<lambda>_. [lit ''GET / HTTP/1.1'' @ crlf @ crlf]) []) (PlainConn 0) toy_world
    = Some (Err (WebSocketE InvalidClientRequest), w')"
proof -
  let ?b = "lit ''GET / HTTP/1.1'' @ crlf @ crlf"
  let ?X = "toy_ws (\<lambda>_. [?b]) []"
  have "?b \<noteq> []" "length ?b \<le> 4096" by (simp_all add: crlf_def)
  from toy_first_fill [OF this] obtain n r1 where
    fill: "br_fill (he_lines ?X) (cl_reader (he_conns ?X) (PlainConn 0), toy_world) = Some (Ok n, r1)"
    "br_buffer (he_lines ?X) (cl_reader (he_conns ?X) (PlainConn 0), toy_world) = []" "br_buffer (he_lines ?X) r1 = ?b"
    by (auto simp: toy_http_def simp del: lit_simps)
  have "?b = request_line (lit ''GET'') [0x2F] Http11 @ header_wire [] @ crlf @ []"
    by (simp add: request_line_def header_wire_def crlf_def)
  with fill(3) have buf: "br_buffer (he_lines ?X) r1 = request_line (lit ''GET'') [0x2F] Http11 @ header_wire [] @ crlf @ []"
    by (simp only:)
  have "offered_key (last_value []) = None" by (simp add: offered_key_def offers_def last_value_def)
  then show ?thesis
    using handle_upgrade_result [OF toy_server.upgrade_server_axioms fill(1,2) buf]
    by (auto simp: visible_def in_range_def word_le_nat_alt request_line_def header_wire_def DEFAULT_MAXIMUM_HEADER_SIZE_def
        simp del: lit_simps)
qed

theorem ws_connect_checked_witness:
  "\<exists>reader s r resp t. ws_connect (toy_ws (\<lambda>_. [toy_reply_101]) toy_nonce) (toy_request, toy_world) = Some (Ok reader, s)
    \<and> transfer (toy_ws (\<lambda>_. [toy_reply_101]) toy_nonce) (r, toy_world) = Some (Ok (resp, reader), t) \<and> rr_status resp = 101"
proof -
  let ?X = "toy_ws (\<lambda>_. [toy_reply_101]) toy_nonce"
  obtain reader r' w' where run: "ws_connect ?X (toy_request, toy_world) = Some (Ok reader, r', w')"
    using toy_connects by (metis prod.collapse)
  have intime: "\<forall>d m s out s'. wh_transfer_timeout ?X d m s = Some (Some out, s') \<longrightarrow> m s = Some (out, s')"
    by (auto simp: toy_ws_intime)
  have "codec (wh_codec ?X)" using toy_codec.codec_axioms by simp
  from ws_connect_checked [where X = ?X, OF this intime toy_ws_simps(10) toy_nonce_key(2) run]
  obtain r resp t where "transfer ?X (r, toy_world) = Some (Ok (resp, reader), t)" "rr_status resp = 101"
    by (elim exE conjE)
  then show ?thesis by (intro exI conjI) (rule run)
qed

end
