(* ===== verification/Ws_Session.thy ===== *)
theory Ws_Session
  imports Ws_Conn
begin

text \<open>
  A whole session on a \<open>WebSocket\<close> (\<open>src/src/ws/conn.rs\<close>): the caller receives and sends in any order, and reader
  and writer share the stream and the closing state. What each operation may change is stated once for
  every computation built from the operations of a stream (\<open>steps\<close>); the invariant of the session follows from
  it and from the lemmas of the two halves.
\<close>

section \<open>What a computation may change\<close>

definition steps :: "('s \<Rightarrow> 's \<Rightarrow> bool) \<Rightarrow> ('s, 'a) act \<Rightarrow> bool" where
  "steps R m \<longleftrightarrow> (\<forall>s res s'. m s = Some (res, s') \<longrightarrow> R s s')"

lemma stepsD: "steps R m \<Longrightarrow> m s = Some (res, s') \<Longrightarrow> R s s'"
  by (auto simp: steps_def)

lemma steps_basic:
  assumes "reflp R"
  shows "steps R (io_return x)" "steps R (io_throw e)" "steps R io_panic" "steps R (io_get f)" "steps R (io_lift r)"
  using assms by (auto simp: steps_def io_simps reflp_def)

lemma steps_modify: "(\<And>s. R s (g s)) \<Longrightarrow> steps R (io_modify g)"
  by (auto simp: steps_def io_simps)

lemma steps_bind: "transp R \<Longrightarrow> steps R m \<Longrightarrow> (\<And>x. steps R (f x)) \<Longrightarrow> steps R (io_bind m f)"
  by (fastforce simp: steps_def io_bind_def transp_def split: result.splits bind_splits)

lemma steps_zoom:
  "steps Q m \<Longrightarrow> (\<And>s t. Q (view s) t \<Longrightarrow> R s (put t s)) \<Longrightarrow> steps R (io_zoom view put m)"
  by (auto simp: steps_def io_zoom_def)

text \<open>The operations of a reader take nothing back of what was sent, and at most shut the reading half.\<close>

definition keeps :: "('s \<Rightarrow> bytes) \<Rightarrow> 's \<Rightarrow> 's \<Rightarrow> bool" where
  "keeps sent t t' \<longleftrightarrow> sent t' = sent t"

definition reads_only :: "('s \<Rightarrow> bytes) \<Rightarrow> 's ws_reader \<Rightarrow> 's ws_reader \<Rightarrow> bool" where
  "reads_only sent s s' \<longleftrightarrow> sent (rd_stream s') = sent (rd_stream s)
     \<and> rd_data s' \<in> {rd_data s, snd (shutdown ShutRead (rd_data s))}"

lemma shutdown_again: "snd (shutdown how (snd (shutdown how d))) = snd (shutdown how d)"
  by (auto simp: shutdown_def split: option.splits)

lemma keeps_order: "reflp (keeps sent)" "transp (keeps sent)"
  by (auto simp: keeps_def reflp_def transp_def)

lemma reads_only_order: "reflp (reads_only sent)" "transp (reads_only sent)"
  by (auto simp: reads_only_def reflp_def transp_def shutdown_again)

lemmas keeps_intros = steps_basic [OF keeps_order(1)] steps_bind [OF keeps_order(2)]
lemmas reads_only_intros = steps_basic [OF reads_only_order(1)] steps_bind [OF reads_only_order(2)]

lemma reads_only_stream: "steps (keeps sent) m \<Longrightarrow> steps (reads_only sent) (on_stream m)"
  unfolding on_stream_def by (rule steps_zoom, assumption) (auto simp: keeps_def reads_only_def)

lemma reads_only_modify:
  "(\<And>s. rd_stream (g s) = rd_stream s \<and> rd_data (g s) = rd_data s) \<Longrightarrow> steps (reads_only sent) (io_modify g)"
  by (rule steps_modify) (simp add: reads_only_def)

lemma reads_only_shut: "steps (reads_only sent) (rd_shutdown ShutRead)"
  by (auto simp: steps_def reads_only_def rd_shutdown_eq)

section \<open>Close frames\<close>

fun is_close :: "Frame \<Rightarrow> bool" where
  "is_close (F_Close code c) = True"
| "is_close _ = False"

lemma control_kind: "read_control E h s = Some (Ok (Some f), s') \<Longrightarrow> is_close f \<longleftrightarrow> fh_op h = Op_Close"
  by (cases "fh_op h") (auto simp: read_control_def Let_def io_Ok split: if_splits)

lemma finish_kind: "finish_message h op message s = Some (Ok (Some f), s') \<Longrightarrow> \<not> is_close f"
  by (cases op) (auto simp: finish_message_def io_Ok split: if_splits)

lemma data_kind: "read_data E h s = Some (Ok (Some f), s') \<Longrightarrow> \<not> is_close f"
  by (auto simp: read_data_def io_Ok split: if_splits prod.splits dest: finish_kind)

context quiet_env
begin

text \<open>In any state, also one an error has left behind.\<close>

lemma read_data_any:
  assumes "read_data E h s = Some (Ok f, s')"
  shows "rd_data s' = rd_data s" and "f = Some fr \<Longrightarrow> frame_ok (sh_max_message_length (rd_data s)) fr"
proof -
  obtain op buf where m: "(case rd_current_message s of Some m \<Rightarrow> m | None \<Rightarrow> (fh_op h, [])) = (op, buf)"
    by fastforce
  let ?n = "unat (fh_len h)"
  let ?s1 = "s\<lparr>rd_current_message := Some (op, buf @ replicate ?n 0)\<rparr>"
  from assms m obtain data s2 where fits: "length buf + ?n \<le> sh_max_message_length (rd_data s)"
    and pl: "read_payload E h ?n ?s1 = Some (Ok data, s2)"
    and rest: "finish_message h op (buf @ unmask E h data) s2 = Some (Ok f, s')"
    by (auto simp: read_data_def io_Ok nat_checked_sub_def ok_or_def Let_def
        split: option.splits if_splits)
  from read_payload_Ok [OF pl] obtain r' where len: "length data = ?n" and s2: "s2 = ?s1\<lparr>rd_stream := r'\<rparr>"
    by auto
  have "rd_data s' = rd_data s2 \<and> (f = Some fr \<longrightarrow> frame_ok (sh_max_message_length (rd_data s)) fr)"
    using rest fits len by (cases op) (auto simp: finish_message_def io_Ok split: if_splits)
  then show "rd_data s' = rd_data s" and "f = Some fr \<Longrightarrow> frame_ok (sh_max_message_length (rd_data s)) fr"
    using s2 by auto
qed

lemma read_frame_any:
  assumes "read_frame E s = Some (Ok f, s')"
  shows "can_read (rd_data s') \<longleftrightarrow> (case f of Some fr \<Rightarrow> \<not> is_close fr | None \<Rightarrow> True)"
    and "f = Some fr \<Longrightarrow> frame_ok (sh_max_message_length (rd_data s)) fr"
proof -
  have "(can_read (rd_data s') \<longleftrightarrow> (case f of Some fr \<Rightarrow> \<not> is_close fr | None \<Rightarrow> True))
    \<and> (f = Some fr \<longrightarrow> frame_ok (sh_max_message_length (rd_data s)) fr)"
  proof (cases "\<exists>h s1. read_frame_header E s = Some (Ok (Some h), s1)")
    case False
    with assms show ?thesis
      by (auto simp: read_frame_def io_Ok read_frame_header_def rd_shutdown_eq on_stream_def shared.readable_shut
          wf_ControlFrame_new split: option.splits if_splits)
  next
    case True
    then obtain h s1 where hdr: "read_frame_header E s = Some (Ok (Some h), s1)" by blast
    from read_frame_header_Some [OF hdr] obtain r1 where readable: "can_read (rd_data s)"
      and v: "valid_header (rd_expect_continuation s) (sh_is_client (rd_data s)) h"
      and s1: "s1 = after_header h (s\<lparr>rd_stream := r1\<rparr>)" by blast
    have open1: "can_read (rd_data s1) \<longleftrightarrow> fh_op h \<noteq> Op_Close"
      using readable by (simp add: s1 after_header_def shared.readable_shut)
    show ?thesis
    proof (cases "is_control (fh_op h)")
      case True
      with assms hdr have ctl: "read_control E h s1 = Some (Ok f, s')"
        by (auto simp: read_frame_def io_simps io_Ok split: if_splits)
      have small: "unat (fh_len h) \<le> CONTROL_MAX_LENGTH"
        using v True by (simp add: valid_header_def CONTROL_MAX_LENGTH_def word_le_nat_alt)
      obtain fr' where fr': "f = Some fr'" "frame_ok (sh_max_message_length (rd_data s)) fr'"
        using read_control_Ok(2) [OF ctl small] by blast
      with read_control_Ok(1) [OF ctl small] control_kind [OF ctl [unfolded fr'(1)]] open1 show ?thesis by auto
    next
      case False
      with assms hdr have dat: "read_data E h s1 = Some (Ok f, s')"
        by (auto simp: read_frame_def io_simps io_Ok split: if_splits)
      have fields: "sh_max_message_length (rd_data s1) = sh_max_message_length (rd_data s)"
        by (simp add: s1 after_header_def)
      from False have "fh_op h \<noteq> Op_Close" by auto
      with open1 have can: "can_read (rd_data s')" using read_data_any(1) [OF dat] by simp
      show ?thesis
      proof (cases f)
        case None
        with can show ?thesis by simp
      next
        case (Some fr')
        with dat have "\<not> is_close fr'" using data_kind by blast
        with can Some read_data_any(2) [OF dat] fields show ?thesis by auto
      qed
    qed
  qed
  then show "can_read (rd_data s') \<longleftrightarrow> (case f of Some fr \<Rightarrow> \<not> is_close fr | None \<Rightarrow> True)"
    and "f = Some fr \<Longrightarrow> frame_ok (sh_max_message_length (rd_data s)) fr" by auto
qed

end

section \<open>Both directions of a stream\<close>

locale duplex = quiet_env E + byte_sink W sent
  for E :: "('s, 'x) ws_env_scheme" and W :: "('s, 'y) ws_wenv_scheme" and sent :: "'s \<Rightarrow> bytes" +
  assumes reading: "steps (keeps sent) (br_try_read_type E n)" "steps (keeps sent) (br_read_u16_be E)"
      "steps (keeps sent) (br_read_u32_be E)" "steps (keeps sent) (br_read_u64_be E)"
      "steps (keeps sent) (br_read_fully E n)"
    and closing: "steps (keeps sent) (ws_close (we_conn E) sh (io_return ()))"
begin

lemma header_keeps: "steps (keeps sent) (FrameHeader_read E)"
  unfolding FrameHeader_read_def decode_length_def
  by (auto intro!: keeps_intros reading split: option.splits)

lemma payload_keeps: "steps (reads_only sent) (read_payload E h n)"
proof -
  have data: "steps (\<lambda>s s'. sent (fst s') = sent (fst s)) (read_frame_data E n)"
    unfolding read_frame_data_def
    by (auto intro!: steps_basic steps_bind steps_modify steps_zoom [OF reading(5)]
        simp: reflp_def transp_def keeps_def split: option.splits)
  show ?thesis
    by (auto simp: steps_def read_payload_def reader_read_frame_data_def on_stream_header_def io_zoom_def
        reads_only_def dest: stepsD [OF data])
qed

lemma read_frame_keeps: "steps (reads_only sent) (read_frame E)"
proof -
  have check: "steps (reads_only sent) (check_frame h)" for h
    unfolding check_frame_def by (auto intro!: reads_only_intros reads_only_modify)
  have header: "steps (reads_only sent) (read_frame_header E)"
    unfolding read_frame_header_def
    by (auto intro!: reads_only_intros reads_only_stream header_keeps reads_only_shut check split: option.splits)
  have control: "steps (reads_only sent) (read_control E h)" for h
    unfolding read_control_def Let_def
    by (auto intro!: reads_only_intros reads_only_stream payload_keeps closing split: Op.splits prod.splits)
  have data: "steps (reads_only sent) (read_data E h)" for h
    unfolding read_data_def finish_message_def
    by (auto intro!: reads_only_intros reads_only_modify payload_keeps split: Op.splits prod.splits)
  show ?thesis
    unfolding read_frame_def by (auto intro!: reads_only_intros header control data split: option.splits)
qed


text \<open>A frame returned is well formed, and the reading half is open after it exactly if it is not a close frame.\<close>

lemma next_frame_any:
  assumes "next_frame E s = Some (res, s')"
  shows "reads_only sent s s'"
    and "res = Ok f \<Longrightarrow> (can_read (rd_data s') \<longleftrightarrow> \<not> is_close f) \<and> frame_ok (sh_max_message_length (rd_data s)) f"
proof -
  let ?P = "\<lambda>s r. reads_only sent s (snd r)
    \<and> (\<forall>f. fst r = Ok f \<longrightarrow> (can_read (rd_data (snd r)) \<longleftrightarrow> \<not> is_close f) \<and> frame_ok (sh_max_message_length (rd_data s)) f)"
  have "E = E \<longrightarrow> ?P s (res, s')"
  proof (rule next_frame.raw_induct [where P = "\<lambda>E' s r. E' = E \<longrightarrow> ?P s r", OF _ assms], rule impI)
    fix nf E' s r
    assume IH: "\<And>E' s r. nf E' s = Some r \<Longrightarrow> E' = E \<longrightarrow> ?P s r"
      and eq: "io_bind (read_frame E') (\<lambda>frame. case frame of Some f \<Rightarrow> io_return f | None \<Rightarrow> nf E') s = Some r"
      and E': "E' = E"
    obtain res1 s1 where rf: "read_frame E s = Some (res1, s1)"
      using eq E' by (cases "read_frame E s") (auto simp: io_bind_def)
    note keeps = stepsD [OF read_frame_keeps rf]
    show "?P s r"
    proof (cases "res1 = Ok None")
      case True
      with rf eq E' have "nf E s1 = Some r" by simp
      with IH have "?P s1 r" by blast
      moreover have "reads_only sent s (snd r)"
        using keeps \<open>?P s1 r\<close> reads_only_order(2) [of sent] by (meson transpD)
      moreover have "sh_max_message_length (rd_data s1) = sh_max_message_length (rd_data s)"
        using keeps by (auto simp: reads_only_def)
      ultimately show ?thesis by simp
    next
      case False
      with rf eq E' have r: "r = (case res1 of Ok (Some f) \<Rightarrow> Ok f | Err e \<Rightarrow> Err e | _ \<Rightarrow> Panic, s1)"
        by (auto simp: io_bind_def io_simps split: result.splits option.splits)
      with keeps rf read_frame_any show ?thesis by (fastforce split: result.splits option.splits)
    qed
  qed
  then show "reads_only sent s s'"
    and "res = Ok f \<Longrightarrow> (can_read (rd_data s') \<longleftrightarrow> \<not> is_close f) \<and> frame_ok (sh_max_message_length (rd_data s)) f" by auto
qed

end

section \<open>Sessions\<close>

text \<open>What a caller does and sees, in order. A call that panics is the last one.\<close>

datatype ws_event = Sent BorrowedFrame "unit res" | Received "Frame res option"

fun sent_frame :: "ws_event \<Rightarrow> BorrowedFrame list" where
  "sent_frame (Sent f (Ok u)) = [f]"
| "sent_frame _ = []"

fun received_frame :: "ws_event \<Rightarrow> Frame list" where
  "received_frame (Received (Some (Ok f))) = [f]"
| "received_frame _ = []"

fun panicked :: "ws_event \<Rightarrow> bool" where
  "panicked (Sent f res) \<longleftrightarrow> res = Panic"
| "panicked (Received item) \<longleftrightarrow> item = Some Panic"

fun read_failed :: "ws_event \<Rightarrow> bool" where
  "read_failed (Received (Some (Err e))) = True"
| "read_failed _ = False"

abbreviation sent_frames :: "ws_event list \<Rightarrow> BorrowedFrame list" where
  "sent_frames log \<equiv> concat (map sent_frame log)"

abbreviation received :: "ws_event list \<Rightarrow> Frame list" where
  "received log \<equiv> concat (map received_frame log)"

inductive ws_session ::
  "('s, 'x) ws_env_scheme \<Rightarrow> ('s, 'y) ws_wenv_scheme \<Rightarrow> 's WebSocket \<Rightarrow> 's WebSocket \<Rightarrow> ws_event list \<Rightarrow> bool"
  for E W init where
  opened: "ws_session E W init init []"
| sending: "ws_session E W init s log \<Longrightarrow> \<forall>e\<in>set log. \<not> panicked e \<Longrightarrow> ws_send_frame W f s = Some (res, s') \<Longrightarrow>
    ws_session E W init s' (log @ [Sent f res])"
| reading: "ws_session E W init s log \<Longrightarrow> \<forall>e\<in>set log. \<not> panicked e \<Longrightarrow> ws_frames_next E s = Some (item, s') \<Longrightarrow>
    ws_session E W init s' (log @ [Received item])"

text \<open>The frames of a sender: fragments in order, nothing after a close frame.\<close>

fun legal :: "Op option \<Rightarrow> BorrowedFrame list \<Rightarrow> bool" where
  "legal prev [] = True"
| "legal prev (f # fs) \<longleftrightarrow> sendable prev f \<and> (bf_op f = Op_Close \<longrightarrow> fs = []) \<and> legal (next_last_op prev f) fs"

lemma legal_snoc:
  "legal prev (fs @ [f]) \<longleftrightarrow> legal prev fs \<and> (\<forall>g\<in>set fs. bf_op g \<noteq> Op_Close) \<and> sendable (foldl next_last_op prev fs) f"
  by (induction fs arbitrary: prev) auto

lemma frames_wire_snoc:
  "frames_wire c prev (fs @ [f]) = frames_wire c prev fs @ frame_wire c (foldl next_last_op prev fs) f"
  by (induction fs arbitrary: prev) auto

definition session_inv :: "('s \<Rightarrow> bytes) \<Rightarrow> 's WebSocket \<Rightarrow> 's WebSocket \<Rightarrow> ws_event list \<Rightarrow> bool" where
  "session_inv sent init s log \<longleftrightarrow>
     sh_is_client (ws_data s) = sh_is_client (ws_data init)
     \<and> sh_max_message_length (ws_data s) = sh_max_message_length (ws_data init)
     \<and> sent (ws_stream s) = sent (ws_stream init) @ frames_wire (sh_is_client (ws_data init)) None (sent_frames log)
     \<and> ws_last_sent_message_op s = foldl next_last_op None (sent_frames log)
     \<and> legal None (sent_frames log)
     \<and> (can_write (ws_data s) \<longleftrightarrow> (\<forall>f\<in>set (sent_frames log). bf_op f \<noteq> Op_Close))
     \<and> (\<forall>f\<in>set (received log). frame_ok (sh_max_message_length (ws_data init)) f)
     \<and> (\<forall>f\<in>set (butlast (received log)). \<not> is_close f)
     \<and> (\<forall>e\<in>set log. panicked e \<longrightarrow> e = Received (Some Panic) \<and> (\<exists>e'\<in>set log. read_failed e'))
     \<and> (can_read (ws_data s) \<longrightarrow> (\<forall>f\<in>set (received log). \<not> is_close f))
     \<and> ((\<forall>e\<in>set log. \<not> read_failed e) \<longrightarrow> reader_inv (ws_reader_of s)
         \<and> (can_read (ws_data s) \<longleftrightarrow> (\<forall>f\<in>set (received log). \<not> is_close f)))"

context duplex
begin

lemma send_inv:
  assumes "session_inv sent init s log" and "ws_send_frame W f s = Some (res, s')"
  shows "session_inv sent init s' (log @ [Sent f res])"
proof (cases "can_write (ws_data s) \<and> sendable (ws_last_sent_message_op s) f")
  case False
  then have "send_frame W f (ws_writer_of s) = Some (Err (if can_write (ws_data s)
      then WebSocketE (if is_control (bf_op f) then UserInvalidControlFrame else DataTypeMismatch) else Kind KShutdown), ws_writer_of s)"
    using send_frame_refused [where s = "ws_writer_of s" and W = W and frame = f] by (auto simp: ws_writer_of_def)
  moreover have "ws_put_writer (ws_writer_of s) s = s" by (simp add: ws_writer_of_def ws_put_writer_def)
  ultimately show ?thesis
    using assms by (auto simp: session_inv_def ws_send_frame_def with_writer_def)
next
  case True
  let ?w = "ws_writer_of s"
  from True send_frame_sent [of ?w f] obtain w' where
    run: "send_frame W f ?w = Some (Ok (), after_send f (?w\<lparr>wt_stream := w'\<rparr>))"
    and bytes: "sent w' = sent (ws_stream s) @ frame_wire (sh_is_client (ws_data s)) (ws_last_sent_message_op s) f"
    by (auto simp: ws_writer_of_def)
  have s': "res = Ok ()" "s' = s\<lparr>ws_stream := w', ws_last_sent_message_op := next_last_op (ws_last_sent_message_op s) f,
      ws_data := (if bf_op f = Op_Close then snd (shutdown ShutWrite (ws_data s)) else ws_data s)\<rparr>"
    using assms(2) run
    by (auto simp: ws_send_frame_def with_writer_def ws_put_writer_def after_send_def ws_writer_of_def)
  show ?thesis
    using assms(1) True bytes
    by (auto simp: session_inv_def s' legal_snoc frames_wire_snoc reader_inv_def ws_reader_of_def
        shared.readable_shut shared.writable_shut)
qed

lemma receive_inv:
  assumes "session_inv sent init s log" and "sh_max_message_length (ws_data init) \<le> u64_max"
    and "ws_frames_next E s = Some (item, s')"
  shows "session_inv sent init s' (log @ [Received item])"
proof (cases "can_read (ws_data s)")
  case False
  then have "item = None" "s' = s"
    using assms(3) by (auto simp: ws_frames_next_def frames_next_def ws_reader_of_def ws_put_reader_def)
  then show ?thesis using assms(1) by (auto simp: session_inv_def)
next
  case True
  let ?r = "ws_reader_of s"
  from True assms(3) obtain res r' where run: "next_frame E ?r = Some (res, r')"
    and item: "item = Some res" and s': "s' = ws_put_reader r' s"
    by (auto simp: ws_frames_next_def frames_next_def ws_reader_of_def)
  have max: "sh_max_message_length (rd_data ?r) \<le> u64_max"
    using assms(1,2) by (auto simp: session_inv_def ws_reader_of_def)
  have good: "case res of
        Ok f \<Rightarrow> frame_ok (sh_max_message_length (ws_data s)) f \<and> (can_read (rd_data r') \<longleftrightarrow> \<not> is_close f)
      | _ \<Rightarrow> True"
    using next_frame_any(2) [OF run] by (auto simp: ws_reader_of_def split: result.splits)
  have inv: "(\<forall>e\<in>set log. \<not> read_failed e) \<longrightarrow> (case res of Ok f \<Rightarrow> reader_inv r' | Err _ \<Rightarrow> True | Panic \<Rightarrow> False)"
    using next_frame_good [OF run] max assms(1)
    by (auto simp: good_result_def session_inv_def split: result.splits)
  have keeps: "sent (rd_stream r') = sent (ws_stream s)"
      "rd_data r' \<in> {ws_data s, snd (shutdown ShutRead (ws_data s))}"
    using next_frame_any(1) [OF run] by (simp_all add: reads_only_def ws_reader_of_def)
  then have data: "sh_is_client (rd_data r') = sh_is_client (ws_data s)"
    "sh_max_message_length (rd_data r') = sh_max_message_length (ws_data s)"
    "can_write (rd_data r') = can_write (ws_data s)" "can_read (rd_data r') \<longrightarrow> can_read (ws_data s)"
    by (auto simp: shared.writable_shut shared.readable_shut)
  have fields: "ws_stream s' = rd_stream r'" "ws_last_sent_message_op s' = ws_last_sent_message_op s"
    "ws_data s' = rd_data r'" "ws_reader_of s' = r'"
    by (simp_all add: s' ws_put_reader_def ws_reader_of_def)
  have none: "\<forall>f\<in>set (received log). \<not> is_close f" using assms(1) True by (auto simp: session_inv_def)
  show ?thesis
  proof (cases res)
    case (Ok f)
    with assms(1) good inv keeps(1) none True show ?thesis
      by (auto simp: session_inv_def item fields data butlast_append)
  next
    case (Err e)
    with assms(1) keeps(1) none data(4) show ?thesis
      by (auto simp: session_inv_def item fields data)
  next
    case Panic
    with assms(1) inv keeps(1) none data(4) show ?thesis
      by (auto simp: session_inv_def item fields data)
  qed
qed

lemma session_keeps:
  "ws_session E W init s log \<Longrightarrow> session_inv sent init init [] \<Longrightarrow> sh_max_message_length (ws_data init) \<le> u64_max \<Longrightarrow>
    session_inv sent init s log"
  by (induction rule: ws_session.induct) (auto intro: send_inv receive_inv)

end

section \<open>A scripted peer and a recorded stream\<close>

definition pair_conn :: "(script \<times> bytes) conn_extra" where
  "pair_conn = \<lparr>ce_poll = (\<lambda>flags. io_return flags), ce_shutdown = (\<lambda>how. io_return ()),
     ce_timeout = (\<lambda>d m s. map_option (\<lambda>(r, s'). (Some r, s')) (m s))\<rparr>"

definition pair_env :: "(script \<times> bytes) ws_env" where
  "pair_env = buf_read.extend (lift_reader fst (\<lambda>r s. (r, snd s)) script_ops)
     \<lparr>we_conn = pair_conn, we_big_endian = False, we_align = script_align\<rparr>"

definition pair_sink :: "(script \<times> bytes) ws_wenv" where
  "pair_sink = \<lparr>wr_write_all_vectored = (\<lambda>bufs s. Some (Ok (length (concat bufs)), (fst s, snd s @ concat bufs))),
     wr_flush = io_return (), ww_conn = pair_conn\<rparr>"

lemmas pair_defs = pair_env_def pair_sink_def pair_conn_def lift_reader_def buf_read.defs script_defs

interpretation pair: duplex pair_env pair_sink snd
proof
  fix n r xs r'
  show "br_read_fully pair_env n r = Some (Ok xs, r') \<Longrightarrow> length xs \<le> n"
    by (auto simp: pair_defs io_zoom_def)
next
  fix n limit n' show "br_read_into pair_env n limit = Some n' \<Longrightarrow> n' \<le> n \<and> n' \<le> limit"
    by (auto simp: pair_defs split: if_splits)
next
  fix data show "align_ok (we_align pair_env data) data"
    using script_ws.align [of data] by (simp add: pair_defs)
qed (auto simp: pair_defs io_zoom_def ws_close_def do_close_def io_simps io_bind_def steps_def keeps_def split: if_splits)

section \<open>Properties\<close>

text \<open>C4: Any session on a new WebSocket, of a client or a server, sending and receiving in any order, on after errors
  too: sending never panics, and receiving panics only when an earlier receive has failed; the bytes written are those of
  the frames whose sending succeeded, in order, a legal sequence of fragments with at most one close frame, which is the
  last; sending is open until then. The frames received are well formed and none follows a close
  frame; receiving is open only as long as none has arrived, and is so as long as no receive fails.\<close>

theorem session_well_formed:
  assumes "duplex E W sent" and "wo_max_message_length options \<le> u64_max"
    and "ws_session E W (WebSocket_from stream options is_client) s log"
  shows "(\<forall>e\<in>set log. panicked e \<longrightarrow> e = Received (Some Panic) \<and> (\<exists>e'\<in>set log. read_failed e'))
    \<and> sent (ws_stream s) = sent stream @ frames_wire is_client None (sent_frames log)
    \<and> legal None (sent_frames log)
    \<and> (ws_can_write s \<longleftrightarrow> (\<forall>f\<in>set (sent_frames log). bf_op f \<noteq> Op_Close))
    \<and> (\<forall>f\<in>set (received log). frame_ok (wo_max_message_length options) f)
    \<and> (\<forall>f\<in>set (butlast (received log)). \<not> is_close f)
    \<and> (ws_can_read s \<longrightarrow> (\<forall>f\<in>set (received log). \<not> is_close f))
    \<and> ((\<forall>e\<in>set log. \<not> read_failed e) \<longrightarrow> (ws_can_read s \<longleftrightarrow> (\<forall>f\<in>set (received log). \<not> is_close f)))"
proof -
  let ?init = "WebSocket_from stream options is_client"
  have "session_inv sent ?init ?init []"
    by (simp add: session_inv_def WebSocket_from_def Shared_new_def can_write_def can_read_def reader_inv_def ws_reader_of_def)
  from duplex.session_keeps [OF assms(1,3) this] assms(2) show ?thesis
    by (simp add: session_inv_def WebSocket_from_def Shared_new_def ws_can_write_def ws_can_read_def)
qed

text \<open>A client sends a text, gets the end of the connection as a close frame, closes and is refused another frame.\<close>

theorem session_well_formed_witness:
  "\<exists>s. ws_session pair_env pair_sink (WebSocket_from (\<lparr>sc_buf = [], sc_free = 4096, sc_rest = [[]]\<rparr>, []) WebSocketOptions_new True) s
      [Sent (frame_text [72, 105]) (Ok ()), Received (Some (Ok (F_Close (close_code_u16 CC_NoClose) ControlFrame_new))),
       Sent (frame_close 1000 []) (Ok ()), Sent (frame_text [33]) (Err (Kind KShutdown)), Received None]
    \<and> snd (ws_stream s) = [0x81, 0x82, 0, 0, 0, 0, 72, 105, 0x88, 0x80, 0, 0, 0, 0, 0x03, 0xE8]
    \<and> \<not> ws_can_write s \<and> \<not> ws_can_read s"
proof -
  let ?t = "\<lparr>sc_buf = [], sc_free = 4096, sc_rest = [[]]\<rparr>"
  let ?s0 = "WebSocket_from (?t, [] :: bytes) WebSocketOptions_new True"
  let ?s1 = "?s0\<lparr>ws_stream := (?t, [0x81, 0x82, 0, 0, 0, 0, 72, 105])\<rparr>"
  let ?s2 = "?s1\<lparr>ws_data := (ws_data ?s1)\<lparr>sh_close_state := Some ShutRead\<rparr>\<rparr>"
  let ?s3 = "?s2\<lparr>ws_stream := (?t, [0x81, 0x82, 0, 0, 0, 0, 72, 105, 0x88, 0x80, 0, 0, 0, 0, 0x03, 0xE8]),
      ws_data := (ws_data ?s2)\<lparr>sh_close_state := Some ShutBoth\<rparr>\<rparr>"
  note socket = WebSocket_from_def Shared_new_def can_read_def can_write_def ws_send_frame_def with_writer_def ws_writer_of_def
    ws_put_writer_def ws_frames_next_def frames_next_def ws_reader_of_def ws_put_reader_def
  note writing = send_frame_def prepare_header_eq encode_header_Ok sendable_def sent_header_def next_last_op_def
    header_bytes_def encode_len_def FrameHeader_packet_eq bool_u8_def close_code_bytes_def to_be_bytes_def frame_defs
    on_sink_def wt_shutdown_def shutdown_def ws_close_def do_close_def pair_sink_def pair_conn_def io_simps io_bind_def Let_def
  have 1: "ws_send_frame pair_sink (frame_text [72, 105]) ?s0 = Some (Ok (), ?s1)"
    by (simp add: socket writing)
  have "br_try_read_type pair_env minimum_packet_size (?t, out) = Some (Ok None, (?t, out))" for out
    by (simp add: pair_defs minimum_packet_size_def io_zoom_def)
  then have "FrameHeader_read pair_env (?t, out) = Some (Ok None, (?t, out))" for out
    by (simp add: FrameHeader_read_def io_simps)
  then have "read_frame pair_env (ws_reader_of ?s1)
      = Some (Ok (Some (F_Close (close_code_u16 CC_NoClose) ControlFrame_new)), ws_reader_of ?s2)"
    by (simp add: WebSocket_from_def Shared_new_def ws_reader_of_def read_frame_def read_frame_header_def on_stream_def
        can_read_def rd_shutdown_def shutdown_def io_bind_def io_simps)
  then have "next_frame pair_env (ws_reader_of ?s1)
      = Some (Ok (F_Close (close_code_u16 CC_NoClose) ControlFrame_new), ws_reader_of ?s2)"
    by (subst next_frame.simps) (simp add: io_simps)
  then have 2: "ws_frames_next pair_env ?s1 = Some (Some (Ok (F_Close (close_code_u16 CC_NoClose) ControlFrame_new)), ?s2)"
    by (simp add: socket)
  have 3: "ws_send_frame pair_sink (frame_close 1000 []) ?s2 = Some (Ok (), ?s3)"
    by (simp add: socket writing)
  have 4: "ws_send_frame pair_sink (frame_text [33]) ?s3 = Some (Err (Kind KShutdown), ?s3)"
    by (simp add: socket send_frame_def io_simps)
  have 5: "ws_frames_next pair_env ?s3 = Some (None, ?s3)"
    by (simp add: socket)
  let ?log = "[Sent (frame_text [72, 105]) (Ok ()), Received (Some (Ok (F_Close (close_code_u16 CC_NoClose) ControlFrame_new))),
      Sent (frame_close 1000 []) (Ok ()), Sent (frame_text [33]) (Err (Kind KShutdown)), Received None]"
  have session: "ws_session pair_env pair_sink ?s0 ?s3 ?log"
    using ws_session.reading [OF ws_session.sending [OF ws_session.sending [OF ws_session.reading [OF
      ws_session.sending [OF ws_session.opened _ 1] _ 2] _ 3] _ 4] _ 5] by simp
  have "wo_max_message_length WebSocketOptions_new \<le> u64_max"
    by (simp add: WebSocketOptions_new_def DEFAULT_MAX_MESSAGE_LENGTH_def u64_max_def)
  note wf = session_well_formed [OF pair.duplex_axioms this session]
  from wf have "ws_can_write ?s3 \<longleftrightarrow> (\<forall>f\<in>set (sent_frames ?log). bf_op f \<noteq> Op_Close)" by blast
  moreover from wf have "(\<forall>e\<in>set ?log. \<not> read_failed e) \<longrightarrow>
      (ws_can_read ?s3 \<longleftrightarrow> (\<forall>f\<in>set (received ?log). \<not> is_close f))" by blast
  ultimately have "\<not> ws_can_write ?s3" "\<not> ws_can_read ?s3" by (simp_all add: frame_close_def)
  moreover have "snd (ws_stream ?s3) = [0x81, 0x82, 0, 0, 0, 0, 72, 105, 0x88, 0x80, 0, 0, 0, 0, 0x03, 0xE8]" by simp
  ultimately show ?thesis using session by blast
qed

end
