(* ===== verification/Env.thy ===== *)
theory Env
  imports Tls_Conn
begin

text \<open>
  The data shared by all connections (\<open>src/src/env.rs\<close>) and the certificates it is made from
  (\<open>tls/certs.rs\<close>). \<open>get_data\<close> looks in the cache of its thread, then, under the mutex \<open>GLOBAL_DATA\<close>, in
  the global one, and creates the data there if nobody has. Each stretch of code between two points
  where a task can be suspended is one function on the state, and \<open>env_step\<close> interleaves the tasks.
  \<open>env_lib\<close> holds the file system, the certificate parser and the store of \<open>rustls\<close>.
\<close>

section \<open>Certificates\<close>

record dir_entry =
  de_path :: bytes
  de_is_dir :: bool

record ('w, 'c, 's, 'r) env_lib =
  el_read :: "bytes \<Rightarrow> ('w, bytes) act"
  el_read_dir :: "bytes \<Rightarrow> ('w, dir_entry res list) act"
  el_certs :: "bytes \<Rightarrow> 'c res list"
  el_store_empty :: 's
  el_add_certs :: "'c list \<Rightarrow> 's \<Rightarrow> 's"
  el_client_config :: "'s \<Rightarrow> client_config"
  el_resolver_new :: "('w, 'r) act"

text \<open>\<open>collect\<close> into a \<open>Result\<close> stops at the first error.\<close>

fun collect :: "'c res list \<Rightarrow> 'c list res" where
  "collect [] = Ok []"
| "collect (r # rs) = res_bind r (\<lambda>c. map_ok (\<lambda>cs. c # cs) (collect rs))"

definition try_load_certs :: "('w, 'c, 's, 'r, 'x) env_lib_scheme \<Rightarrow> bytes \<Rightarrow> ('w, 'c list) act" where
  "try_load_certs E path = io_bind (el_read E path) (\<lambda>data. io_lift (collect (el_certs E data)))"

text \<open>A file that cannot be read or parsed is passed over; an error of the directory itself is not.\<close>

fun load_entries :: "('w, 'c, 's, 'r, 'x) env_lib_scheme \<Rightarrow> dir_entry res list \<Rightarrow> 'c list \<Rightarrow> ('w, 'c list) act" where
  "load_entries E [] certs = io_return certs"
| "load_entries E (entry # entries) certs =
     io_bind (io_lift entry) (\<lambda>entry.
     if de_is_dir entry then load_entries E entries certs
     else (\<lambda>w. case try_load_certs E (de_path entry) w of
         None \<Rightarrow> None
       | Some (Ok loaded, w) \<Rightarrow> load_entries E entries (certs @ loaded) w
       | Some (Err _, w) \<Rightarrow> load_entries E entries certs w
       | Some (Panic, w) \<Rightarrow> Some (Panic, w)))"

definition try_load_ca_path :: "('w, 'c, 's, 'r, 'x) env_lib_scheme \<Rightarrow> bytes \<Rightarrow> 's \<Rightarrow> ('w, 's) act" where
  "try_load_ca_path E path store =
     io_bind (el_read_dir E path) (\<lambda>entries.
     io_bind (load_entries E entries []) (\<lambda>certs.
     io_return (el_add_certs E certs store)))"

definition root_certs_path :: bytes where
  "root_certs_path = lit ''/etc/ssl/certs''"

definition resolver_conf_path :: bytes where
  "resolver_conf_path = lit ''/etc/resolv.conf''"

definition hosts_path :: bytes where
  "hosts_path = lit ''/etc/hosts''"

definition load_system_certs :: "('w, 'c, 's, 'r, 'x) env_lib_scheme \<Rightarrow> ('w, 's) act" where
  "load_system_certs E = try_load_ca_path E root_certs_path (el_store_empty E)"

section \<open>The shared data\<close>

record 'r GlobalData =
  gd_dns_resolver :: 'r
  gd_tls_client_config :: client_config

record 'r ThreadLocalData =
  td_dns_resolver :: 'r
  td_tls_client_config :: client_config

text \<open>\<open>join\<close> runs both to their end; \<open>expect\<close> panics when one of them failed.\<close>

definition create_global_data :: "('w, 'c, 's, 'r, 'x) env_lib_scheme \<Rightarrow> ('w, 'r GlobalData) act" where
  "create_global_data E w =
     (case load_system_certs E w of
        None \<Rightarrow> None
      | Some (certs, w) \<Rightarrow>
          map_option (\<lambda>(resolver, w).
              (case (certs, resolver) of
                 (Ok certs, Ok resolver) \<Rightarrow> Ok \<lparr>gd_dns_resolver = resolver, gd_tls_client_config = el_client_config E certs\<rparr>
               | _ \<Rightarrow> Panic, w))
            (el_resolver_new E w))"

definition thread_local_data :: "'r GlobalData \<Rightarrow> 'r ThreadLocalData" where
  "thread_local_data data = \<lparr>td_dns_resolver = gd_dns_resolver data, td_tls_client_config = gd_tls_client_config data\<rparr>"

section \<open>The tasks\<close>

text \<open>Where a task is: in \<open>get_data\<close>, or in \<open>free_data\<close> (\<open>FreeWait\<close>).\<close>

datatype 'r env_pc = Idle | GetData | WaitLock | Locked | Creating | Got "'r GlobalData" | Done "'r ThreadLocalData"
  | FreeWait | Freed | Panicked

type_synonym task = nat
type_synonym thread = nat

record 'r env_state =
  es_global :: "'r GlobalData option"
  es_lock :: "task option"
  es_poisoned :: bool
  es_local :: "thread \<Rightarrow> 'r ThreadLocalData option"
  es_tasks :: "task \<Rightarrow> 'r env_pc"

definition env_init :: "'r env_state" where
  "env_init = \<lparr>es_global = None, es_lock = None, es_poisoned = False, es_local = (\<lambda>_. None), es_tasks = (\<lambda>_. Idle)\<rparr>"

definition goto :: "task \<Rightarrow> 'r env_pc \<Rightarrow> 'r env_state \<Rightarrow> 'r env_state" where
  "goto t pc s = s\<lparr>es_tasks := (es_tasks s)(t := pc)\<rparr>"

definition get_data_cached :: "(task \<Rightarrow> thread) \<Rightarrow> task \<Rightarrow> 'r env_state \<Rightarrow> 'r env_state" where
  "get_data_cached th t s =
     (case es_local s (th t) of
        Some data \<Rightarrow> goto t (Done data) s
      | None \<Rightarrow> goto t WaitLock s)"

definition get_global_data :: "task \<Rightarrow> 'r env_state \<Rightarrow> 'r env_state" where
  "get_global_data t s =
     (case es_global s of
        Some data \<Rightarrow> goto t (Got data) (s\<lparr>es_lock := None\<rparr>)
      | None \<Rightarrow> goto t Creating s)"

text \<open>A panic while the mutex is held poisons it.\<close>

definition insert_global_data :: "'r GlobalData res \<Rightarrow> task \<Rightarrow> 'r env_state \<Rightarrow> 'r env_state" where
  "insert_global_data created t s =
     (case created of
        Ok data \<Rightarrow> goto t (Got data) (s\<lparr>es_global := Some data, es_lock := None\<rparr>)
      | _ \<Rightarrow> goto t Panicked (s\<lparr>es_lock := None, es_poisoned := True\<rparr>))"

text \<open>\<open>set\<close> does nothing if the cell is full: another task of the thread may have come first.\<close>

definition get_data_set :: "(task \<Rightarrow> thread) \<Rightarrow> 'r GlobalData \<Rightarrow> task \<Rightarrow> 'r env_state \<Rightarrow> 'r env_state" where
  "get_data_set th data t s =
     (let data = thread_local_data data;
          cell = (case es_local s (th t) of None \<Rightarrow> Some data | Some old \<Rightarrow> Some old)
      in goto t (Done data) (s\<lparr>es_local := (es_local s)(th t := cell)\<rparr>))"

definition free_data :: "task \<Rightarrow> 'r env_state \<Rightarrow> 'r env_state" where
  "free_data t s = goto t Freed (s\<lparr>es_global := None\<rparr>)"

definition get_tls_client_config :: "'r ThreadLocalData \<Rightarrow> client_config" where
  "get_tls_client_config data = td_tls_client_config data"

definition get_resolver :: "'r ThreadLocalData \<Rightarrow> 'r" where
  "get_resolver data = td_dns_resolver data"

text \<open>
  A task can ask for the data again and again. The data is created in any state of the system: the files can
  change. \<open>lock().await.unwrap()\<close> panics when the mutex is poisoned, and when the task is cancelled while it
  waits. \<open>freeing\<close> tells whether \<open>free_data\<close> is called.
\<close>

inductive env_step ::
  "('w, 'c, 's, 'r, 'x) env_lib_scheme \<Rightarrow> (task \<Rightarrow> thread) \<Rightarrow> bool \<Rightarrow> 'r env_state \<Rightarrow> 'r env_state \<Rightarrow> bool"
  for E th freeing where
  call: "es_tasks s t = Idle \<or> es_tasks s t = Done d \<Longrightarrow> env_step E th freeing s (goto t GetData s)"
| cached: "es_tasks s t = GetData \<Longrightarrow> env_step E th freeing s (get_data_cached th t s)"
| locks: "es_tasks s t = WaitLock \<Longrightarrow> es_lock s = None \<Longrightarrow> \<not> es_poisoned s \<Longrightarrow>
    env_step E th freeing s (goto t Locked (s\<lparr>es_lock := Some t\<rparr>))"
| poisoned: "es_tasks s t = WaitLock \<or> es_tasks s t = FreeWait \<Longrightarrow> es_lock s = None \<Longrightarrow> es_poisoned s \<Longrightarrow>
    env_step E th freeing s (goto t Panicked s)"
| cancelled: "es_tasks s t = WaitLock \<or> es_tasks s t = FreeWait \<Longrightarrow> env_step E th freeing s (goto t Panicked s)"
| global: "es_tasks s t = Locked \<Longrightarrow> env_step E th freeing s (get_global_data t s)"
| created: "es_tasks s t = Creating \<Longrightarrow> create_global_data E w = Some (out, w') \<Longrightarrow>
    env_step E th freeing s (insert_global_data out t s)"
| sets: "es_tasks s t = Got data \<Longrightarrow> env_step E th freeing s (get_data_set th data t s)"
| call_free: "freeing \<Longrightarrow> es_tasks s t = Idle \<Longrightarrow> env_step E th freeing s (goto t FreeWait s)"
| frees: "es_tasks s t = FreeWait \<Longrightarrow> es_lock s = None \<Longrightarrow> \<not> es_poisoned s \<Longrightarrow> env_step E th freeing s (free_data t s)"

lemmas env_defs = goto_def get_data_cached_def get_global_data_def insert_global_data_def get_data_set_def free_data_def

text \<open>The cache of a thread never changes once it is set, not even by \<open>free_data\<close>.\<close>

lemma env_step_local:
  "env_step E th freeing s s' \<Longrightarrow> es_local s h = Some d \<Longrightarrow> es_local s' h = Some d"
  by (induction rule: env_step.induct) (auto simp: env_defs Let_def split: option.split result.split)

lemma env_steps_local:
  assumes "(env_step E th freeing)\<^sup>*\<^sup>* s s'" and "es_local s h = Some d"
  shows "es_local s' h = Some d"
  using assms by (induction rule: rtranclp_induct) (auto dest: env_step_local)

section \<open>Invariants\<close>

definition lock_inv :: "'r env_state \<Rightarrow> bool" where
  "lock_inv s \<longleftrightarrow> (\<forall>t. es_lock s = Some t \<longleftrightarrow> es_tasks s t = Locked \<or> es_tasks s t = Creating)
     \<and> (\<forall>t. es_tasks s t = Creating \<longrightarrow> es_global s = None)"

definition poison_inv :: "'r env_state \<Rightarrow> bool" where
  "poison_inv s \<longleftrightarrow> (es_poisoned s \<longrightarrow> es_lock s = None)"

definition share_inv :: "'r env_state \<Rightarrow> bool" where
  "share_inv s \<longleftrightarrow> (\<forall>t. es_tasks s t \<noteq> FreeWait)
     \<and> (\<forall>t g. es_tasks s t = Got g \<longrightarrow> es_global s = Some g)
     \<and> (\<forall>t d. es_tasks s t = Done d \<longrightarrow> Some d = map_option thread_local_data (es_global s))
     \<and> (\<forall>h d. es_local s h = Some d \<longrightarrow> Some d = map_option thread_local_data (es_global s))"

lemma share_inv_Done: "share_inv s \<Longrightarrow> es_tasks s t = Done d \<Longrightarrow> map_option thread_local_data (es_global s) = Some d"
  unfolding share_inv_def by metis

lemma share_inv_local: "share_inv s \<Longrightarrow> es_local s h = Some d \<Longrightarrow> map_option thread_local_data (es_global s) = Some d"
  unfolding share_inv_def by metis

lemma share_inv_task: "share_inv s \<Longrightarrow> es_tasks s t \<noteq> FreeWait" "share_inv s \<Longrightarrow> es_tasks s t = Got g \<Longrightarrow> es_global s = Some g"
  unfolding share_inv_def by blast+

lemma lock_inv_Creating: "lock_inv s \<Longrightarrow> es_tasks s t = Creating \<Longrightarrow> es_lock s = Some t"
  unfolding lock_inv_def by blast

lemma lock_inv_init: "lock_inv env_init" and share_inv_init: "share_inv env_init" and poison_inv_init: "poison_inv env_init"
  by (simp_all add: lock_inv_def share_inv_def poison_inv_def env_init_def)

lemma lock_inv_step: "env_step E th freeing s s' \<Longrightarrow> lock_inv s \<Longrightarrow> lock_inv s'"
proof (induction rule: env_step.induct)
  case (global s t)
  then have "es_lock s = Some t" by (simp add: lock_inv_def)
  with global show ?case by (cases "es_global s") (auto simp: lock_inv_def env_defs)
next
  case (created s t w out w')
  then have "es_lock s = Some t" by (simp add: lock_inv_def)
  with created show ?case by (cases out) (auto simp: lock_inv_def env_defs)
next
  case (cached s t)
  then show ?case by (cases "es_local s (th t)") (auto simp: lock_inv_def env_defs)
qed (auto simp: lock_inv_def env_defs Let_def)

lemma poison_inv_step: "env_step E th freeing s s' \<Longrightarrow> lock_inv s \<and> poison_inv s \<Longrightarrow> poison_inv s'"
proof (induction rule: env_step.induct)
  case (created s t w out w')
  then show ?case by (cases out) (auto simp: poison_inv_def env_defs)
qed (auto simp: poison_inv_def env_defs Let_def split: option.splits)

text \<open>The mutex stays poisoned, and nobody who waits for it gets further than a panic.\<close>

definition barred :: "task \<Rightarrow> 'r env_state \<Rightarrow> bool" where
  "barred t s \<longleftrightarrow> es_poisoned s \<and> (es_tasks s t = WaitLock \<or> es_tasks s t = Panicked)"

lemma barred_step: "env_step E th freeing s s' \<Longrightarrow> barred t s \<Longrightarrow> barred t s'"
proof (induction rule: env_step.induct)
  case (created s u w out w')
  then show ?case by (cases out) (auto simp: barred_def env_defs)
qed (auto simp: barred_def env_defs Let_def split: option.splits)

lemma barred_steps: "(env_step E th freeing)\<^sup>*\<^sup>* s s' \<Longrightarrow> barred t s \<Longrightarrow> barred t s'"
  by (induction rule: rtranclp_induct) (auto intro: barred_step)

lemma share_inv_step: "env_step E th False s s' \<Longrightarrow> lock_inv s \<and> share_inv s \<Longrightarrow> share_inv s'"
proof (induction rule: env_step.induct)
  case (global s t)
  then show ?case by (cases "es_global s") (auto simp: share_inv_def env_defs)
next
  case (created s t w out w')
  then have "es_global s = None" by (auto simp: lock_inv_def)
  with created show ?case by (cases out) (auto simp: share_inv_def env_defs)
next
  case (cached s t)
  then show ?case by (cases "es_local s (th t)") (auto simp: share_inv_def env_defs)
next
  case (sets s t data)
  let ?s = "get_data_set th data t s"
  from sets have inv: "share_inv s" by blast
  have g: "es_global s = Some data" by (rule share_inv_task(2) [OF inv sets(1)])
  have new: "es_global ?s = es_global s" "es_tasks ?s u = (if u = t then Done (thread_local_data data) else es_tasks s u)"
    "es_local ?s h = (if h = th t \<and> es_local s h = None then Some (thread_local_data data) else es_local s h)" for u h
    by (auto simp: get_data_set_def goto_def Let_def split: option.split)
  show ?case
    unfolding share_inv_def
  proof (intro conjI allI impI)
    fix u x d h
    show "es_tasks ?s u \<noteq> FreeWait" using share_inv_task(1) [OF inv] by (simp add: new)
    show "es_global ?s = Some x" if "es_tasks ?s u = Got x"
      using that share_inv_task(2) [OF inv, of u x] by (simp add: new split: if_splits)
    show "Some d = map_option thread_local_data (es_global ?s)" if "es_tasks ?s u = Done d"
      using that share_inv_Done [OF inv, of u d] g by (auto simp: new split: if_splits)
    show "Some d = map_option thread_local_data (es_global ?s)" if "es_local ?s h = Some d"
      using that share_inv_local [OF inv, of h d] g by (auto simp: new split: if_splits)
  qed
qed (auto simp: share_inv_def env_defs)

lemma env_reachable:
  assumes "(env_step E th freeing)\<^sup>*\<^sup>* env_init s"
  shows "lock_inv s" and "poison_inv s"
proof -
  have "lock_inv s \<and> poison_inv s"
    using assms by (induction rule: rtranclp_induct) (auto intro: lock_inv_init poison_inv_init lock_inv_step poison_inv_step)
  then show "lock_inv s" and "poison_inv s" by auto
qed

lemma env_reachable_shared:
  assumes "(env_step E th False)\<^sup>*\<^sup>* env_init s"
  shows "share_inv s"
proof -
  have "lock_inv s \<and> share_inv s"
    using assms
    by (induction rule: rtranclp_induct) (auto intro: lock_inv_init share_inv_init lock_inv_step share_inv_step)
  then show ?thesis ..
qed

section \<open>A call can finish\<close>

definition in_get_data :: "'r env_pc \<Rightarrow> bool" where
  "in_get_data pc \<longleftrightarrow> pc = GetData \<or> pc = WaitLock \<or> pc = Locked \<or> pc = Creating \<or> (\<exists>g. pc = Got g)"

lemma goto_tasks [simp]: "es_tasks (goto t pc s) u = (if u = t then pc else es_tasks s u)" "es_lock (goto t pc s) = es_lock s"
  "es_poisoned (goto t pc s) = es_poisoned s"
  by (simp_all add: goto_def)

lemma finish_Got:
  assumes "es_tasks s t = Got data"
  shows "\<exists>s' d. (env_step E th freeing)\<^sup>*\<^sup>* s s' \<and> es_tasks s' t = Done d"
proof -
  have "env_step E th freeing s (get_data_set th data t s)" using assms by (rule env_step.sets)
  moreover have "es_tasks (get_data_set th data t s) t = Done (thread_local_data data)"
    by (simp add: get_data_set_def Let_def)
  ultimately show ?thesis by (blast intro: r_into_rtranclp)
qed

text \<open>The files are such, at some moment at least, that the data can be created.\<close>

definition can_create :: "('w, 'c, 's, 'r, 'x) env_lib_scheme \<Rightarrow> bool" where
  "can_create E \<longleftrightarrow> (\<exists>w data w'. create_global_data E w = Some (Ok data, w'))"

text \<open>The holder of the mutex gets to the end of its critical section without waiting.\<close>

lemma release:
  assumes "es_tasks s u = Locked \<or> es_tasks s u = Creating" and "can_create E"
  shows "\<exists>s' g. (env_step E th freeing)\<^sup>*\<^sup>* s s' \<and> es_tasks s' u = Got g \<and> es_lock s' = None
    \<and> es_poisoned s' = es_poisoned s \<and> (\<forall>v. v \<noteq> u \<longrightarrow> es_tasks s' v = es_tasks s v)"
proof -
  let ?to = "\<lambda>r s' g. es_tasks s' u = Got g \<and> es_lock s' = None \<and> es_poisoned s' = es_poisoned r
    \<and> (\<forall>v. v \<noteq> u \<longrightarrow> es_tasks s' v = es_tasks r v)"
  obtain w data w' where data: "create_global_data E w = Some (Ok data, w')" using assms(2) by (auto simp: can_create_def)
  have create: "\<exists>s' g. (env_step E th freeing)\<^sup>*\<^sup>* r s' \<and> ?to r s' g" if "es_tasks r u = Creating" for r
  proof -
    let ?r = "insert_global_data (Ok data) u r"
    have "env_step E th freeing r ?r" using that data by (rule env_step.created)
    moreover have "?to r ?r data"
      by (simp add: insert_global_data_def)
    ultimately show ?thesis by (blast intro: r_into_rtranclp)
  qed
  show ?thesis
  proof (cases "es_tasks s u = Creating")
    case True
    then show ?thesis by (rule create)
  next
    case False
    with assms(1) have "es_tasks s u = Locked" by blast
    then have step: "env_step E th freeing s (get_global_data u s)" by (rule env_step.global)
    show ?thesis
    proof (cases "es_global s")
      case None
      then have "es_tasks (get_global_data u s) u = Creating"
        and same: "es_poisoned (get_global_data u s) = es_poisoned s"
          "\<forall>v. v \<noteq> u \<longrightarrow> es_tasks (get_global_data u s) v = es_tasks s v"
        by (simp_all add: get_global_data_def)
      from create [OF this(1)] obtain s' g where "(env_step E th freeing)\<^sup>*\<^sup>* (get_global_data u s) s'"
        "?to (get_global_data u s) s' g" by blast
      with step same show ?thesis by (intro exI [of _ s'] exI [of _ g]) (auto intro: converse_rtranclp_into_rtranclp)
    next
      case (Some g)
      then have "?to s (get_global_data u s) g"
        by (simp add: get_global_data_def)
      with step show ?thesis by (blast intro: r_into_rtranclp)
    qed
  qed
qed

lemma finish_WaitLock:
  assumes "lock_inv s" and "es_tasks s t = WaitLock" and "\<not> es_poisoned s" and "can_create E"
  shows "\<exists>s' d. (env_step E th freeing)\<^sup>*\<^sup>* s s' \<and> es_tasks s' t = Done d"
proof -
  have "\<exists>r. (env_step E th freeing)\<^sup>*\<^sup>* s r \<and> es_tasks r t = WaitLock \<and> es_lock r = None \<and> \<not> es_poisoned r"
  proof (cases "es_lock s")
    case (Some u)
    with assms(1) have u: "es_tasks s u = Locked \<or> es_tasks s u = Creating" unfolding lock_inv_def by blast
    with assms(2) have "u \<noteq> t" by auto
    with release [OF u assms(4), of th freeing] assms(2,3) show ?thesis by metis
  qed (use assms(2,3) in blast)
  then obtain r where r: "(env_step E th freeing)\<^sup>*\<^sup>* s r" "es_tasks r t = WaitLock" "es_lock r = None" "\<not> es_poisoned r" by blast
  let ?l = "goto t Locked (r\<lparr>es_lock := Some t\<rparr>)"
  have "env_step E th freeing r ?l" using r(2-4) by (rule env_step.locks)
  moreover obtain s1 g where "(env_step E th freeing)\<^sup>*\<^sup>* ?l s1" "es_tasks s1 t = Got g"
    using release [of ?l t E th freeing] assms(4) by auto
  moreover obtain s2 d where "(env_step E th freeing)\<^sup>*\<^sup>* s1 s2" "es_tasks s2 t = Done d"
    using finish_Got [OF calculation(3)] by blast
  ultimately show ?thesis using r(1) by (meson converse_rtranclp_into_rtranclp rtranclp_trans)
qed

lemma finish_cached:
  assumes "es_tasks s t = GetData" and "es_local s (th t) = Some d"
  shows "\<exists>s' d. (env_step E th freeing)\<^sup>*\<^sup>* s s' \<and> es_tasks s' t = Done d"
proof -
  have "env_step E th freeing s (get_data_cached th t s)" using assms(1) by (rule env_step.cached)
  moreover have "es_tasks (get_data_cached th t s) t = Done d" using assms(2) by (simp add: get_data_cached_def)
  ultimately show ?thesis by (blast intro: r_into_rtranclp)
qed

lemma can_finish:
  assumes inv: "lock_inv s" and inside: "in_get_data (es_tasks s t)" and good: "\<not> es_poisoned s" "can_create E"
  shows "\<exists>s' d. (env_step E th freeing)\<^sup>*\<^sup>* s s' \<and> es_tasks s' t = Done d"
proof -
  consider "es_tasks s t = GetData" | "es_tasks s t = WaitLock" | "es_tasks s t = Locked \<or> es_tasks s t = Creating"
    | g where "es_tasks s t = Got g"
    using inside by (auto simp: in_get_data_def)
  then show ?thesis
  proof cases
    case 1
    let ?s = "get_data_cached th t s"
    show ?thesis
    proof (cases "es_local s (th t)")
      case None
      have step: "env_step E th freeing s ?s" using 1 by (rule env_step.cached)
      from None have "es_tasks ?s t = WaitLock" "\<not> es_poisoned ?s"
        using good(1) by (simp_all add: get_data_cached_def)
      from finish_WaitLock [OF lock_inv_step [OF step inv] this good(2), of th freeing] step
      show ?thesis by (meson converse_rtranclp_into_rtranclp)
    next
      case (Some d)
      with 1 show ?thesis by (rule finish_cached)
    qed
  next
    case 2
    then show ?thesis by (rule finish_WaitLock [OF inv _ good])
  next
    case 3
    from release [OF 3 good(2), of th freeing] obtain s1 g where "(env_step E th freeing)\<^sup>*\<^sup>* s s1" "es_tasks s1 t = Got g" by blast
    with finish_Got [OF this(2), of E th freeing] show ?thesis by (meson rtranclp_trans)
  next
    case 4
    then show ?thesis by (rule finish_Got)
  qed
qed

lemma poisoned_step: "env_step E th freeing s s' \<Longrightarrow> es_poisoned s \<Longrightarrow> es_poisoned s'"
  by (induction rule: env_step.induct) (auto simp: env_defs Let_def split: option.split result.split)

lemma failed_creation_poisons:
  "env_step E th freeing s s' \<Longrightarrow> es_tasks s u = Creating \<Longrightarrow> es_tasks s' u = Panicked \<Longrightarrow> es_poisoned s'"
proof (induction rule: env_step.induct)
  case (created s t w out w')
  then show ?case by (cases out) (auto simp: env_defs split: if_splits)
qed (auto simp: env_defs Let_def split: option.splits if_splits)

lemma poisoned_steps: "(env_step E th freeing)\<^sup>*\<^sup>* s s' \<Longrightarrow> es_poisoned s \<Longrightarrow> es_poisoned s'"
  by (induction rule: rtranclp_induct) (auto intro: poisoned_step)

lemma panic_poisoned:
  assumes "es_poisoned s" and "es_tasks s t = GetData \<and> es_local s (th t) = None \<or> es_tasks s t = WaitLock" and "poison_inv s"
  shows "\<exists>s'. (env_step E th freeing)\<^sup>*\<^sup>* s s' \<and> es_tasks s' t = Panicked"
proof -
  have wait: "env_step E th freeing r (goto t Panicked r)" if "es_tasks r t = WaitLock" "es_poisoned r" "es_lock r = None" for r
    using that by (intro env_step.poisoned) simp_all
  have lock: "es_lock s = None" using assms(1,3) by (simp add: poison_inv_def)
  show ?thesis
  proof (cases "es_tasks s t = WaitLock")
    case True
    with wait [of s] assms(1) lock show ?thesis by (intro exI [of _ "goto t Panicked s"]) auto
  next
    case False
    let ?s = "get_data_cached th t s"
    from False assms(2) have s: "es_tasks s t = GetData" "es_local s (th t) = None" by auto
    then have "env_step E th freeing s ?s" by (intro env_step.cached)
    moreover have "es_tasks ?s t = WaitLock" "es_poisoned ?s" "es_lock ?s = None"
      using s(2) assms(1) lock by (simp_all add: get_data_cached_def)
    moreover note wait [OF this]
    ultimately show ?thesis by (intro exI [of _ "goto t Panicked ?s"]) auto
  qed
qed

section \<open>Properties\<close>

text \<open>C12: As long as \<open>free_data\<close> is not called, in whatever order the tasks of all threads run, every call of
  \<open>get_data\<close> returns the same data, which is what every thread has cached, and at most one task at a time
  creates it. Once a thread has data cached, every later call on it returns that data, even after
  \<open>free_data\<close>.\<close>

theorem env_data_shared:
  assumes run: "(env_step E th False)\<^sup>*\<^sup>* env_init s" and d1: "es_tasks s t1 = Done d1"
  shows "(es_tasks s t2 = Done d2 \<longrightarrow> d1 = d2) \<and> (es_local s h = Some d2 \<longrightarrow> d1 = d2)
    \<and> (es_tasks s t3 = Creating \<longrightarrow> es_tasks s t4 = Creating \<longrightarrow> t3 = t4)
    \<and> ((env_step E th True)\<^sup>*\<^sup>* s s' \<longrightarrow> es_local s (th t) = Some d3 \<longrightarrow>
        es_tasks (get_data_cached th t s') t = Done d1)"
proof -
  have shared: "share_inv s" by (rule env_reachable_shared [OF run])
  have g: "map_option thread_local_data (es_global s) = Some d1" by (rule share_inv_Done [OF shared d1])
  have "d1 = d" if "es_tasks s t = Done d" for t d
    using share_inv_Done [OF shared that] g by simp
  moreover have l: "d1 = d" if "es_local s h = Some d" for h d
    using share_inv_local [OF shared that] g by simp
  moreover have "t3 = t4" if "es_tasks s t3 = Creating" "es_tasks s t4 = Creating"
    using lock_inv_Creating [OF env_reachable(1) [OF run] that(1)] lock_inv_Creating [OF env_reachable(1) [OF run] that(2)] by simp
  moreover have "es_tasks (get_data_cached th t s') t = Done d1"
    if "(env_step E th True)\<^sup>*\<^sup>* s s'" "es_local s (th t) = Some d3"
    using env_steps_local [OF that] l [OF that(2)] by (simp add: get_data_cached_def goto_def)
  ultimately show ?thesis by blast
qed

text \<open>C39: No call of \<open>get_data\<close> is stuck, in any state the tasks can reach and with \<open>free_data\<close> called at any time. As long
  as no creation has failed, a call can run to its return, if the data can be created at all. A failed
  creation poisons the mutex for good: then a call can return only if it has the data or its thread has it cached,
  and one that waits for the mutex never returns but can always run to its panic.\<close>

theorem get_data_can_finish:
  assumes run: "(env_step E th freeing)\<^sup>*\<^sup>* env_init s" and inside: "in_get_data (es_tasks s t)"
  shows "(\<forall>u s'. env_step E th freeing s s' \<and> es_tasks s u = Creating \<and> es_tasks s' u = Panicked \<longrightarrow> es_poisoned s')
    \<and> (if \<not> es_poisoned s
    then can_create E \<longrightarrow> (\<exists>s' d. (env_step E th freeing)\<^sup>*\<^sup>* s s' \<and> es_tasks s' t = Done d)
    else (\<forall>s'. (env_step E th freeing)\<^sup>*\<^sup>* s s' \<longrightarrow> es_poisoned s')
      \<and> ((\<exists>g. es_tasks s t = Got g) \<or> es_tasks s t = GetData \<and> es_local s (th t) \<noteq> None \<longrightarrow>
          (\<exists>s' d. (env_step E th freeing)\<^sup>*\<^sup>* s s' \<and> es_tasks s' t = Done d))
      \<and> (es_tasks s t = GetData \<and> es_local s (th t) = None \<or> es_tasks s t = WaitLock \<longrightarrow>
          (\<exists>s'. (env_step E th freeing)\<^sup>*\<^sup>* s s' \<and> es_tasks s' t = Panicked))
      \<and> (es_tasks s t = WaitLock \<longrightarrow>
          (\<forall>s'. (env_step E th freeing)\<^sup>*\<^sup>* s s' \<longrightarrow> es_tasks s' t = WaitLock \<or> es_tasks s' t = Panicked))
      \<and> es_tasks s t \<noteq> Locked \<and> es_tasks s t \<noteq> Creating)"
proof (cases "es_poisoned s")
  case False
  then show ?thesis
    using can_finish [OF env_reachable(1) [OF run] inside, of E th freeing] failed_creation_poisons [of E th freeing s]
    by (simp, blast)
next
  case True
  from env_reachable [OF run] True have "es_tasks s t \<noteq> Locked \<and> es_tasks s t \<noteq> Creating"
    unfolding lock_inv_def poison_inv_def by auto
  moreover have "es_poisoned s'" if "(env_step E th freeing)\<^sup>*\<^sup>* s s'" for s'
    using that True by (rule poisoned_steps)
  moreover have "es_tasks s' t = WaitLock \<or> es_tasks s' t = Panicked"
    if "(env_step E th freeing)\<^sup>*\<^sup>* s s'" "es_tasks s t = WaitLock" for s'
    using barred_steps [OF that(1), of t] True that(2) by (auto simp: barred_def)
  ultimately show ?thesis
    using True finish_Got [of s t _ E th freeing] finish_cached [of s t th _ E freeing] panic_poisoned [OF True _ env_reachable(2) [OF run], of t th E freeing]
      failed_creation_poisons [of E th freeing s]
    by auto
qed

text \<open>Task 1 waits for task 0 of another thread, which has the mutex.\<close>

definition busy_state :: "nat env_state" where
  "busy_state = goto 1 WaitLock (goto 1 GetData (goto 0 Locked ((goto 0 WaitLock (goto 0 GetData env_init))\<lparr>es_lock := Some 0\<rparr>)))"

lemma busy_reachable: "(env_step E (\<lambda>t. t) False)\<^sup>*\<^sup>* env_init busy_state"
proof -
  let ?th = "\<lambda>t :: nat. t"
  let ?i = "env_init :: nat env_state"
  let ?s1 = "goto 0 GetData ?i" and ?s2 = "goto 0 WaitLock (goto 0 GetData ?i)"
  let ?s3 = "goto 0 Locked (?s2\<lparr>es_lock := Some 0\<rparr>)"
  let ?s4 = "goto 1 GetData ?s3"
  have 1: "env_step E ?th False ?i ?s1" by (rule env_step.call) (simp add: env_init_def)
  have "get_data_cached ?th 0 ?s1 = ?s2" by (simp add: get_data_cached_def goto_def env_init_def)
  then have 2: "env_step E ?th False ?s1 ?s2" using env_step.cached [of ?s1 0 E ?th False] by simp
  have 3: "env_step E ?th False ?s2 ?s3" by (rule env_step.locks) (simp_all add: env_init_def)
  have 4: "env_step E ?th False ?s3 ?s4" by (rule env_step.call) (simp add: env_init_def)
  have "get_data_cached ?th 1 ?s4 = busy_state"
    by (simp add: get_data_cached_def busy_state_def) (simp add: goto_def env_init_def)
  then have 5: "env_step E ?th False ?s4 busy_state" using env_step.cached [of ?s4 1 E ?th False] by simp
  from 1 2 3 4 5 show ?thesis by (meson converse_rtranclp_into_rtranclp r_into_rtranclp)
qed

text \<open>A system on which the resolver can be made only in one of two states.\<close>

definition flaky_lib :: "(bool, nat, nat list, nat) env_lib" where
  "flaky_lib = \<lparr>el_read = (\<lambda>path. io_return []), el_read_dir = (\<lambda>path. io_return []), el_certs = (\<lambda>data. []),
     el_store_empty = [], el_add_certs = (\<lambda>certs store. store @ certs), el_client_config = (\<lambda>store. 0),
     el_resolver_new = (\<lambda>w. Some (if w then Ok 7 else Err (Foreign 2), w))\<rparr>"

lemma flaky_create:
  "create_global_data flaky_lib True = Some (Ok \<lparr>gd_dns_resolver = 7, gd_tls_client_config = 0\<rparr>, True)"
  "create_global_data flaky_lib False = Some (Panic, False)"
  by (simp_all add: create_global_data_def load_system_certs_def try_load_ca_path_def flaky_lib_def io_simps io_bind_def io_return_def)

lemma flaky_can_create: "can_create flaky_lib"
  unfolding can_create_def using flaky_create(1) by blast

text \<open>Task 0 has failed to create the data, with task 1 waiting.\<close>

definition broken_state :: "nat env_state" where
  "broken_state = insert_global_data Panic 0 (get_global_data 0 busy_state)"

lemma broken_tasks: "es_tasks broken_state 1 = WaitLock" "es_poisoned broken_state"
  by (simp_all add: broken_state_def busy_state_def env_defs env_init_def)

lemma broken_reachable: "(env_step flaky_lib (\<lambda>t. t) False)\<^sup>*\<^sup>* env_init broken_state"
proof -
  have 1: "env_step flaky_lib (\<lambda>t. t) False busy_state (get_global_data 0 busy_state)"
    by (rule env_step.global) (simp add: busy_state_def)
  have "es_tasks (get_global_data 0 busy_state) 0 = Creating"
    by (simp add: busy_state_def env_defs env_init_def)
  then have 2: "env_step flaky_lib (\<lambda>t. t) False (get_global_data 0 busy_state) broken_state"
    unfolding broken_state_def using flaky_create(2) by (rule env_step.created)
  have "(env_step flaky_lib (\<lambda>t. t) False)\<^sup>*\<^sup>* env_init busy_state" by (rule busy_reachable)
  with 1 2 show ?thesis by (meson rtranclp.rtrancl_into_rtrancl)
qed

theorem get_data_can_finish_witness:
  "(\<exists>s' d. (env_step flaky_lib (\<lambda>t. t) False)\<^sup>*\<^sup>* busy_state s' \<and> es_tasks s' 1 = Done d)
    \<and> (\<exists>s'. (env_step flaky_lib (\<lambda>t. t) False)\<^sup>*\<^sup>* broken_state s' \<and> es_tasks s' 1 = Panicked)
    \<and> \<not> (\<exists>s' d. (env_step flaky_lib (\<lambda>t. t) False)\<^sup>*\<^sup>* broken_state s' \<and> es_tasks s' 1 = Done d)"
proof -
  have "in_get_data (es_tasks busy_state 1)" "\<not> es_poisoned busy_state"
    by (simp_all add: in_get_data_def busy_state_def env_init_def)
  with get_data_can_finish [OF busy_reachable [of flaky_lib] this(1)] flaky_can_create
  have "\<exists>s' d. (env_step flaky_lib (\<lambda>t. t) False)\<^sup>*\<^sup>* busy_state s' \<and> es_tasks s' 1 = Done d" by simp
  moreover have "in_get_data (es_tasks broken_state 1)" unfolding in_get_data_def broken_tasks by simp
  note broken = get_data_can_finish [OF broken_reachable this]
  have "\<exists>s'. (env_step flaky_lib (\<lambda>t. t) False)\<^sup>*\<^sup>* broken_state s' \<and> es_tasks s' 1 = Panicked"
    using broken broken_tasks by simp
  moreover have "\<not> (\<exists>s' d. (env_step flaky_lib (\<lambda>t. t) False)\<^sup>*\<^sup>* broken_state s' \<and> es_tasks s' 1 = Done d)"
    using broken broken_tasks by fastforce
  ultimately show ?thesis by blast
qed

text \<open>Both then have the data task 0 has created.\<close>

theorem env_data_shared_witness:
  "\<exists>s d. (env_step flaky_lib (\<lambda>t. t) False)\<^sup>*\<^sup>* busy_state s \<and> es_tasks s 1 = Done d
    \<and> (\<forall>d'. es_tasks s 0 = Done d' \<longrightarrow> d = d')"
proof -
  have "lock_inv busy_state" by (rule env_reachable(1) [OF busy_reachable])
  moreover have "es_tasks busy_state 1 = WaitLock" by (simp add: busy_state_def)
  moreover have "\<not> es_poisoned busy_state" by (simp add: busy_state_def env_init_def)
  ultimately obtain s d where s: "(env_step flaky_lib (\<lambda>t. t) False)\<^sup>*\<^sup>* busy_state s" "es_tasks s 1 = Done d"
    using finish_WaitLock [OF _ _ _ flaky_can_create] by blast
  from busy_reachable s(1) have "(env_step flaky_lib (\<lambda>t. t) False)\<^sup>*\<^sup>* env_init s" by (rule rtranclp_trans)
  from env_data_shared [OF this s(2)] s show ?thesis by blast
qed

end
