(* ===== verification/Http_Conn.thy ===== *)
theory Http_Conn
  imports Http_Transfer Env
begin

text \<open>
  The operations of an \<open>HttpConn\<close> (\<open>src/src/http/stream.rs\<close>): each is that of the boxed connection, a TCP
  connection or a TLS connection (\<open>net/conn.rs\<close>, \<open>tls/conn.rs\<close>), and the short forms of connecting over
  TLS, which take the configuration from the environment of the task (\<open>env.rs\<close>).
\<close>

text \<open>\<open>on_http_conn p q\<close> runs \<open>p\<close> on the socket of a plain connection and \<open>q\<close> on a TLS connection.\<close>

definition on_http_conn ::
  "(sock \<Rightarrow> ('w, 'a) act) \<Rightarrow> (sock \<Rightarrow> ('w \<times> 't, 'a) act) \<Rightarrow> ('t HttpConn \<times> 'w, 'a) act" where
  "on_http_conn p q s =
     (case fst s of
        PlainConn socket \<Rightarrow> map_option (\<lambda>(out, w). (out, PlainConn socket, w)) (p socket (snd s))
      | SecureConn c \<Rightarrow> map_option (\<lambda>(out, w, tls). (out, SecureConn (c\<lparr>tc_tls := tls\<rparr>), w))
          (q (tc_connection c) (snd s, tc_tls c)))"

definition http_conn_read ::
  "('w, 'x) net_lib_scheme \<Rightarrow> ('w, 't, 'y) tls_io_scheme \<Rightarrow> nat \<Rightarrow> ('t HttpConn \<times> 'w, bytes) act" where
  "http_conn_read N T n = on_http_conn (\<lambda>s. nl_recv N s n False) (\<lambda>s. tls_recv N T s n)"

definition http_conn_write ::
  "('w, 'x) net_lib_scheme \<Rightarrow> ('w, 't, 'y) tls_io_scheme \<Rightarrow> bytes list \<Rightarrow> ('t HttpConn \<times> 'w, nat) act" where
  "http_conn_write N T bufs = on_http_conn (\<lambda>s. nl_send N s bufs False) (\<lambda>s. tls_send N T s bufs)"

definition http_conn_poll ::
  "('w, 'x) net_lib_scheme \<Rightarrow> poll_flag list \<Rightarrow> ('t HttpConn \<times> 'w, poll_flag list) act" where
  "http_conn_poll N flags = on_http_conn (\<lambda>s. nl_poll N s flags) (\<lambda>s. on_conn (nl_poll N s flags))"

definition http_conn_shutdown ::
  "('w, 'x) net_lib_scheme \<Rightarrow> Shutdown \<Rightarrow> ('t HttpConn \<times> 'w, unit) act" where
  "http_conn_shutdown N how = on_http_conn (\<lambda>s. nl_shutdown N s how) (\<lambda>s. on_conn (nl_shutdown N s how))"

section \<open>TlsConn\<close>

definition tls_has_peer_hungup :: "('w, 'x) net_lib_scheme \<Rightarrow> 't TlsConn \<Rightarrow> ('w, bool) act" where
  "tls_has_peer_hungup N c = has_peer_hungup N (tc_connection c)"

definition tls_close :: "('w, 'x) net_lib_scheme \<Rightarrow> 't TlsConn \<Rightarrow> ('w, unit) act" where
  "tls_close N c = nl_close N (tc_connection c)"

definition tls_connect_config ::
  "('w, 'x) net_lib_scheme \<Rightarrow> ('w, 't, 'y) tls_io_scheme \<Rightarrow> 'w ConnectOptions \<Rightarrow> client_config \<Rightarrow> ('w, 't TlsConn) act" where
  "tls_connect_config N T options config =
     io_bind (tls_connect_stats_config N T options config) (\<lambda>r. io_return (fst r))"

definition tls_connect_stats ::
  "('w, 'x) net_lib_scheme \<Rightarrow> ('w, 't, 'y) tls_io_scheme \<Rightarrow> 'r ThreadLocalData \<Rightarrow> 'w ConnectOptions \<Rightarrow>
    ('w, 't TlsConn \<times> TlsConnectStats) act" where
  "tls_connect_stats N T data options = tls_connect_stats_config N T options (get_tls_client_config data)"

definition tls_conn_connect ::
  "('w, 'x) net_lib_scheme \<Rightarrow> ('w, 't, 'y) tls_io_scheme \<Rightarrow> 'r ThreadLocalData \<Rightarrow> 'w ConnectOptions \<Rightarrow>
    ('w, 't TlsConn) act" where
  "tls_conn_connect N T data options = io_bind (tls_connect_stats N T data options) (\<lambda>r. io_return (fst r))"

definition connect_options_new :: "'w service list ThreadLocalData \<Rightarrow> bytes \<Rightarrow> u16 \<Rightarrow> 'w ConnectOptions" where
  "connect_options_new data host port = with_resolver (get_resolver data) host port"

section \<open>Conn\<close>

text \<open>A \<open>Conn\<close> is its socket: its operations are those of the socket, and its two halves the same socket.\<close>

definition connect_options_host :: "'w ConnectOptions \<Rightarrow> bytes" where
  "connect_options_host o1 = co_host o1"

definition connect_options_port :: "'w ConnectOptions \<Rightarrow> u16" where
  "connect_options_port o1 = co_port o1"

definition conn_recv :: "('w, 'x) net_lib_scheme \<Rightarrow> sock \<Rightarrow> nat \<Rightarrow> bool \<Rightarrow> ('w, bytes) act" where
  "conn_recv N conn n dont_wait = nl_recv N conn n dont_wait"

definition conn_send :: "('w, 'x) net_lib_scheme \<Rightarrow> sock \<Rightarrow> bytes \<Rightarrow> bool \<Rightarrow> ('w, nat) act" where
  "conn_send N conn buf dont_wait = nl_send N conn [buf] dont_wait"

definition conn_send_vectored :: "('w, 'x) net_lib_scheme \<Rightarrow> sock \<Rightarrow> bytes list \<Rightarrow> bool \<Rightarrow> ('w, nat) act" where
  "conn_send_vectored N conn bufs dont_wait = nl_send N conn bufs dont_wait"

definition conn_poll :: "('w, 'x) net_lib_scheme \<Rightarrow> sock \<Rightarrow> poll_flag list \<Rightarrow> ('w, poll_flag list) act" where
  "conn_poll N conn flags = nl_poll N conn flags"

definition conn_shutdown :: "('w, 'x) net_lib_scheme \<Rightarrow> sock \<Rightarrow> Shutdown \<Rightarrow> ('w, unit) act" where
  "conn_shutdown N conn how = nl_shutdown N conn how"

definition conn_close :: "('w, 'x) net_lib_scheme \<Rightarrow> sock \<Rightarrow> ('w, unit) act" where
  "conn_close N conn = nl_close N conn"

definition conn_try_split :: "sock \<Rightarrow> sock \<times> sock" where
  "conn_try_split conn = (conn, conn)"

section \<open>TlsConn as a stream\<close>

definition tls_poll :: "('w, 'x) net_lib_scheme \<Rightarrow> sock \<Rightarrow> poll_flag list \<Rightarrow> ('w \<times> 't, poll_flag list) act" where
  "tls_poll N conn flags = on_conn (conn_poll N conn flags)"

definition tls_shutdown :: "('w, 'x) net_lib_scheme \<Rightarrow> sock \<Rightarrow> Shutdown \<Rightarrow> ('w \<times> 't, unit) act" where
  "tls_shutdown N conn how = on_conn (conn_shutdown N conn how)"

definition tls_stream_read ::
  "('w, 'x) net_lib_scheme \<Rightarrow> ('w, 't, 'y) tls_io_scheme \<Rightarrow> sock \<Rightarrow> nat \<Rightarrow> ('w \<times> 't, bytes) act" where
  "tls_stream_read N T conn n = tls_recv N T conn n"

definition tls_stream_write ::
  "('w, 'x) net_lib_scheme \<Rightarrow> ('w, 't, 'y) tls_io_scheme \<Rightarrow> sock \<Rightarrow> bytes \<Rightarrow> ('w \<times> 't, nat) act" where
  "tls_stream_write N T conn buf = tls_send N T conn [buf]"

definition tls_stream_write_vectored ::
  "('w, 'x) net_lib_scheme \<Rightarrow> ('w, 't, 'y) tls_io_scheme \<Rightarrow> sock \<Rightarrow> bytes list \<Rightarrow> ('w \<times> 't, nat) act" where
  "tls_stream_write_vectored N T conn bufs = tls_send N T conn bufs"

section \<open>Splitting a connection\<close>

text \<open>
  The read half of a TLS connection owns a new \<open>BufReader\<close> over its half of the socket (\<open>new_reader\<close>, with \<open>inner\<close> the
  half below it); both halves share the \<open>ClientConnection\<close>, which is returned as the shared state. \<open>fill\<close> and
  \<open>send\<close> are the operations at which a half waits, while the other may run (theory \<open>Tls_Conn\<close>).
\<close>

record 'b TlsReadHalf =
  trh_connection :: 'b

record TlsWriteHalf =
  twh_connection :: sock

definition TlsReadHalf_new :: "(sock \<Rightarrow> 'b) \<Rightarrow> sock \<Rightarrow> 'b TlsReadHalf" where
  "TlsReadHalf_new new_reader conn = \<lparr>trh_connection = new_reader conn\<rparr>"

definition TlsWriteHalf_new :: "sock \<Rightarrow> TlsWriteHalf" where
  "TlsWriteHalf_new conn = \<lparr>twh_connection = conn\<rparr>"

definition tls_try_split :: "(sock \<Rightarrow> 'b) \<Rightarrow> 't TlsConn \<Rightarrow> ('b TlsReadHalf \<times> TlsWriteHalf) \<times> 't" where
  "tls_try_split new_reader c =
     (let conn = conn_try_split (tc_connection c);
          tls = tc_tls c
      in ((TlsReadHalf_new new_reader (fst conn), TlsWriteHalf_new (snd conn)), tls))"

definition tls_read_half_read ::
  "('b \<times> 'w, 'x) buf_read_scheme \<Rightarrow> ('b \<times> 'w, 't, 'y) tls_io_scheme \<Rightarrow> (('b \<times> 'w) \<times> 't, nat) act \<Rightarrow> nat \<Rightarrow>
    ('b TlsReadHalf \<times> 'w \<times> 't, bytes) act" where
  "tls_read_half_read B T fill n =
     io_zoom (\<lambda>(half, w, tls). ((trh_connection half, w), tls)) (\<lambda>((r, w), tls) s. (\<lparr>trh_connection = r\<rparr>, w, tls))
       (read_half_read B T fill (tl_read T n))"

definition tls_read_half_poll ::
  "('w, 'x) net_lib_scheme \<Rightarrow> ('b \<Rightarrow> sock) \<Rightarrow> 'b TlsReadHalf \<Rightarrow> poll_flag list \<Rightarrow> ('w, poll_flag list) act" where
  "tls_read_half_poll N inner half flags = conn_poll N (inner (trh_connection half)) flags"

definition tls_read_half_shutdown ::
  "('w, 'x) net_lib_scheme \<Rightarrow> ('b \<Rightarrow> sock) \<Rightarrow> 'b TlsReadHalf \<Rightarrow> Shutdown \<Rightarrow> ('w, unit) act" where
  "tls_read_half_shutdown N inner half how = conn_shutdown N (inner (trh_connection half)) how"

definition tls_write_half_write ::
  "(bytes, 't, 'y) tls_io_scheme \<Rightarrow> (bytes list \<Rightarrow> (bytes, nat) act) \<Rightarrow> (bytes \<Rightarrow> ('w \<times> 't, nat) act) \<Rightarrow> bytes \<Rightarrow>
    ('w \<times> 't, nat) act" where
  "tls_write_half_write T ub send buf = write_half_write T ub send (tl_write T [buf])"

definition tls_write_half_write_vectored ::
  "(bytes, 't, 'y) tls_io_scheme \<Rightarrow> (bytes list \<Rightarrow> (bytes, nat) act) \<Rightarrow> (bytes \<Rightarrow> ('w \<times> 't, nat) act) \<Rightarrow> bytes list \<Rightarrow>
    ('w \<times> 't, nat) act" where
  "tls_write_half_write_vectored T ub send bufs = write_half_write T ub send (tl_write T bufs)"

definition tls_write_half_poll ::
  "('w, 'x) net_lib_scheme \<Rightarrow> TlsWriteHalf \<Rightarrow> poll_flag list \<Rightarrow> ('w, poll_flag list) act" where
  "tls_write_half_poll N half flags = conn_poll N (twh_connection half) flags"

definition tls_write_half_shutdown ::
  "('w, 'x) net_lib_scheme \<Rightarrow> TlsWriteHalf \<Rightarrow> Shutdown \<Rightarrow> ('w, unit) act" where
  "tls_write_half_shutdown N half how = conn_shutdown N (twh_connection half) how"

text \<open>The boxed halves of an \<open>HttpConn\<close>; the shared TLS state is there for a TLS connection.\<close>

datatype 'b HttpConnReadHalf = PlainRead sock | SecureRead "'b TlsReadHalf"
datatype HttpConnWriteHalf = PlainWrite sock | SecureWrite TlsWriteHalf

fun http_conn_try_split ::
  "(sock \<Rightarrow> 'b) \<Rightarrow> 't HttpConn \<Rightarrow> ('b HttpConnReadHalf \<times> HttpConnWriteHalf) \<times> 't option" where
  "http_conn_try_split new_reader (PlainConn conn) =
     (let (reader, writer) = conn_try_split conn in ((PlainRead reader, PlainWrite writer), None))"
| "http_conn_try_split new_reader (SecureConn c) =
     (let ((reader, writer), tls) = tls_try_split new_reader c in ((SecureRead reader, SecureWrite writer), Some tls))"

fun read_half_poll ::
  "('w, 'x) net_lib_scheme \<Rightarrow> ('b \<Rightarrow> sock) \<Rightarrow> 'b HttpConnReadHalf \<Rightarrow> poll_flag list \<Rightarrow> ('w, poll_flag list) act" where
  "read_half_poll N inner (PlainRead socket) flags = nl_poll N socket flags"
| "read_half_poll N inner (SecureRead half) flags = tls_read_half_poll N inner half flags"

fun read_half_shutdown ::
  "('w, 'x) net_lib_scheme \<Rightarrow> ('b \<Rightarrow> sock) \<Rightarrow> 'b HttpConnReadHalf \<Rightarrow> Shutdown \<Rightarrow> ('w, unit) act" where
  "read_half_shutdown N inner (PlainRead socket) how = nl_shutdown N socket how"
| "read_half_shutdown N inner (SecureRead half) how = tls_read_half_shutdown N inner half how"

fun write_half_poll ::
  "('w, 'x) net_lib_scheme \<Rightarrow> HttpConnWriteHalf \<Rightarrow> poll_flag list \<Rightarrow> ('w, poll_flag list) act" where
  "write_half_poll N (PlainWrite socket) flags = nl_poll N socket flags"
| "write_half_poll N (SecureWrite half) flags = tls_write_half_poll N half flags"

fun write_half_shutdown ::
  "('w, 'x) net_lib_scheme \<Rightarrow> HttpConnWriteHalf \<Rightarrow> Shutdown \<Rightarrow> ('w, unit) act" where
  "write_half_shutdown N (PlainWrite socket) how = nl_shutdown N socket how"
| "write_half_shutdown N (SecureWrite half) how = tls_write_half_shutdown N half how"

text \<open>Reading and writing through a boxed half; a plain one does not use the TLS state.\<close>

fun read_half_recv ::
  "('w, 'z) net_lib_scheme \<Rightarrow> ('b \<times> 'w, 'x) buf_read_scheme \<Rightarrow> ('b \<times> 'w, 't, 'y) tls_io_scheme \<Rightarrow>
    (('b \<times> 'w) \<times> 't, nat) act \<Rightarrow> nat \<Rightarrow> ('b HttpConnReadHalf \<times> 'w \<times> 't, bytes) act" where
  "read_half_recv N B T fill n (PlainRead socket, w, tls) =
     map_option (\<lambda>(out, w). (out, PlainRead socket, w, tls)) (nl_recv N socket n False w)"
| "read_half_recv N B T fill n (SecureRead half, w, tls) =
     map_option (\<lambda>(out, half, w, tls). (out, SecureRead half, w, tls)) (tls_read_half_read B T fill n (half, w, tls))"

fun write_half_send ::
  "('w, 'z) net_lib_scheme \<Rightarrow> (bytes, 't, 'y) tls_io_scheme \<Rightarrow> (bytes list \<Rightarrow> (bytes, nat) act) \<Rightarrow>
    (bytes \<Rightarrow> ('w \<times> 't, nat) act) \<Rightarrow> HttpConnWriteHalf \<Rightarrow> bytes list \<Rightarrow> ('w \<times> 't, nat) act" where
  "write_half_send N T ub send (PlainWrite socket) bufs = on_conn (nl_send N socket bufs False)"
| "write_half_send N T ub send (SecureWrite half) bufs = tls_write_half_write_vectored T ub send bufs"

text \<open>\<open>ConnExtra\<close> for a \<open>BufReader\<close>: the calls go to the stream below it.\<close>

definition buf_poll :: "('b \<Rightarrow> 'c) \<Rightarrow> ('c \<Rightarrow> poll_flag list \<Rightarrow> ('w, poll_flag list) act) \<Rightarrow> 'b \<Rightarrow> poll_flag list \<Rightarrow>
    ('w, poll_flag list) act" where
  "buf_poll inner poll r flags = poll (inner r) flags"

definition buf_shutdown :: "('b \<Rightarrow> 'c) \<Rightarrow> ('c \<Rightarrow> Shutdown \<Rightarrow> ('w, unit) act) \<Rightarrow> 'b \<Rightarrow> Shutdown \<Rightarrow> ('w, unit) act" where
  "buf_shutdown inner shut r how = shut (inner r) how"

text \<open>After a split, each half polls and shuts down the socket of the connection it came from.\<close>

lemma halves_use_the_socket:
  assumes "http_conn_try_split new_reader conn = ((reader, writer), tls)" and "\<And>s. inner (new_reader s) = s"
    and "socket = (case conn of PlainConn s \<Rightarrow> s | SecureConn c \<Rightarrow> tc_connection c)"
  shows "read_half_poll N inner reader = nl_poll N socket" "read_half_shutdown N inner reader = nl_shutdown N socket"
    and "write_half_poll N writer = nl_poll N socket" "write_half_shutdown N writer = nl_shutdown N socket"
    and "tls = (case conn of PlainConn _ \<Rightarrow> None | SecureConn c \<Rightarrow> Some (tc_tls c))"
  using assms
  by (cases conn; fastforce simp: conn_try_split_def tls_try_split_def TlsReadHalf_new_def TlsWriteHalf_new_def
      tls_read_half_poll_def tls_read_half_shutdown_def tls_write_half_poll_def tls_write_half_shutdown_def
      conn_poll_def conn_shutdown_def Let_def)+

end
