(* ===== verification/Http_Response.thy ===== *)
theory Http_Response
  imports Http_Client
begin

text \<open>
  \<open>Response\<close> (\<open>src/src/http/response.rs\<close>): its accessors, and \<open>bytes\<close> and \<open>text\<close>, which read the whole body.
  \<open>read_to_end\<close> and \<open>read_to_string\<close> are provided methods of the \<open>Read\<close> trait of \<open>xx_core\<close>: parameters that
  work on any \<open>read\<close>, here the one of \<open>Body\<close>.
\<close>

section \<open>Accessors\<close>

definition response_stats :: "('b, 'u, 'm) Response \<Rightarrow> Stats" where
  "response_stats r = rr_stats (rp_response r)"

definition response_version :: "('b, 'u, 'm) Response \<Rightarrow> Version" where
  "response_version r = rr_version (rp_response r)"

definition response_status :: "('b, 'u, 'm) Response \<Rightarrow> u16" where
  "response_status r = rr_status (rp_response r)"

definition response_headers :: "('b, 'u, 'm) Response \<Rightarrow> 'm" where
  "response_headers r = rr_headers (rp_response r)"

definition response_url :: "('b, 'u, 'm) Response \<Rightarrow> 'u option" where
  "response_url r = rr_url (rp_response r)"

definition response_into_body :: "('b, 'u, 'm) Response \<Rightarrow> 'b Body" where
  "response_into_body r = rp_body r"

section \<open>HttpRequest\<close>

text \<open>\<open>HttpRequest\<close> (\<open>http/request.rs\<close>) wraps a \<open>Request\<close>: the setters act on it, and \<open>run\<close> is \<open>Response::fetch\<close>.\<close>

record ('u, 'm) HttpRequest =
  hr_inner :: "('u, 'm) Request"

definition on_http_inner :: "(('u, 'm) Request \<Rightarrow> ('u, 'm) Request) \<Rightarrow> ('u, 'm) HttpRequest \<Rightarrow> ('u, 'm) HttpRequest" where
  "on_http_inner f r = r\<lparr>hr_inner := f (hr_inner r)\<rparr>"

definition http_header ::
  "('m, 'y) header_lib_scheme \<Rightarrow> header_key \<Rightarrow> header_val \<Rightarrow> ('u, 'm) HttpRequest \<Rightarrow> ('u, 'm) HttpRequest" where
  "http_header H key v = on_http_inner (request_header H key v)"

definition http_set_port :: "u16 \<Rightarrow> ('u, 'm) HttpRequest \<Rightarrow> ('u, 'm) HttpRequest" where
  "http_set_port port = on_http_inner (request_set_port port)"

definition http_set_strategy :: "IpStrategy \<Rightarrow> ('u, 'm) HttpRequest \<Rightarrow> ('u, 'm) HttpRequest" where
  "http_set_strategy strategy = on_http_inner (request_set_strategy strategy)"

definition http_set_timeout :: "nat \<Rightarrow> ('u, 'm) HttpRequest \<Rightarrow> ('u, 'm) HttpRequest" where
  "http_set_timeout timeout = on_http_inner (request_set_timeout timeout)"

definition http_set_recvbuf_size :: "i32 \<Rightarrow> ('u, 'm) HttpRequest \<Rightarrow> ('u, 'm) HttpRequest" where
  "http_set_recvbuf_size n = on_http_inner (request_set_recvbuf_size n)"

definition http_set_sendbuf_size :: "i32 \<Rightarrow> ('u, 'm) HttpRequest \<Rightarrow> ('u, 'm) HttpRequest" where
  "http_set_sendbuf_size n = on_http_inner (request_set_sendbuf_size n)"

definition http_payload :: "Payload \<Rightarrow> ('u, 'm) HttpRequest \<Rightarrow> ('u, 'm) HttpRequest" where
  "http_payload p = on_http_inner (request_payload p)"

definition http_run ::
  "('w, 't, 'v, 'b, 'u, 'm, 'x) http_env_scheme \<Rightarrow> (('u, 'm) HttpRequest \<times> 'w, ('b, 'u, 'm) Response) act" where
  "http_run X = io_zoom (\<lambda>s. (hr_inner (fst s), snd s)) (\<lambda>t s. ((fst s)\<lparr>hr_inner := fst t\<rparr>, snd t)) (response_fetch X)"

text \<open>A task consumes its request.\<close>

definition http_task_run ::
  "('w, 't, 'v, 'b, 'u, 'm, 'x) http_env_scheme \<Rightarrow> ('u, 'm) HttpRequest \<Rightarrow> ('w, ('b, 'u, 'm) Response) act" where
  "http_task_run X r w = map_option (\<lambda>(out, s). (out, snd s)) (response_fetch X (hr_inner r, w))"

section \<open>Reading the whole body\<close>

record 's read_ext =
  re_to_end :: "(nat \<Rightarrow> ('s, bytes) act) \<Rightarrow> ('s, bytes) act"
  re_to_string :: "(nat \<Rightarrow> ('s, bytes) act) \<Rightarrow> ('s, bytes) act"

text \<open>\<open>self.body()\<close>, with the state of the system that its reader works on.\<close>

definition body_out :: "('b \<times> 'w) Body \<Rightarrow> ('b, 'u, 'm) Response \<times> 'w \<Rightarrow> ('b, 'u, 'm) Response \<times> 'w" where
  "body_out body s =
     ((fst s)\<lparr>rp_body := \<lparr>bd_reader = fst (bd_reader body), bd_transfer = bd_transfer body, bd_reusable = bd_reusable body\<rparr>\<rparr>,
      snd (bd_reader body))"

definition response_body :: "(('b \<times> 'w) Body, 'a) act \<Rightarrow> (('b, 'u, 'm) Response \<times> 'w, 'a) act" where
  "response_body m = io_zoom (\<lambda>s. body_in (rp_body (fst s)) (snd s)) body_out m"

definition response_bytes ::
  "('w, 't, 'v, 'b, 'u, 'm, 'x) http_env_scheme \<Rightarrow> ('b \<times> 'w) Body read_ext \<Rightarrow> (('b, 'u, 'm) Response \<times> 'w, bytes) act" where
  "response_bytes X R =
     io_bind (response_body (re_to_end R (body_read (he_lines X)))) (\<lambda>bytes.
     io_bind (io_zoom snd (\<lambda>w s. (fst s, w)) (nl_check_interrupt (he_net X))) (\<lambda>_.
     io_return bytes))"

definition response_text ::
  "('w, 't, 'v, 'b, 'u, 'm, 'x) http_env_scheme \<Rightarrow> ('b \<times> 'w) Body read_ext \<Rightarrow> (('b, 'u, 'm) Response \<times> 'w, bytes) act" where
  "response_text X R =
     io_bind (response_body (re_to_string R (body_read (he_lines X)))) (\<lambda>text.
     io_bind (io_zoom snd (\<lambda>w s. (fst s, w)) (nl_check_interrupt (he_net X))) (\<lambda>_.
     io_return text))"

text \<open>
  What \<open>read_to_end\<close> and \<open>read_to_string\<close> do with a reader that keeps the contract of \<open>Read\<close>: they read until
  nothing is left, and a string has to be UTF-8.
\<close>

locale read_whole =
  fixes R :: "('s, 'x) read_ext_scheme"
  assumes to_end: "read_stream rd holds \<Longrightarrow> holds s xs \<Longrightarrow> \<exists>s'. re_to_end R rd s = Some (Ok xs, s') \<and> holds s' []"
    and to_string: "read_stream rd holds \<Longrightarrow> holds s xs \<Longrightarrow>
      \<exists>s'. re_to_string R rd s = Some (if utf8_valid xs then Ok xs else Err InvalidUtf8, s') \<and> holds s' []"

text \<open>Reading in blocks.\<close>

partial_function (option) drain :: "(nat \<Rightarrow> ('s, bytes) act) \<Rightarrow> bytes \<Rightarrow> ('s, bytes) act" where
  "drain rd acc s = io_bind (rd 4096) (\<lambda>xs. if xs = [] then io_return acc else drain rd (acc @ xs)) s"

definition drain_ext :: "'s read_ext" where
  "drain_ext = \<lparr>re_to_end = (\<lambda>rd. drain rd []),
     re_to_string = (\<lambda>rd. io_bind (drain rd []) (\<lambda>xs. if utf8_valid xs then io_return xs else io_throw InvalidUtf8))\<rparr>"

context read_stream
begin

lemma drain_all:
  "holds s xs \<Longrightarrow> \<exists>s'. drain rd acc s = Some (Ok (acc @ xs), s') \<and> holds s' []"
proof (induction "length xs" arbitrary: s xs acc rule: less_induct)
  case less
  obtain ys zs t where r: "rd 4096 s = Some (Ok ys, t)" "xs = ys @ zs" "holds t zs" "ys = [] \<longleftrightarrow> xs = []"
    using read_next [OF less.prems, of 4096] by (metis zero_less_numeral)
  show ?case
  proof (cases "ys = []")
    case True
    with r show ?thesis by (subst drain.simps) (simp add: io_simps)
  next
    case False
    then have "length zs < length xs" using r(2) by simp
    from less.hyps [OF this r(3), of "acc @ ys"] False r(1,2) show ?thesis
      by (subst drain.simps) (simp add: io_simps)
  qed
qed

end

interpretation drain: read_whole drain_ext
proof
  fix rd :: "nat \<Rightarrow> ('s, bytes) act" and holds :: "'s \<Rightarrow> bytes \<Rightarrow> bool" and s xs
  assume "read_stream rd holds" "holds s xs"
  from read_stream.drain_all [OF this, of "[]"] obtain s' where d: "drain rd [] s = Some (Ok xs, s')" "holds s' []" by auto
  then show "\<exists>s'. re_to_end drain_ext rd s = Some (Ok xs, s') \<and> holds s' []" by (simp add: drain_ext_def)
  from d show "\<exists>s'. re_to_string drain_ext rd s = Some (if utf8_valid xs then Ok xs else Err InvalidUtf8, s') \<and> holds s' []"
    by (simp add: drain_ext_def io_simps)
qed

context http_client
begin

text \<open>A response with a body that holds its content.\<close>

lemma response_whole:
  assumes whole: "read_whole R" and "body_holds (he_lines X) incoming tail (body_in (rp_body resp) w) content"
  shows "\<exists>s. response_bytes X R (resp, w) = Some (Ok content, s)"
    and "\<exists>s. response_text X R (resp, w) = Some (if utf8_valid content then Ok content else Err InvalidUtf8, s)"
proof -
  note stream = body_read_stream [of tail]
  obtain b where "re_to_end R (body_read (he_lines X)) (body_in (rp_body resp) w) = Some (Ok content, b)"
    using read_whole.to_end [OF whole stream assms(2)] by blast
  moreover obtain w' where "nl_check_interrupt (he_net X) (snd (body_out b (resp, w))) = Some (Ok (), w')"
    using interrupt by blast
  ultimately show "\<exists>s. response_bytes X R (resp, w) = Some (Ok content, s)"
    by (simp add: response_bytes_def response_body_def io_simps)
  obtain b where b: "re_to_string R (body_read (he_lines X)) (body_in (rp_body resp) w)
      = Some (if utf8_valid content then Ok content else Err InvalidUtf8, b)"
    using read_whole.to_string [OF whole stream assms(2)] by blast
  obtain w' where "nl_check_interrupt (he_net X) (snd (body_out b (resp, w))) = Some (Ok (), w')"
    using interrupt by blast
  with b show "\<exists>s. response_text X R (resp, w) = Some (if utf8_valid content then Ok content else Err InvalidUtf8, s)"
    by (simp add: response_text_def response_body_def io_simps)
qed

end

section \<open>Properties\<close>

text \<open>C23: A request whose server answers with a well-formed head and a status that is not a redirection:
  \<open>bytes\<close> on the response of \<open>fetch\<close> returns the content whichever way the body is delimited, and \<open>text\<close>
  returns it when it is UTF-8 and fails otherwise.\<close>

theorem fetch_whole:
  assumes client: "http_client X sent incoming plain" and whole: "read_whole R"
    and url: "rq_request request = Ok u" and host: "ensure_host X u request = Ok request1"
    and taken: "taken = request1\<lparr>rq_body := None\<rparr>"
    and conn: "get_connection_for X taken u w = Some (Ok (conn, stats), w1)"
    and ans: "answers X sent incoming conn w1 (request_head X taken Http11 u @ payload_bytes (rq_body request1))
        (status_line ver code reason @ header_wire kvs @ crlf @ rest) later"
    and code: "code = [a, b, c]" "in_range 0x31 0x39 a" "in_range 0x30 0x39 b" "in_range 0x30 0x39 c"
    and reason: "\<forall>b\<in>set reason. field_byte b" and kvs: "\<forall>kv\<in>set kvs. header_ok kv"
    and ver: "ver \<noteq> Http09" "op_min_version (rq_options taken) \<le> ver" "ver \<le> op_max_version (rq_options taken)"
    and small: "length (status_line ver code reason @ header_wire kvs) \<le> unat (op_maximum_header_size (rq_options taken))"
    and status: "status = the (hl_status (he_headers X) code)" "\<not> is_redirection status"
    and headers: "headers = insert_all (he_headers X) kvs (hl_clear (he_headers X) (hl_new (he_headers X)))"
    and body: "body_new (he_headers X) () (rq_method taken) status headers = Ok kind"
    and content: "carries (bd_transfer kind) (rest @ later) content tail"
  shows "\<exists>resp request' w' s1 s2. response_fetch X (request, w) = Some (Ok resp, request', w')
    \<and> response_status resp = status \<and> response_headers resp = headers \<and> response_url resp = None
    \<and> response_bytes X R (resp, w') = Some (Ok content, s1)
    \<and> response_text X R (resp, w') = Some (if utf8_valid content then Ok content else Err InvalidUtf8, s2)"
proof -
  obtain resp w' where f: "response_fetch X (request, w) = Some (Ok resp, taken\<lparr>rq_body := payload_after (rq_body request1)\<rparr>, w')"
    "rr_status (rp_response resp) = status" "rr_headers (rp_response resp) = headers" "rr_url (rp_response resp) = None"
    "body_holds (he_lines X) incoming tail (body_in (rp_body resp) w') content"
    using http_client.fetch_holds [OF client url host taken conn ans code reason kvs ver small status headers body content] by blast
  from http_client.response_whole [OF client whole f(5)] f(1-4) show ?thesis
    by (auto simp: response_status_def response_headers_def response_url_def)
qed

theorem fetch_whole_witness:
  "\<exists>resp request' w' s1 s2. response_fetch toy_site (http_get toy_urls alist_lib (lit ''http:x''), toy_world)
      = Some (Ok resp, request', w')
    \<and> response_status resp = 200
    \<and> response_bytes toy_site drain_ext (resp, w') = Some (Ok (lit ''hi''), s1)
    \<and> response_text toy_site drain_ext (resp, w') = Some (Ok (lit ''hi''), s2)"
proof -
  obtain s stats w1 where conn: "get_connection_for toy_site (toy_prepared\<lparr>rq_body := None\<rparr>) (lit ''http:x'') toy_world
      = Some (Ok (PlainConn s, stats), w1)"
    and ans: "answers toy_site toy_sent (toy_incoming (\<lambda>_. [toy_reply])) (PlainConn s) w1
      (request_head toy_site (toy_prepared\<lparr>rq_body := None\<rparr>) Http11 (lit ''http:x'') @ payload_bytes (rq_body toy_prepared))
      (status_line Http11 (lit ''200'') (lit ''OK'') @ header_wire [(lit ''Content-Length'', lit ''2'')] @ crlf @ lit ''hi'') []"
    by (rule toy_site_answers)
  have "\<exists>resp request' w' s1 s2. response_fetch toy_site (toy_request, toy_world) = Some (Ok resp, request', w')
      \<and> response_status resp = 200 \<and> response_headers resp = [(lit ''content-length'', lit ''2'')] \<and> response_url resp = None
      \<and> response_bytes toy_site drain_ext (resp, w') = Some (Ok (lit ''hi''), s1)
      \<and> response_text toy_site drain_ext (resp, w')
        = Some (if utf8_valid (lit ''hi'') then Ok (lit ''hi'') else Err InvalidUtf8, s2)"
    by (rule fetch_whole [where a = "0x32" and b = "0x30" and c = "0x30" and tail = "[]", OF toy_http.http_client_axioms
          drain.read_whole_axioms _ toy_prepare refl conn ans _ _ _ _ _ _ _ _ _ _ toy_status [symmetric] _
          toy_headers [symmetric] toy_kind])
      (simp_all add: toy_prepared_def toy_request_def Options_new_def in_range_def word_le_nat_alt field_byte_def header_ok_def
        token_def token_byte_def visible_def less_eq_Version_def DEFAULT_MAXIMUM_HEADER_SIZE_def status_line_def header_wire_def
        header_line_def crlf_def is_redirection_def)
  moreover have "utf8_valid (lit ''hi'')" by simp
  ultimately show ?thesis unfolding toy_get by (simp only: if_True) blast
qed

end
