(* ===== verification/Http_Bounds.thy ===== *)
theory Http_Bounds
  imports Http_Head
begin

text \<open>
  How much \<open>parse_response\<close> (\<open>src/src/http/transfer.rs\<close>) takes from a peer, whatever the peer sends:
  the bound that \<open>maximum_header_size\<close> is meant to give.
\<close>

text \<open>\<open>advances E incoming r k r'\<close>: \<open>r'\<close> is \<open>r\<close> with \<open>k\<close> of its pending bytes consumed.\<close>

definition advances :: "('r, 'x) line_env_scheme \<Rightarrow> ('r \<Rightarrow> bytes) \<Rightarrow> 'r \<Rightarrow> nat \<Rightarrow> 'r \<Rightarrow> bool" where
  "advances E incoming r k r' \<longleftrightarrow> k \<le> length (pending E incoming r)
     \<and> pending E incoming r' = drop k (pending E incoming r) \<and> br_capacity E r' = br_capacity E r"

lemma advances_refl: "advances E incoming r 0 r"
  by (simp add: advances_def)

lemma advances_trans:
  "advances E incoming r j s \<Longrightarrow> advances E incoming s k t \<Longrightarrow> advances E incoming r (j + k) t"
  by (auto simp: advances_def add.commute)

lemma length_strip_suffix: "strip_suffix c xs = Some ys \<Longrightarrow> length xs = Suc (length ys)"
  by (auto simp: strip_suffix_def split: if_splits)

lemma strip_line_nil: "strip_line xs = [] \<Longrightarrow> length xs \<le> 2"
  by (auto simp: strip_line_def Let_def dest!: length_strip_suffix split: option.splits)

context line_source
begin

lemma advances_consume:
  "n \<le> length (br_buffer E r) \<Longrightarrow> advances E incoming r n (br_consume E n r)"
  using consume [of n r] consume_pending [of n r] by (simp add: advances_def pending_def)

text \<open>A line is searched without consuming, and lies in the buffer when it is found.\<close>

lemma line_loop_advances:
  assumes "line_loop E offset r = Some out"
  shows "advances E incoming r 0 (snd out) \<and> (\<forall>n. fst out = Ok n \<longrightarrow> n \<le> length (br_buffer E (snd out)))"
proof -
  have "E = E \<longrightarrow> ?thesis"
  proof (rule line_loop.raw_induct [where P = "\<lambda>E' offset r out. E' = E \<longrightarrow>
      advances E incoming r 0 (snd out) \<and> (\<forall>n. fst out = Ok n \<longrightarrow> n \<le> length (br_buffer E (snd out)))", OF _ assms], rule impI)
    fix L :: "('r, 'x) line_env_scheme \<Rightarrow> nat \<Rightarrow> ('r, nat) act" and E' offset r out
    assume ih: "\<And>E' offset r out. L E' offset r = Some out \<Longrightarrow> E' = E \<longrightarrow>
        advances E incoming r 0 (snd out) \<and> (\<forall>n. fst out = Ok n \<longrightarrow> n \<le> length (br_buffer E (snd out)))"
      and run: "(if length (br_buffer E' r) < offset then io_panic r
        else case le_memchr E' newline (drop offset (br_buffer E' r)) of
          Some index \<Rightarrow> io_return (offset + (index + 1)) r
        | None \<Rightarrow> io_bind (br_fill E') (\<lambda>n.
            if n \<noteq> 0 then L E' (offset + length (br_buffer E' r))
            else io_bind (io_get (br_capacity E')) (\<lambda>cap.
              if offset + length (br_buffer E' r) = cap then io_throw (HttpE HeadersTooLong)
              else io_throw (Kind KUnexpectedEof))) r) = Some out"
      and E': "E' = E"
    obtain n s where fill: "br_fill E r = Some (Ok n, s)" "pend s = pend r" "br_capacity E s = br_capacity E r"
      by (rule fill_pending [of r])
    then have step: "advances E incoming r 0 s" by (simp add: advances_def)
    consider (short) "length (br_buffer E r) < offset"
      | (hit) i where "\<not> length (br_buffer E r) < offset" "le_memchr E newline (drop offset (br_buffer E r)) = Some i"
      | (none) "\<not> length (br_buffer E r) < offset" "le_memchr E newline (drop offset (br_buffer E r)) = None"
      by (cases "le_memchr E newline (drop offset (br_buffer E r))") auto
    then show "advances E incoming r 0 (snd out) \<and> (\<forall>n. fst out = Ok n \<longrightarrow> n \<le> length (br_buffer E (snd out)))"
    proof cases
      case (hit i)
      then have "i < length (drop offset (br_buffer E r))"
        by (auto simp: memchr dest: position_less)
      with hit run E' show ?thesis by (auto simp: io_simps advances_refl)
    next
      case none
      show ?thesis
      proof (cases "n = 0")
        case True
        with run E' none fill(1) step show ?thesis by (auto simp: io_simps split: if_splits)
      next
        case False
        with run E' none fill(1) have "L E (offset + length (br_buffer E r)) s = Some out" by simp
        from ih [OF this] step show ?thesis using advances_trans by fastforce
      qed
    qed (use run E' in \<open>auto simp: io_simps advances_refl\<close>)
  qed
  then show ?thesis by simp
qed

lemma read_line_advances:
  assumes "read_line_in_place E r = Some (out, r')"
  shows "advances E incoming r 0 r'"
    and "out = Ok (line, n) \<Longrightarrow> n \<le> length (br_buffer E r') \<and> (line = [] \<longrightarrow> n \<le> 2)"
proof -
  obtain res s where s: "line_loop E 0 r = Some (res, s)"
    using assms by (cases "line_loop E 0 r") (auto simp: read_line_in_place_def)
  note loop = line_loop_advances [OF s, simplified]
  show "advances E incoming r 0 r'"
    using assms s loop
    by (cases res) (auto simp: read_line_in_place_def io_simps split: if_splits)
  show "n \<le> length (br_buffer E r') \<and> (line = [] \<longrightarrow> n \<le> 2)" if "out = Ok (line, n)"
    using assms s loop that strip_line_nil [of "take n (br_buffer E r')"]
    by (cases res) (auto simp: read_line_in_place_def io_simps split: if_splits)
qed

text \<open>A header line consumes what it reports; the empty line at most two bytes.\<close>

lemma read_header_line_advances:
  assumes "read_header_line_limited E H r = Some (out, r')"
  obtains k where "advances E incoming r k r'" "k \<le> br_capacity E r"
    and "\<And>key v n. out = Ok (Some (key, v, n)) \<Longrightarrow> n = k" "out = Ok None \<Longrightarrow> k \<le> 2"
proof -
  obtain res s where s: "read_line_in_place E r = Some (res, s)"
    using assms by (cases "read_line_in_place E r") (auto simp: read_header_line_limited_def)
  note line = read_line_advances [OF s]
  show ?thesis
  proof (cases "\<exists>l n. res = Ok (l, n)")
    case True
    then obtain l n where res: "res = Ok (l, n)" by blast
    from line(2) [OF this] have n: "n \<le> length (br_buffer E s)" "l = [] \<longrightarrow> n \<le> 2" by auto
    have cap: "n \<le> br_capacity E r"
      using n(1) buffer_cap [of s] line(1) by (simp add: advances_def)
    have adv: "advances E incoming r n (br_consume E n s)"
      using advances_trans [OF line(1) advances_consume [OF n(1)]] by simp
    show ?thesis
    proof (cases "l = []")
      case True
      with assms s res adv cap n that [of n] show ?thesis
        by (auto simp: read_header_line_limited_def io_simps)
    next
      case False
      with assms s res adv cap line(1) that [of n] that [of 0] show ?thesis
        by (cases "parse_header_line H l") (auto simp: read_header_line_limited_def io_simps io_lift_def)
    qed
  next
    case False
    with assms s line(1) that [of 0] show ?thesis
      by (cases res) (auto simp: read_header_line_limited_def)
  qed
qed

text \<open>Headers: each line is counted before the next one is read.\<close>

abbreviation headers_bounded :: "'r \<times> 'm \<Rightarrow> nat \<Rightarrow> unit res \<times> 'r \<times> 'm \<Rightarrow> bool" where
  "headers_bounded s limit out \<equiv> (\<exists>k. advances E incoming (fst s) k (fst (snd out))
     \<and> k \<le> limit + br_capacity E (fst s) \<and> (fst out = Ok () \<longrightarrow> k \<le> limit + 2))"

lemma headers_bounded_step:
  assumes "advances E incoming r j t" and "j \<le> limit" and "headers_bounded (t, m1) (limit - j) out"
  shows "headers_bounded (r, m) limit out"
proof -
  from assms(3) obtain k where k: "advances E incoming t k (fst (snd out))"
    "k \<le> limit - j + br_capacity E t" "fst out = Ok () \<longrightarrow> k \<le> limit - j + 2" by auto
  moreover have "br_capacity E t = br_capacity E r" using assms(1) by (simp add: advances_def)
  ultimately show ?thesis
    using advances_trans [OF assms(1) k(1)] assms(2) by (intro exI [of _ "j + k"]) auto
qed

lemma read_headers_advances:
  assumes "read_headers_limited E H limit s = Some out"
  shows "headers_bounded s limit out"
proof -
  have "E = E \<longrightarrow> ?thesis"
  proof (rule read_headers_limited.raw_induct [where P = "\<lambda>E' H limit s out. E' = E \<longrightarrow> headers_bounded s limit out",
        OF _ assms], rule impI)
    fix L :: "('r, 'x) line_env_scheme \<Rightarrow> ('m, 'y) header_lib_scheme \<Rightarrow> nat \<Rightarrow> ('r \<times> 'm, unit) act"
      and E' and H :: "('m, 'y) header_lib_scheme" and limit and s :: "'r \<times> 'm" and out
    assume ih: "\<And>E' H limit s out. L E' H limit s = Some out \<Longrightarrow> E' = E \<longrightarrow> headers_bounded s limit out"
      and run: "io_bind (on_reader (read_header_line_limited E' H)) (\<lambda>header.
         case header of None \<Rightarrow> io_return ()
         | Some hdr \<Rightarrow>
             (case nat_checked_sub limit (snd (snd hdr)) of
                None \<Rightarrow> io_throw (HttpE HeadersTooLong)
              | Some new_limit \<Rightarrow> io_bind (insert_header H (fst hdr) (fst (snd hdr))) (\<lambda>_. L E' H new_limit))) s = Some out"
      and E': "E' = E"
    obtain r m where s: "s = (r, m)" by fastforce
    obtain res t where t: "read_header_line_limited E H r = Some (res, t)"
      using run E' s by (cases "read_header_line_limited E H r") (auto simp: on_reader_def)
    from read_header_line_advances [OF t] obtain k where k: "advances E incoming r k t" "k \<le> br_capacity E r"
      "\<And>key v n. res = Ok (Some (key, v, n)) \<Longrightarrow> n = k" "res = Ok None \<Longrightarrow> k \<le> 2" by blast
    have here: "headers_bounded s limit (out', t, m')" if "out' = Ok () \<longrightarrow> k \<le> limit + 2" for out' m'
      using k(1,2) s that by (intro exI [of _ k]) auto
    show "headers_bounded s limit out"
    proof (cases "\<exists>key v n. res = Ok (Some (key, v, n))")
      case False
      with run E' s t k(4) have "\<exists>out' m'. out = (out', t, m') \<and> (out' = Ok () \<longrightarrow> k \<le> limit + 2)"
        by (cases res) (auto simp: on_reader_def io_simps split: option.splits)
      with here show ?thesis by blast
    next
      case True
      then obtain key v where res: "res = Ok (Some (key, v, k))" using k(3) by blast
      show ?thesis
      proof (cases "k \<le> limit \<and> (\<exists>m1. insert_header H key v (t, m) = Some (Ok (), (t, m1)))")
        case True
        then obtain m1 where m1: "k \<le> limit" "insert_header H key v (t, m) = Some (Ok (), (t, m1))" by blast
        with run E' s t res have "L E H (limit - k) (t, m1) = Some out"
          by (simp add: on_reader_def nat_checked_sub_def)
        with ih have "headers_bounded (t, m1) (limit - k) out" by blast
        from headers_bounded_step [OF k(1) m1(1) this] s show ?thesis by simp
      next
        case False
        with run E' s t res have "\<exists>out' m'. out = (out', t, m') \<and> out' \<noteq> Ok ()"
          by (auto simp: on_reader_def nat_checked_sub_def io_simps insert_header_def split: if_splits result.splits)
        with here show ?thesis by blast
      qed
    qed
  qed
  then show ?thesis by simp
qed

lemma prefix_loop_advances:
  assumes "prefix_loop E r = Some out"
  shows "advances E incoming r 0 (snd out)"
proof -
  have "E = E \<longrightarrow> ?thesis"
  proof (rule prefix_loop.raw_induct [where P = "\<lambda>E' r out. E' = E \<longrightarrow> advances E incoming r 0 (snd out)",
        OF _ assms], rule impI)
    fix L :: "('r, 'x) line_env_scheme \<Rightarrow> ('r, unit) act" and E' r out
    assume ih: "\<And>E' r out. L E' r = Some out \<Longrightarrow> E' = E \<longrightarrow> advances E incoming r 0 (snd out)"
      and run: "(if length (br_buffer E' r) < length (lit ''HTTP/'') then
        io_bind (br_fill E') (\<lambda>n. if n = 0 then io_throw (Kind KUnexpectedEof) else L E') r
        else io_return () r) = Some out"
      and E': "E' = E"
    obtain n s where fill: "br_fill E r = Some (Ok n, s)" "pend s = pend r" "br_capacity E s = br_capacity E r"
      by (rule fill_pending [of r])
    then have step: "advances E incoming r 0 s" by (simp add: advances_def)
    have "advances E incoming r 0 (snd out)" if "L E s = Some out"
      using ih [OF that] advances_trans [OF step] by fastforce
    with run E' fill(1) step show "advances E incoming r 0 (snd out)"
      by (auto simp: io_simps advances_refl split: if_splits)
  qed
  then show ?thesis by simp
qed

text \<open>The status line, with the number of bytes it reports.\<close>

lemma read_status_line_advances:
  assumes "read_status_line E H r = Some (out, r')"
  obtains k where "advances E incoming r k r'" "k \<le> br_capacity E r" "\<And>v n. out = Ok (v, n) \<Longrightarrow> n = k"
proof -
  obtain res0 s0 where p: "prefix_loop E r = Some (res0, s0)"
    using assms by (cases "prefix_loop E r") (auto simp: read_status_line_def)
  note a0 = prefix_loop_advances [OF p, simplified]
  consider (fails) "\<not> is_Ok res0" | (old) "is_Ok res0" "take 5 (br_buffer E s0) \<noteq> lit ''HTTP/''"
    | (line) "is_Ok res0" "take 5 (br_buffer E s0) = lit ''HTTP/''" by blast
  then show ?thesis
  proof cases
    case fails
    with assms p a0 that [of 0] show ?thesis by (cases res0) (auto simp: read_status_line_def)
  next
    case old
    with assms p a0 that [of 0] show ?thesis
      by (cases res0) (auto simp: read_status_line_def io_simps simp del: lit_simps)
  next
    case line
    with assms p obtain res s where s: "read_line_in_place E s0 = Some (res, s)"
      by (cases res0; cases "read_line_in_place E s0") (auto simp: read_status_line_def io_simps simp del: lit_simps)
    have a1: "advances E incoming r 0 s" using advances_trans [OF a0 read_line_advances(1) [OF s]] by simp
    show ?thesis
    proof (cases "\<exists>l n. res = Ok (l, n)")
      case True
      then obtain l n where res: "res = Ok (l, n)" by blast
      from read_line_advances(2) [OF s this] have n: "n \<le> length (br_buffer E s)" by simp
      have "n \<le> br_capacity E r" using n buffer_cap [of s] a1 by (simp add: advances_def)
      moreover have "advances E incoming r n (br_consume E n s)"
        using advances_trans [OF a1 advances_consume [OF n]] by simp
      moreover have "r' = br_consume E n s \<and> (\<forall>v k. out = Ok (v, k) \<longrightarrow> k = n)"
        using assms p line s res
        by (cases res0; cases "parse_status_line H l")
          (auto simp: read_status_line_def io_simps Let_def simp del: lit_simps)
      ultimately show ?thesis using that by blast
    next
      case False
      with assms p line s a1 that [of 0] show ?thesis
        by (cases res0; cases res) (auto simp: read_status_line_def io_simps simp del: lit_simps)
    qed
  qed
qed

end

section \<open>Properties\<close>

text \<open>C24: Whatever the peer sends and however it ends, \<open>parse_response\<close> consumes at most
  \<open>maximum_header_size\<close> bytes and one buffer; when it succeeds for a version after 0.9, at most
  \<open>maximum_header_size\<close> bytes and the empty line.\<close>

theorem head_bounded:
  assumes src: "line_source E incoming"
    and run: "parse_response E H options (r, m) = Some (out, (r', m'))"
  shows "\<exists>k. advances E incoming r k r'
    \<and> k \<le> unat (op_maximum_header_size options) + br_capacity E r
    \<and> (\<forall>status ver. out = Ok (status, ver) \<and> ver \<noteq> Http09 \<longrightarrow> k \<le> unat (op_maximum_header_size options) + 2)"
proof -
  let ?max = "unat (op_maximum_header_size options)"
  obtain res s where s: "read_status_line E H r = Some (res, s)"
    using run by (cases "read_status_line E H r") (auto simp: parse_response_def on_reader_def)
  from line_source.read_status_line_advances [OF src this] obtain j where
    j: "advances E incoming r j s" "j \<le> br_capacity E r" "\<And>v n. res = Ok (v, n) \<Longrightarrow> n = j" by blast
  show ?thesis
  proof (cases "\<exists>ver st. res = Ok ((ver, st), j) \<and> op_min_version options \<le> ver \<and> ver \<le> op_max_version options
      \<and> ver \<noteq> Http09 \<and> j \<le> ?max")
    case False
    with run s j(3) have "r' = s \<and> (\<forall>status ver. out = Ok (status, ver) \<longrightarrow> ver = Http09)"
      by (cases res)
        (auto simp: parse_response_def on_reader_def io_simps nat_checked_sub_def not_less split: if_splits)
    with j show ?thesis by (intro exI [of _ j]) auto
  next
    case True
    then obtain ver st where res: "res = Ok ((ver, st), j)" "op_min_version options \<le> ver"
      "ver \<le> op_max_version options" "ver \<noteq> Http09" "j \<le> ?max" by blast
    then obtain out1 where hd: "read_headers_limited E H (?max - j) (s, m) = Some (out1, (r', m'))"
      and ok: "\<forall>x. out = Ok x \<longrightarrow> out1 = Ok ()"
      using run s
      by (cases "read_headers_limited E H (?max - j) (s, m)"; cases "fst (the (read_headers_limited E H (?max - j) (s, m)))")
        (auto simp: parse_response_def on_reader_def io_simps nat_checked_sub_def not_less [symmetric])
    from line_source.headers_bounded_step [OF src j(1) res(5) line_source.read_headers_advances [OF src hd], of m]
    show ?thesis using ok by auto
  qed
qed

text \<open>A head of exactly the configured size: its 25 bytes and the empty line are consumed.\<close>

theorem head_bounded_witness:
  "\<exists>r' k. fst (the (parse_response script_line alist_lib (Options_new\<lparr>op_maximum_header_size := 25\<rparr>)
        (\<lparr>sc_buf = lit ''HTTP/1.1 200 OK'' @ crlf @ lit ''Age: 7'' @ crlf @ crlf @ [1, 2], sc_free = 9, sc_rest = []\<rparr>, [])))
      = Ok (200, Http11)
    \<and> advances script_line script_incoming
        \<lparr>sc_buf = lit ''HTTP/1.1 200 OK'' @ crlf @ lit ''Age: 7'' @ crlf @ crlf @ [1, 2], sc_free = 9, sc_rest = []\<rparr> k r'
    \<and> k \<le> 27"
proof -
  let ?code = "lit ''200''" and ?kvs = "[(lit ''Age'', lit ''7'')]"
  let ?opts = "Options_new\<lparr>op_maximum_header_size := 25\<rparr>"
  let ?r = "\<lparr>sc_buf = lit ''HTTP/1.1 200 OK'' @ crlf @ lit ''Age: 7'' @ crlf @ crlf @ [1, 2], sc_free = 9, sc_rest = []\<rparr>"
  have buf: "br_buffer script_line ?r = status_line Http11 ?code (lit ''OK'') @ header_wire ?kvs @ crlf @ [1, 2]"
    by (simp add: status_line_def header_wire_def header_line_def)
  have ok: "\<forall>kv\<in>set ?kvs. header_ok kv"
    by (simp add: header_ok_def token_def token_byte_def field_byte_def visible_def in_range_def word_le_nat_alt)
  have "\<exists>r' m'. parse_response script_line alist_lib ?opts (?r, []) = Some (Ok (200, Http11), (r', m'))"
    using parse_response_head [OF http_script.http_parser_axioms buf _ _ _ _ _ ok, of _ _ _ ?opts "[]"]
    by (auto simp: Options_new_def DEFAULT_MAXIMUM_HEADER_SIZE_def status_line_def header_wire_def header_line_def
        crlf_def field_byte_def in_range_def word_le_nat_alt less_Version_def less_eq_Version_def alist_lib_def status_of_digits_def)
  then obtain r' m' where run: "parse_response script_line alist_lib ?opts (?r, []) = Some (Ok (200, Http11), (r', m'))"
    by blast
  from head_bounded [OF script_line.line_source_axioms run] obtain k where
    "advances script_line script_incoming ?r k r'" "k \<le> 27" by auto
  with run show ?thesis by (metis fst_conv option.sel)
qed

end
