(* ===== verification/Http_Target.thy ===== *)
theory Http_Target
  imports Http_Client
begin

text \<open>
  Where an HTTP request goes: \<open>get_connection_for\<close> (\<open>src/src/http/transfer.rs\<close>) put together with the
  resolver (\<open>dns/resolver.rs\<close>), the TCP connection (\<open>net/conn.rs\<close>) and the TLS connection (\<open>tls/conn.rs\<close>).
\<close>

section \<open>The port and the options of a connection\<close>

text \<open>The port of the URL, or that of the request, or the one of the scheme.\<close>

definition target_port :: "('u, 'x) url_lib_scheme \<Rightarrow> ('u, 'm) Request \<Rightarrow> 'u \<Rightarrow> u16" where
  "target_port U request url =
     (let port = (case ul_port U url of Some port \<Rightarrow> port | None \<Rightarrow> op_port (rq_options request))
      in if port = 0 then (if op_secure (rq_options request) then 443 else 80) else port)"

definition request_socket_options :: "('u, 'm) Request \<Rightarrow> sock \<Rightarrow> net_event list" where
  "request_socket_options request s =
     (case op_recvbuf_size (rq_options request) of Some n \<Rightarrow> [EvRecvbuf s n] | None \<Rightarrow> [])
     @ (case op_sendbuf_size (rq_options request) of Some n \<Rightarrow> [EvSendbuf s n] | None \<Rightarrow> [])
     @ [EvNodelay s True, EvKeepalive s True 60]"

lemmas connection_setters = with_resolver_def set_strategy_def set_timeout_def set_tcp_nodelay_def set_tcp_keepalive_def
  set_recvbuf_size_def set_sendbuf_size_def set_port_def

lemma connection_options_fields:
  "co_host (connection_options X request url host) = host"
  "co_resolver (connection_options X request url host) = he_resolver X"
  "co_strategy (connection_options X request url host) = op_strategy (rq_options request)"
  "co_timeout (connection_options X request url host) = op_timeout (rq_options request)"
  "co_port (connection_options X request url host) = target_port (he_urls X) request url"
  "option_events (connection_options X request url host) s = request_socket_options request s"
  by (auto simp: connection_options_def connection_setters Let_def target_port_def option_events_def request_socket_options_def
      split: option.splits)

text \<open>A connection is the socket of a \<open>connect_stats\<close> with these options, with or without TLS on top.\<close>

lemma get_connection_socket:
  assumes "get_connection_for X request url w = Some (Ok (conn, stats), w')"
  obtains host s st w2 where "ul_host_str (he_urls X) url = Some host"
    "connect_stats (he_net X) (connection_options X request url host) w = Some (Ok (s, st), w2)" "conn_sock conn = s"
    "op_secure (rq_options request) \<longleftrightarrow> (\<exists>c. conn = SecureConn c)" "\<not> op_secure (rq_options request) \<longrightarrow> w2 = w'"
    "\<exists>full. stats = Some full \<and> (\<not> op_secure (rq_options request) \<longrightarrow> st_connect full = Some st)"
proof -
  obtain host where host: "ul_host_str (he_urls X) url = Some host"
    using assms by (cases "ul_host_str (he_urls X) url") (auto simp: get_connection_for_def io_panic_def)
  let ?o = "connection_options X request url host"
  show ?thesis
  proof (cases "op_secure (rq_options request)")
    case True
    with assms host obtain c cst where c: "tls_connect_stats_config (he_net X) (he_tls X) ?o (he_tls_config X) w = Some (Ok (c, cst), w')"
      "conn = SecureConn c" "stats = Some (stats_from_tls cst)"
      by (auto simp: get_connection_for_def Let_def io_Ok)
    then obtain tls s st w2 where s: "connect_stats (he_net X) ?o w = Some (Ok (s, st), w2)"
      "(case tls_connect (he_net X) (he_tls X) s (tls_stats_from st) (w2, tls) of None \<Rightarrow> None
        | Some (out, w, tls) \<Rightarrow> Some (map_ok (Pair \<lparr>tc_connection = s, tc_tls = tls\<rparr>) out, w)) = Some (Ok (c, cst), w')"
      unfolding tls_connect_stats_config_def by (fastforce simp: io_Ok)
    then have "tc_connection c = s" by (auto simp: map_ok_Ok_iff split: option.splits)
    with host s c True show ?thesis by (intro that [of host s st w2]) simp_all
  next
    case False
    with assms host obtain s st where "connect_stats (he_net X) ?o w = Some (Ok (s, st), w')" "conn = PlainConn s"
      "stats = Some (stats_from st)"
      by (auto simp: get_connection_for_def Let_def io_Ok)
    with host False show ?thesis by (intro that [of host s st w']) (simp_all add: stats_from_def)
  qed
qed

section \<open>Properties\<close>

text \<open>C17: The connection of an HTTP exchange is a socket connected to the first address of the URL's host, in the
  order of the strategy, that accepts at the port of the URL (or of the request, or of the scheme),
  after one failed attempt for each address before it at the same port; it has the options of the
  request, no delay and a keep-alive of 60 s, and TLS runs over that socket exactly if the request is
  secure.\<close>

theorem connection_target:
  assumes net: "tcp_net (he_net X) events refuse"
    and host: "ul_host_str (he_urls X) url = Some host"
    and resolved: "resolve_ips (he_net X) (he_resolver X) host w = Some (Ok addrs, w1)"
    and run: "get_connection_for X request url w = Some (Ok (conn, stats), w')"
    and port: "port = target_port (he_urls X) request url"
  shows "\<exists>tried ip rest evs st w2. address_order (op_strategy (rq_options request)) addrs = tried @ ip # rest
    \<and> (\<forall>a\<in>set tried. refuse a port \<noteq> None) \<and> refuse ip port = None
    \<and> connect_stats (he_net X) (connection_options X request url host) w = Some (Ok (conn_sock conn, st), w2)
    \<and> cs_tcp_tries st = word_of_nat (length tried + 1)
    \<and> events w2 = events w1 @ evs @ EvConnect (conn_sock conn) ip port # request_socket_options request (conn_sock conn)
    \<and> map attempt_of evs = map (\<lambda>a. Some (a, port)) tried
    \<and> (if op_secure (rq_options request) then \<exists>c. conn = SecureConn c else (\<exists>s. conn = PlainConn s) \<and> w2 = w')"
proof -
  let ?o = "connection_options X request url host"
  let ?order = "address_order (op_strategy (rq_options request)) addrs"
  from get_connection_socket [OF run] host obtain st w2 where
    s: "connect_stats (he_net X) ?o w = Some (Ok (conn_sock conn, st), w2)"
      "op_secure (rq_options request) \<longleftrightarrow> (\<exists>c. conn = SecureConn c)" "\<not> op_secure (rq_options request) \<longrightarrow> w2 = w'"
    by (metis option.inject)
  have r: "resolve_ips (he_net X) (co_resolver ?o) (co_host ?o) w = Some (Ok addrs, w1)"
    using resolved by (simp add: connection_options_fields)
  have kind: "if op_secure (rq_options request) then \<exists>c. conn = SecureConn c else (\<exists>s. conn = PlainConn s) \<and> w2 = w'"
    using s(2,3) by (cases conn) auto
  show ?thesis
  proof (cases "\<forall>a\<in>set ?order. refuse a port \<noteq> None")
    case True
    then have "\<forall>a\<in>set (address_order (co_strategy ?o) addrs). refuse a (co_port ?o) \<noteq> None"
      by (simp add: connection_options_fields port)
    from tcp_net.connect_stats_fail [OF net r this] s(1) show ?thesis by auto
  next
    case False
    then obtain tried ip rest where split: "?order = tried @ ip # rest" "\<forall>a\<in>set tried. refuse a port \<noteq> None" "refuse ip port = None"
      using split_list_first_propE [of ?order "\<lambda>a. refuse a port = None"] by metis
    have order: "address_order (co_strategy ?o) addrs = tried @ ip # rest" "\<forall>a\<in>set tried. refuse a (co_port ?o) \<noteq> None"
      "refuse ip (co_port ?o) = None"
      using split by (simp_all add: connection_options_fields port)
    from tcp_net.connect_stats_hit [OF net r order] s(1) obtain evs where
      "events w2 = events w1 @ evs @ [EvConnect (conn_sock conn) ip (co_port ?o)] @ option_events ?o (conn_sock conn)"
      "map attempt_of evs = map (\<lambda>a. Some (a, co_port ?o)) tried" "cs_tcp_tries st = word_of_nat (length tried + 1)"
      by auto
    with split s(1) kind show ?thesis
      by (intro exI [of _ tried] exI [of _ ip] exI [of _ rest] exI [of _ evs] exI [of _ st] exI [of _ w2])
        (simp add: connection_options_fields port)
  qed
qed

text \<open>The first of two addresses refuses.\<close>

theorem connection_target_witness:
  "\<exists>conn stats w' w2 evs. get_connection_for
      ((toy_http (\<lambda>_. []))\<lparr>he_net := script_net (\<lambda>ip port. if ip = V4 1 then Some (Foreign 111) else None)\<rparr>)
      one_redirect (lit ''urlhost'') toy_world = Some (Ok (conn, stats), w')
    \<and> nw_events w2 = evs @ [EvConnect (conn_sock conn) (V4 2) 80, EvNodelay (conn_sock conn) True, EvKeepalive (conn_sock conn) True 60]
    \<and> map attempt_of evs = [Some (V4 1, 80)] \<and> w2 = w'"
proof -
  let ?refuse = "\<lambda>ip port. if ip = V4 1 then Some (Foreign 111) else None"
  let ?N = "script_net ?refuse :: http_world net_lib"
  let ?X = "(toy_http (\<lambda>_. []))\<lparr>he_net := ?N\<rparr>"
  let ?u = "lit ''urlhost''" and ?host = "lit ''host''"
  let ?o = "connection_options ?X one_redirect ?u ?host"
  have net: "tcp_net (he_net ?X) nw_events ?refuse" using script_net.tcp_net_axioms by simp
  have host: "ul_host_str (he_urls ?X) ?u = Some ?host" by (simp add: toy_http_def toy_urls_def)
  have res: "resolve_ips (he_net ?X) (he_resolver ?X) ?host toy_world = Some (Ok \<lparr>li_v4 = [1, 2], li_v6 = []\<rparr>, toy_world)"
    using two_addresses_resolve by (simp add: toy_http_def del: lit_simps)
  have opts: "rq_options one_redirect = Options_new\<lparr>op_follow_redirect := 1\<rparr>" by (simp add: one_redirect_def)
  have port: "target_port (he_urls ?X) one_redirect ?u = 80"
    by (simp add: target_port_def opts Options_new_def toy_http_def toy_urls_def)
  have r: "resolve_ips ?N (co_resolver ?o) (co_host ?o) toy_world = Some (Ok \<lparr>li_v4 = [1, 2], li_v6 = []\<rparr>, toy_world)"
    using res by (simp add: connection_options_fields)
  have order: "address_order (co_strategy ?o) \<lparr>li_v4 = [1, 2], li_v6 = []\<rparr> = [V4 1] @ V4 2 # []"
    by (simp add: connection_options_fields opts Options_new_def address_order_def)
  have "co_timeout ?o = None" by (simp add: connection_options_fields opts Options_new_def)
  with script_net.connect_stats_hit [OF r order] obtain s st w' where "connect_stats ?N ?o toy_world = Some (Ok (s, st), w')"
    by auto
  then have run: "get_connection_for ?X one_redirect ?u toy_world = Some (Ok (PlainConn s, Some (stats_from st)), w')"
    using host by (simp add: get_connection_for_def Let_def opts Options_new_def io_bind_def io_return_def del: lit_simps)
  from connection_target [OF net host res run refl] obtain tried ip rest evs w2 where
    t: "address_order (op_strategy (rq_options one_redirect)) \<lparr>li_v4 = [1, 2], li_v6 = []\<rparr> = tried @ ip # rest"
      "\<forall>a\<in>set tried. ?refuse a 80 \<noteq> None" "?refuse ip 80 = None"
      "nw_events w2 = nw_events toy_world @ evs @ EvConnect s ip 80 # request_socket_options one_redirect s"
      "map attempt_of evs = map (\<lambda>a. Some (a, 80)) tried" "w2 = w'"
    unfolding port by (auto simp: opts Options_new_def)
  have "tried = [V4 1]" "ip = V4 2"
    using t(1-3) by (auto simp: opts Options_new_def address_order_def Cons_eq_append_conv split: if_splits)
  with t(4-6) run show ?thesis
    by (intro exI [of _ "PlainConn s"] exI [of _ "Some (stats_from st)"] exI [of _ w'] exI [of _ w2] exI [of _ evs])
      (simp add: toy_world_def request_socket_options_def opts Options_new_def)
qed

end
