(* ===== verification/Http_Request_Head.thy ===== *)
theory Http_Request_Head
  imports Http_Client
begin

text \<open>
  What reaches the server for a request made with the builders of \<open>src/src/http/request.rs\<close> and
  \<open>src/src/http/transfer.rs\<close>: the conversions \<open>TryIntoHeaderName\<close> and \<open>TryIntoHeaderValue\<close> (\<open>http/mod.rs\<close>) let only
  bytes through that cannot end a line, so the head that \<open>send_request\<close> writes has the lines meant and no others.
\<close>

section \<open>Names and values of headers\<close>

text \<open>
  The documentation of the package: a \<open>HeaderName\<close> is not empty and holds visible ASCII without a colon, a
  \<open>HeaderValue\<close> holds bytes from 32 to 255 other than 127, and tabs. A \<open>HeaderName\<close> or \<open>HeaderValue\<close> given
  to a builder is such a value; a string can be anything.
\<close>

definition name_ok :: "bytes \<Rightarrow> bool" where
  "name_ok n \<longleftrightarrow> n \<noteq> [] \<and> (\<forall>b\<in>set n. 0x20 < b \<and> b < 0x7F \<and> b \<noteq> 0x3A)"

definition value_ok :: "bytes \<Rightarrow> bool" where
  "value_ok v \<longleftrightarrow> (\<forall>b\<in>set v. b = 9 \<or> 0x20 \<le> b \<and> b \<noteq> 0x7F)"

fun key_typed :: "header_key \<Rightarrow> bool" where
  "key_typed (KName n) \<longleftrightarrow> name_ok n"
| "key_typed _ \<longleftrightarrow> True"

fun val_typed :: "header_val \<Rightarrow> bool" where
  "val_typed (VValue v) \<longleftrightarrow> value_ok v"
| "val_typed _ \<longleftrightarrow> True"

definition map_typed :: "('m, 'y) header_lib_scheme \<Rightarrow> 'm \<Rightarrow> bool" where
  "map_typed H m \<longleftrightarrow> (\<forall>n v. hl_get H n m = Some v \<longrightarrow> name_ok n \<and> value_ok v)"

lemma lines_free:
  "name_ok n \<Longrightarrow> 0x0A \<notin> set n \<and> 0x0D \<notin> set n" "value_ok v \<Longrightarrow> 0x0A \<notin> set v \<and> 0x0D \<notin> set v"
  by (auto simp: name_ok_def value_ok_def)

lemma token_byte_lower:
  assumes "token_byte b"
  shows "0x20 < ascii_lower b \<and> ascii_lower b < 0x7F \<and> ascii_lower b \<noteq> 0x3A"
proof (cases "in_range 0x41 0x5A b")
  case True
  then have "unat (b + 0x20) = unat b + 32"
    by (simp add: in_range_def word_le_nat_alt unat_word_ariths)
  with True show ?thesis
    by (auto simp: ascii_lower_def in_range_def word_le_nat_alt word_less_nat_alt dest: arg_cong [where f = unat])
next
  case False
  with assms show ?thesis
    by (auto simp: ascii_lower_def token_byte_def in_range_def word_le_nat_alt word_less_nat_alt)
qed

text \<open>A builder call whose header, if it sets one, is given as a string or as a valid name and value.\<close>

inductive typed_step :: "('m, 'y) header_lib_scheme \<Rightarrow> ('u, 'm) Request \<Rightarrow> ('u, 'm) Request \<Rightarrow> bool" for H where
  set_header: "key_typed key \<Longrightarrow> val_typed v \<Longrightarrow> typed_step H r (request_header H key v r)"
| set_other: "builder_step H r s \<Longrightarrow> rq_headers s = rq_headers r \<Longrightarrow> typed_step H r s"

lemma typed_step_method: "typed_step H r s \<Longrightarrow> rq_method s = rq_method r"
  by (cases rule: typed_step.cases, assumption)
    (auto simp: request_header_def request_set_port_def request_set_strategy_def
      request_set_timeout_def request_set_recvbuf_size_def request_set_sendbuf_size_def
      request_payload_def elim!: builder_step.cases split: result.split)

lemma typed_steps_method: "(typed_step H)\<^sup>*\<^sup>* r s \<Longrightarrow> rq_method s = rq_method r"
  by (induction rule: rtranclp_induct) (simp_all add: typed_step_method)

locale strict_headers = header_map +
  assumes name_valid: "hl_name H s = Some n \<Longrightarrow> name_ok n"
    and value_valid: "hl_value H s = Some v \<Longrightarrow> value_ok v"
begin

lemma try_into_name_ok: "key_typed key \<Longrightarrow> try_into_name H key = Ok n \<Longrightarrow> name_ok n"
  by (cases key) (auto simp: ok_or_def name_valid split: option.splits)

lemma try_into_value_ok: "val_typed val \<Longrightarrow> try_into_value H val = Ok v \<Longrightarrow> value_ok v"
  by (cases val) (auto simp: ok_or_def value_valid split: option.splits)

lemma insert_typed:
  assumes "headers_insert H key val m = Ok m'" and "key_typed key" and "val_typed val" and "plain m" and "map_typed H m"
  shows "plain m' \<and> map_typed H m'"
proof -
  obtain n v where "try_into_name H key = Ok n" "try_into_value H val = Ok v" and m': "m' = hl_insert H n v m"
    using assms(1) by (auto simp: headers_insert_def res_bind_Ok_iff map_ok_Ok_iff)
  then show ?thesis
    using assms(2-5) try_into_name_ok try_into_value_ok by (auto simp: map_typed_def split: if_splits)
qed

lemma step_typed:
  "typed_step H r s \<Longrightarrow> plain (rq_headers r) \<and> map_typed H (rq_headers r) \<Longrightarrow>
    plain (rq_headers s) \<and> map_typed H (rq_headers s)"
  by (induction rule: typed_step.induct) (auto simp: request_header_def insert_typed split: result.splits)

lemma steps_typed:
  "(typed_step H)\<^sup>*\<^sup>* r s \<Longrightarrow> plain (rq_headers r) \<and> map_typed H (rq_headers r) \<Longrightarrow>
    plain (rq_headers s) \<and> map_typed H (rq_headers s)"
  by (induction rule: rtranclp_induct) (simp, metis step_typed)

lemma new_typed: "plain (hl_new H) \<and> map_typed H (hl_new H)"
  by (simp add: map_typed_def)

lemma entries_typed: "plain m \<Longrightarrow> map_typed H m \<Longrightarrow> \<forall>(n, v)\<in>set (hl_entries H m). name_ok n \<and> value_ok v"
  using entries by (auto simp: map_typed_def)

end

interpretation alist_strict: strict_headers alist_lib "\<lambda>m. distinct (map fst m)"
proof
  fix s n v
  show "hl_name alist_lib s = Some n \<Longrightarrow> name_ok n"
    by (auto simp: alist_lib_def name_ok_def token_def lower_def token_byte_lower split: if_splits)
  show "hl_value alist_lib s = Some v \<Longrightarrow> value_ok v"
    by (auto simp: alist_lib_def value_ok_def field_byte_def in_range_def word_le_nat_alt dest: bspec split: if_splits)
qed

section \<open>The lines of a head\<close>

lemma split_lines:
  "\<forall>l\<in>set ls. 0x0A \<notin> set l \<Longrightarrow> split_on 0x0A (concat (map (\<lambda>l. l @ crlf) ls)) = map (\<lambda>l. l @ [0x0D]) ls @ [[]]"
proof (induction ls)
  case (Cons l ls)
  then show ?case
    using split_on_append [where c = "0x0A" and xs = "l @ [0x0D]"] by (simp add: crlf_def)
qed simp

definition head_lines ::
  "('w, 't, 'v, 'b, 'u, 'm, 'x) http_env_scheme \<Rightarrow> ('u, 'm) Request \<Rightarrow> 'u \<Rightarrow> bytes list" where
  "head_lines X request url =
     (rq_method request @ [0x20] @ ul_path_and_query (he_urls X) url @ lit '' HTTP/1.1'')
     # map (\<lambda>(n, v). n @ [0x3A, 0x20] @ v) (hl_entries (he_headers X) (rq_headers request)) @ [[]]"

lemma request_head_lines: "request_head X request Http11 url = concat (map (\<lambda>l. l @ crlf) (head_lines X request url))"
proof -
  have "header_wire kvs = concat (map (\<lambda>l. l @ crlf) (map (\<lambda>(n, v). n @ [0x3A, 0x20] @ v) kvs))" for kvs
    by (induction kvs) (auto simp: header_wire_def header_line_def)
  then show ?thesis
    by (simp add: request_head_def head_lines_def request_line_def crlf_def)
qed

lemma head_lines_free:
  assumes "\<forall>(n, v)\<in>set (hl_entries (he_headers X) (rq_headers request)). name_ok n \<and> value_ok v"
    and "rq_method request \<in> {lit ''GET'', lit ''POST''}" and "\<forall>b\<in>set (ul_path_and_query (he_urls X) url). 0x20 < b"
  shows "\<forall>l\<in>set (head_lines X request url). 0x0A \<notin> set l \<and> 0x0D \<notin> set l"
  using assms lines_free by (fastforce simp: head_lines_def)

text \<open>What the builders make of a request: its verb stays that of \<open>get\<close> or \<open>post\<close>, its map holds valid headers.\<close>

lemma ensure_host_method: "ensure_host X u r = Ok request \<Longrightarrow> rq_method request = rq_method r"
  by (auto simp: ensure_host_def map_ok_Ok_iff split: if_splits option.splits)

lemma prepared_request:
  assumes headers: "strict_headers (he_headers X) plain"
    and start: "start = http_get U (he_headers X) url \<or> start = http_post U (he_headers X) url p"
    and steps: "(typed_step (he_headers X))\<^sup>*\<^sup>* start r"
    and host: "ensure_host X u r = Ok request"
  shows "rq_method request \<in> {lit ''GET'', lit ''POST''}" and "plain (rq_headers request)"
    and "map_typed (he_headers X) (rq_headers request)" and "hl_get (he_headers X) (lit ''host'') (rq_headers request) \<noteq> None"
proof -
  let ?H = "he_headers X"
  have map: "header_map ?H plain" using headers by (simp add: strict_headers_def)
  have start': "rq_headers start = hl_new ?H" "rq_method start \<in> {lit ''GET'', lit ''POST''}"
    using start by (auto simp: http_get_def http_post_def new_request_def request_payload_def Request_new_def Let_def
        simp del: lit_simps)
  have r: "plain (rq_headers r)" "map_typed ?H (rq_headers r)"
    using strict_headers.steps_typed [OF headers steps] strict_headers.new_typed [OF headers] start'(1) by auto
  have "name_ok (lit ''host'')" by (simp add: name_ok_def)
  then have inserted: "plain m \<and> map_typed ?H m \<and> hl_get ?H (lit ''host'') m \<noteq> None"
    if "headers_insert ?H (KName (lit ''host'')) (VStr h) (rq_headers r) = Ok m" for h m
    using strict_headers.insert_typed [OF headers that] r that header_map.get_insert [OF map]
    by (auto simp: headers_insert_def map_ok_Ok_iff simp del: lit_simps)
  have verb: "rq_method request = rq_method r"
    by (rule ensure_host_method [OF host])
  show "rq_method request \<in> {lit ''GET'', lit ''POST''}"
    using start'(2) typed_steps_method [OF steps] verb by simp
  have "plain (rq_headers request) \<and> map_typed ?H (rq_headers request) \<and> hl_get ?H (lit ''host'') (rq_headers request) \<noteq> None"
    using host r inserted header_map.contains [OF map]
    by (auto simp: ensure_host_def headers_contains_key_def map_ok_Ok_iff simp del: lit_simps split: if_splits option.splits)
  then show "plain (rq_headers request)" "map_typed ?H (rq_headers request)"
    "hl_get ?H (lit ''host'') (rq_headers request) \<noteq> None" by auto
qed

section \<open>Properties\<close>

text \<open>C11: Whatever strings a caller gives to the builders of a request, the head sent for it, to its own URL or after
  redirects, has exactly the lines meant: the request line, one line for each header of the map and an empty
  line, none with a line break inside. Every header is a valid name and value, no name is sent twice, and one of them
  is \<open>host\<close>.\<close>

theorem request_head_well_formed:
  assumes writer: "http_writer X sent" and headers: "strict_headers (he_headers X) plain"
    and start: "start = http_get (he_urls X) (he_headers X) url \<or> start = http_post (he_urls X) (he_headers X) url p"
    and steps: "(typed_step (he_headers X))\<^sup>*\<^sup>* start r" and host: "ensure_host X u r = Ok request"
    and path: "\<forall>b\<in>set (ul_path_and_query (he_urls X) v). 0x20 < b"
    and kvs: "kvs = hl_entries (he_headers X) (rq_headers request)"
  shows "\<exists>head s'. send_request X request Http11 v body s = Some (Ok (payload_after body), s')
    \<and> sent s' = sent s @ head @ payload_bytes body
    \<and> split_on 0x0A head = map (\<lambda>l. l @ [0x0D])
        ((rq_method start @ [0x20] @ ul_path_and_query (he_urls X) v @ lit '' HTTP/1.1'')
          # map (\<lambda>(n, v). n @ [0x3A, 0x20] @ v) kvs @ [[]]) @ [[]]
    \<and> (\<forall>(n, v)\<in>set kvs. name_ok n \<and> value_ok v) \<and> distinct (map fst kvs) \<and> lit ''host'' \<in> set (map fst kvs)"
proof -
  note prepared = prepared_request [OF headers start steps host]
  have map: "header_map (he_headers X) plain" using headers by (simp add: strict_headers_def)
  note entries = header_map.entries [OF map prepared(2)]
  have typed: "\<forall>(n, v)\<in>set kvs. name_ok n \<and> value_ok v"
    using strict_headers.entries_typed [OF headers prepared(2,3)] by (simp add: kvs)
  have "\<forall>l\<in>set (head_lines X request v). 0x0A \<notin> set l"
    using head_lines_free [of X request v] typed prepared(1) path by (auto simp: kvs simp del: lit_simps)
  then have lines: "split_on 0x0A (request_head X request Http11 v) = map (\<lambda>l. l @ [0x0D]) (head_lines X request v) @ [[]]"
    by (simp add: request_head_lines split_lines)
  have "rq_method request = rq_method start"
    using typed_steps_method [OF steps] ensure_host_method [OF host] by simp
  moreover have "lit ''host'' \<in> set (map fst kvs)"
    using entries prepared(4) by (auto simp: kvs image_iff simp del: lit_simps) (metis fst_conv)
  ultimately show ?thesis
    using http_writer.send_request_sent [OF writer, of request Http11 v body s] lines typed entries
    by (auto simp: head_lines_def kvs simp del: lit_simps)
qed

theorem request_head_well_formed_witness:
  "\<exists>head s'. send_request toy_site (toy_request\<lparr>rq_headers := [(lit ''a'', lit ''b''), (lit ''host'', lit ''p:x'')]\<rparr>)
      Http11 (lit ''http:x'') None (PlainConn 0, toy_world) = Some (Ok None, s')
    \<and> toy_sent s' = hw_sent toy_world 0 @ head
    \<and> split_on 0x0A head = map (\<lambda>l. l @ [0x0D]) [lit ''GET / HTTP/1.1'', lit ''a: b'', lit ''host: p:x'', []] @ [[]]"
proof -
  let ?start = "http_get (he_urls toy_site) (he_headers toy_site) (lit ''http:x'')"
  let ?r = "request_header (he_headers toy_site) (KStr (lit ''A'')) (VStr (lit ''b'')) ?start"
  let ?request = "toy_request\<lparr>rq_headers := [(lit ''a'', lit ''b''), (lit ''host'', lit ''p:x'')]\<rparr>"
  have same: "he_headers toy_site = alist_lib" "he_urls toy_site = toy_urls" by (simp_all add: toy_http_def)
  have steps: "(typed_step (he_headers toy_site))\<^sup>*\<^sup>* ?start ?r"
    by (intro r_into_rtranclp typed_step.set_header) simp_all
  have r: "?r = toy_request\<lparr>rq_headers := [(lit ''a'', lit ''b'')]\<rparr>"
    by (simp add: same toy_get del: lit_simps)
      (simp add: toy_request_def request_header_def headers_insert_def alist_lib_def token_def token_byte_def lower_def
        ascii_lower_def field_byte_def in_range_def word_le_nat_alt)
  have "ensure_host toy_site (lit ''http:x'') (toy_request\<lparr>rq_headers := [(lit ''a'', lit ''b'')]\<rparr>) = Ok ?request"
    by (simp add: toy_request_def ensure_host_def headers_contains_key_def headers_insert_def same alist_lib_def toy_urls_def
        field_byte_def in_range_def word_le_nat_alt)
  then have host: "ensure_host toy_site (lit ''http:x'') ?r = Ok ?request" by (simp only: r)
  have strict: "strict_headers (he_headers toy_site) (\<lambda>m. distinct (map fst m))"
    using alist_strict.strict_headers_axioms by (simp add: same)
  have verb: "rq_method ?start = lit ''GET''" by (simp add: same toy_get toy_request_def del: lit_simps)
  from request_head_well_formed [OF toy_http.http_writer_axioms strict disjI1 [OF refl] steps host _ refl,
      of "lit ''http:x''" None "(PlainConn 0, toy_world)"]
  show ?thesis
    unfolding verb by (simp add: same toy_urls_def alist_lib_def payload_after_def payload_bytes_def toy_sent_def) blast
qed

end
