(* ===== verification/Tls_Reading.thy ===== *)
theory Tls_Reading
  imports Tls_Laws Read_Stream
begin

text \<open>
  Reading over TLS (\<open>src/src/tls/conn.rs\<close>): what \<open>TlsConn::recv\<close> and the read half of a split connection
  return, as a function of the ciphertext the peer sends. \<open>ready t\<close> is the plaintext \<open>rustls\<close> has
  decrypted, \<open>plain t xs\<close> all the plaintext still to be read if the ciphertext \<open>xs\<close> follows, \<open>good t xs\<close> says that
  \<open>xs\<close> is what a peer without errors sends from here on. \<open>settled t\<close>: what was taken from the
  transport is processed; once the plaintext is read, \<open>read_tls\<close> asks the transport for more, or, after the
  peer has closed the session, returns 0 without asking; \<open>took data t\<close> is \<open>t\<close> with \<open>data\<close> taken.
\<close>

locale tls_opener =
  fixes T :: "('s, 't, 'y) tls_io_scheme" and ready :: "'t \<Rightarrow> bytes" and plain :: "'t \<Rightarrow> bytes \<Rightarrow> bytes"
    and good :: "'t \<Rightarrow> bytes \<Rightarrow> bool" and settled :: "'t \<Rightarrow> bool" and took :: "bytes \<Rightarrow> 't \<Rightarrow> 't"
  assumes read_tls: "good t xs \<Longrightarrow> ready t = [] \<Longrightarrow>
        (\<exists>n>0. \<forall>rd s. tl_read_tls T rd (s, t) = map_option (\<lambda>(out, s'). (map_ok length out, s',
          (case out of Ok data \<Rightarrow> took data t | _ \<Rightarrow> t))) (rd n s))
        \<or> plain t xs = [] \<and> (\<forall>rd s. tl_read_tls T rd (s, t) = Some (Ok 0, (s, t)))"
    and took: "good t (data @ xs) \<Longrightarrow> settled t \<Longrightarrow> data \<noteq> [] \<Longrightarrow>
        good (took data t) xs \<and> plain (took data t) xs = plain t (data @ xs)"
    and process: "good t xs \<Longrightarrow> \<exists>t'. tl_process T t = Some (Ok (length (ready t')), t') \<and> good t' xs \<and> settled t'
        \<and> plain t' xs = plain t xs"
    and read_some: "good t xs \<Longrightarrow> ready t \<noteq> [] \<Longrightarrow> 0 < n \<Longrightarrow> \<exists>data t'. tl_read T n t = Some (Ok data, t') \<and> data \<noteq> []
        \<and> length data \<le> n \<and> good t' xs \<and> (settled t \<longrightarrow> settled t') \<and> plain t xs = data @ plain t' xs"
    and read_none: "good t xs \<Longrightarrow> ready t = [] \<Longrightarrow> tl_read T n t \<in> {Some (Ok [], t), Some (Err (Kind KWouldBlock), t)}"
    and plain_end: "good t [] \<Longrightarrow> settled t \<Longrightarrow> plain t [] = ready t"
begin

text \<open>What is decrypted comes first.\<close>

lemma tls_first_some:
  assumes "good t xs" and "ready t \<noteq> []" and "0 < n"
  obtains data t' where "tls_first (tl_read T n) (w, t) = Some (Ok (Some data), (w, t'))" "data \<noteq> []" "length data \<le> n"
    "good t' xs" "settled t \<longrightarrow> settled t'" "plain t xs = data @ plain t' xs"
proof -
  from read_some [OF assms] obtain data t' where
    "tl_read T n t = Some (Ok data, t')" "data \<noteq> []" "length data \<le> n" "good t' xs" "settled t \<longrightarrow> settled t'"
    "plain t xs = data @ plain t' xs" by blast
  then show ?thesis using that [of data t'] by (simp add: tls_first_def on_tls_def io_zoom_def)
qed

lemma tls_first_none:
  "good t xs \<Longrightarrow> ready t = [] \<Longrightarrow> tls_first (tl_read T n) (w, t) = Some (Ok None, (w, t))"
  using read_none [of t xs n] by (auto simp: tls_first_def on_tls_def io_zoom_def)

text \<open>Taking ciphertext and processing it.\<close>

lemma took_processed:
  assumes "good t (data @ xs)" and "settled t" and "data \<noteq> []"
  obtains t' where "tl_process T (took data t) = Some (Ok (length (ready t')), t')" "good t' xs" "settled t'"
    "plain t' xs = plain t (data @ xs)"
proof -
  from took [OF assms] have g: "good (took data t) xs" "plain (took data t) xs = plain t (data @ xs)" by auto
  from process [OF g(1)] g(2) that show ?thesis by auto
qed

end

section \<open>TlsConn\<close>

locale tls_receiver = tls_opener T ready plain good settled took
  for T :: "('w, 't, 'y) tls_io_scheme" and ready :: "'t \<Rightarrow> bytes" and plain :: "'t \<Rightarrow> bytes \<Rightarrow> bytes"
    and good :: "'t \<Rightarrow> bytes \<Rightarrow> bool" and settled :: "'t \<Rightarrow> bool" and took :: "bytes \<Rightarrow> 't \<Rightarrow> 't" +
  fixes N :: "('w, 'x) net_lib_scheme" and socket :: sock and coming :: "'w \<Rightarrow> bytes"
  assumes recv: "0 < n \<Longrightarrow> \<exists>data w'. nl_recv N socket n False w = Some (Ok data, w') \<and> coming w = data @ coming w'
        \<and> (data = [] \<longleftrightarrow> coming w = [])"
    and interrupt: "\<exists>w'. nl_check_interrupt N w = Some (Ok (), w') \<and> coming w' = coming w"
begin

text \<open>A read gives the next piece of the plaintext, or nothing when there is none left.\<close>

abbreviation delivers :: "nat \<Rightarrow> 'w \<times> 't \<Rightarrow> (bytes res \<times> 'w \<times> 't) option \<Rightarrow> bool" where
  "delivers n s out \<equiv> (\<exists>data w' t'. out = Some (Ok data, w', t') \<and> length data \<le> n
     \<and> (if plain (snd s) (coming (fst s)) = [] then data = []
        else data \<noteq> [] \<and> plain (snd s) (coming (fst s)) = data @ plain t' (coming w') \<and> good t' (coming w') \<and> settled t'))"

lemma read_loop_delivers:
  assumes "good t (coming w)" and "settled t" and "ready t = []" and "0 < n"
  shows "delivers n (w, t) (tls_read_loop N T socket (tl_read T n) (w, t))"
  using assms
proof (induction "length (coming w)" arbitrary: w t rule: less_induct)
  case less
  show ?case
  proof (cases "plain t (coming w) = [] \<and> (\<forall>rd s. tl_read_tls T rd (s, t) = Some (Ok 0, (s, t)))")
    case True
    then show ?thesis by (subst tls_read_loop.simps) (auto simp: io_simps)
  next
  case asks: False
  obtain m where m: "0 < m" "\<And>rd s. tl_read_tls T rd (s, t) = map_option (\<lambda>(out, s'). (map_ok length out, s',
        (case out of Ok data \<Rightarrow> took data t | _ \<Rightarrow> t))) (rd m s)"
    using read_tls [OF less.prems(1,3)] asks by auto
  obtain data w1 where r: "nl_recv N socket m False w = Some (Ok data, w1)" "coming w = data @ coming w1"
    "data = [] \<longleftrightarrow> coming w = []" using recv [OF m(1)] by blast
  have rt: "tl_read_tls T (\<lambda>n. nl_recv N socket n False) (w, t) = Some (Ok (length data), w1, took data t)"
    by (simp add: m(2) r(1))
  show ?thesis
  proof (cases "data = []")
    case True
    with r have "coming w = []" by simp
    with less.prems plain_end [of t] have "plain t (coming w) = []" by simp
    with rt True show ?thesis by (subst tls_read_loop.simps) (auto simp: io_simps)
  next
    case False
    from took_processed [OF _ less.prems(2) False, of "coming w1"] less.prems(1) r(2) obtain t1 where
      t1: "tl_process T (took data t) = Some (Ok (length (ready t1)), t1)" "good t1 (coming w1)" "settled t1"
        "plain t1 (coming w1) = plain t (coming w)" by auto
    show ?thesis
    proof (cases "ready t1 = []")
      case True
      obtain w2 where i: "nl_check_interrupt N w1 = Some (Ok (), w2)" "coming w2 = coming w1" using interrupt by blast
      have eq: "tls_read_loop N T socket (tl_read T n) (w, t) = tls_read_loop N T socket (tl_read T n) (w2, t1)"
        using rt False t1(1) True i(1) by (subst tls_read_loop.simps) (simp add: on_tls_def on_conn_def io_simps)
      have p: "plain t1 (coming w2) = plain t (coming w)" using t1(4) i(2) by simp
      have "delivers n (w2, t1) (tls_read_loop N T socket (tl_read T n) (w2, t1))"
        by (rule less.hyps) (use r(2) i(2) False t1(2,3) True less.prems(4) in simp_all)
      then show ?thesis by (simp only: eq fst_conv snd_conv p)
    next
      case some: False
      from read_some [OF t1(2) some less.prems(4)] obtain out t2 where
        t2: "tl_read T n t1 = Some (Ok out, t2)" "out \<noteq> []" "length out \<le> n" "good t2 (coming w1)" "settled t1 \<longrightarrow> settled t2"
          "plain t1 (coming w1) = out @ plain t2 (coming w1)" by blast
      have "tls_read_loop N T socket (tl_read T n) (w, t) = Some (Ok out, w1, t2)"
        using rt False t1(1) some t2(1) by (subst tls_read_loop.simps) (simp add: on_tls_def io_simps)
      with t1(3,4) t2 show ?thesis by auto
    qed
  qed
  qed
qed

lemma recv_delivers:
  assumes "good t (coming w)" and "settled t" and "0 < n"
  shows "delivers n (w, t) (tls_recv N T socket n (w, t))"
proof (cases "ready t = []")
  case True
  from read_loop_delivers [OF assms(1,2) True assms(3)] tls_first_none [OF assms(1) True, of n w] show ?thesis
    by (simp add: tls_recv_def tls_read_def)
next
  case False
  from tls_first_some [OF assms(1) False assms(3), of w] obtain data t' where
    "tls_first (tl_read T n) (w, t) = Some (Ok (Some data), (w, t'))" "data \<noteq> []" "length data \<le> n"
    "good t' (coming w)" "settled t \<longrightarrow> settled t'" "plain t (coming w) = data @ plain t' (coming w)" .
  with assms(2) show ?thesis by (auto simp: tls_recv_def tls_read_def io_simps)
qed

text \<open>Enough reads return everything.\<close>

lemma recv_all:
  assumes "good t (coming w)" and "settled t" and "\<forall>n\<in>set ns. 0 < n" and "plain t (coming w) \<noteq> []"
    and "length (plain t (coming w)) \<le> length ns"
  shows "\<exists>ms ks s. ns = ms @ ks \<and> reads (tls_recv N T socket) ms (w, t) = Some (Ok (plain t (coming w)), s)"
  using assms
proof (induction ns arbitrary: w t)
  case Nil
  then show ?case by simp
next
  case (Cons n ns)
  from Cons.prems(3) have n: "0 < n" by simp
  from recv_delivers [OF Cons.prems(1,2) n] Cons.prems(4) obtain data w1 t1 where
    r: "tls_recv N T socket n (w, t) = Some (Ok data, w1, t1)" "length data \<le> n" "data \<noteq> []"
      "plain t (coming w) = data @ plain t1 (coming w1)" "good t1 (coming w1)" "settled t1" by auto
  show ?case
  proof (cases "plain t1 (coming w1) = []")
    case True
    with r have "reads (tls_recv N T socket) [n] (w, t) = Some (Ok (plain t (coming w)), w1, t1)" by (simp add: io_simps)
    then show ?thesis by (intro exI [of _ "[n]"] exI [of _ ns]) auto
  next
    case False
    have "length (plain t1 (coming w1)) \<le> length ns"
      using Cons.prems(5) r(3,4) by (cases data) auto
    from Cons.IH [OF r(5,6) _ False this] Cons.prems(3) obtain ms ks s where
      "ns = ms @ ks" "reads (tls_recv N T socket) ms (w1, t1) = Some (Ok (plain t1 (coming w1)), s)" by auto
    with r show ?thesis
      by (intro exI [of _ "n # ms"] exI [of _ ks] exI [of _ s]) (simp add: io_simps)
  qed
qed

end

section \<open>The read half\<close>

locale tls_half = tls_opener T ready plain good settled took + byte_source B incoming
  for T :: "('r, 't, 'y) tls_io_scheme" and ready :: "'t \<Rightarrow> bytes" and plain :: "'t \<Rightarrow> bytes \<Rightarrow> bytes"
    and good :: "'t \<Rightarrow> bytes \<Rightarrow> bool" and settled :: "'t \<Rightarrow> bool" and took :: "bytes \<Rightarrow> 't \<Rightarrow> 't"
    and B :: "('r, 'x) buf_read_scheme" and incoming :: "'r \<Rightarrow> bytes"
begin

text \<open>Taking what the buffer has: some of it at least.\<close>

lemma half_buffered_some:
  assumes "good t (pend r)" and "settled t" and "br_buffer B r \<noteq> []" and "ready t = []" and "plain t (pend r) \<noteq> []"
  obtains r1 t1 where "half_buffered B T (r, t) = Some (Ok (ready t1 \<noteq> []), (r1, t1))" "good t1 (pend r1)" "settled t1"
    "plain t1 (pend r1) = plain t (pend r)" "incoming r1 = incoming r" "br_capacity B r1 = br_capacity B r"
    "length (br_buffer B r1) < length (br_buffer B r)"
proof -
  obtain n where n: "0 < n" "\<And>rd s. tl_read_tls T rd (s, t) = map_option (\<lambda>(out, s'). (map_ok length out, s',
        (case out of Ok data \<Rightarrow> took data t | _ \<Rightarrow> t))) (rd n s)"
    using read_tls [OF assms(1,4)] assms(5) by auto
  let ?data = "take n (br_buffer B r)"
  let ?r = "br_consume B (length ?data) r"
  have c: "br_buffer B ?r = drop (length ?data) (br_buffer B r)" "incoming ?r = incoming r" "br_capacity B ?r = br_capacity B r"
    using consume [of "length ?data" r] by auto
  have data: "?data \<noteq> []" "pend r = ?data @ pend ?r"
    using n(1) assms(3) c by (simp_all add: pending_def min_def)
  from took_processed [OF _ assms(2) data(1), of "pend ?r"] assms(1) data(2) obtain t1 where
    t1: "tl_process T (took ?data t) = Some (Ok (length (ready t1)), t1)" "good t1 (pend ?r)" "settled t1"
      "plain t1 (pend ?r) = plain t (pend r)" by metis
  have "tl_read_tls T (half_adapter_read B) (r, t) = Some (Ok (length ?data), (?r, took ?data t))"
    using assms(3) by (simp add: n(2) half_adapter_read_def Let_def)
  then have "half_buffered B T (r, t) = Some (Ok (ready t1 \<noteq> []), (?r, t1))"
    using assms(3) t1(1) by (simp add: half_buffered_def on_tls_def io_simps)
  with that t1(2-4) c data n(1) assms(3) show ?thesis by simp
qed

end

text \<open>
  While the read half waits in \<open>fill\<close>, the write half may use the connection: \<open>touched t t'\<close> is what it may
  change, which is nothing of the side that reads. \<open>fill\<close> is known to return only while the peer has
  something on the way: after that it waits.
\<close>

locale tls_split = tls_half T ready plain good settled took B incoming
  for T :: "('r, 't, 'y) tls_io_scheme" and ready :: "'t \<Rightarrow> bytes" and plain :: "'t \<Rightarrow> bytes \<Rightarrow> bytes"
    and good :: "'t \<Rightarrow> bytes \<Rightarrow> bool" and settled :: "'t \<Rightarrow> bool" and took :: "bytes \<Rightarrow> 't \<Rightarrow> 't"
    and B :: "('r, 'x) buf_read_scheme" and incoming :: "'r \<Rightarrow> bytes" +
  fixes fill :: "('r \<times> 't, nat) act" and touched :: "'t \<Rightarrow> 't \<Rightarrow> bool"
  assumes half_fill: "incoming r \<noteq> [] \<Longrightarrow> \<exists>k r' t'. fill (r, t) = Some (Ok k, r', t') \<and> br_fill B r = Some (Ok k, r') \<and> touched t t'"
    and touched: "touched t t' \<Longrightarrow> good t xs \<Longrightarrow> good t' xs \<and> plain t' xs = plain t xs \<and> ready t' = ready t \<and> (settled t \<longrightarrow> settled t')"
begin

text \<open>Filling the buffer, whatever the other half does.\<close>

lemma half_fill_some:
  assumes "good t (pend r)" and "settled t" and "plain t (pend r) \<noteq> []" and "ready t = []" and "0 < br_capacity B r"
    and "incoming r \<noteq> []"
  obtains k r1 t1 where "fill (r, t) = Some (Ok k, (r1, t1))" "good t1 (pend r1)" "settled t1"
    "plain t1 (pend r1) = plain t (pend r)" "ready t1 = []" "br_capacity B r1 = br_capacity B r"
    "length (incoming r1) + k = length (incoming r)" "length (br_buffer B r1) = length (br_buffer B r) + k"
    "br_buffer B r = [] \<longrightarrow> 0 < k"
proof -
  obtain k r1 t1 where f: "fill (r, t) = Some (Ok k, (r1, t1))" "br_fill B r = Some (Ok k, r1)" "touched t t1"
    using half_fill [OF assms(6)] by blast
  obtain n r' where p: "br_fill B r = Some (Ok n, r')" "pend r' = pend r" "length (incoming r') + n = length (incoming r)"
    "length (br_buffer B r') = length (br_buffer B r) + n" "n = 0 \<longleftrightarrow> incoming r = [] \<or> length (br_buffer B r) = br_capacity B r"
    "br_capacity B r' = br_capacity B r" by (rule fill_pending [of r])
  have "pend r \<noteq> []" using assms(1-4) plain_end by auto
  then have "br_buffer B r = [] \<longrightarrow> 0 < n" using p(5) assms(5) by (auto simp: pending_def)
  with f p touched [OF f(3), of "pend r"] assms show ?thesis
    by (intro that [of k r1 t1]) auto
qed

text \<open>A read gives the next piece of the plaintext, or comes to wait for a peer that has sent all it has.\<close>

abbreviation gives :: "nat \<Rightarrow> 'r \<times> 't \<Rightarrow> (bytes res \<times> 'r \<times> 't) option \<Rightarrow> bool" where
  "gives n s out \<equiv> (\<exists>data r' t'. out = Some (Ok data, (r', t')) \<and> data \<noteq> [] \<and> length data \<le> n
    \<and> plain (snd s) (pend (fst s)) = data @ plain t' (pend r') \<and> good t' (pend r') \<and> settled t')"

abbreviation waits :: "nat \<Rightarrow> 'r \<times> 't \<Rightarrow> (bytes res \<times> 'r \<times> 't) option \<Rightarrow> bool" where
  "waits n s out \<equiv> (\<exists>r' t'. incoming r' = [] \<and> br_buffer B r' \<noteq> [] \<and> ready t' = []
    \<and> plain t' (br_buffer B r') = plain (snd s) (pend (fst s)) \<and> good t' (br_buffer B r') \<and> settled t'
    \<and> out = io_bind fill (\<lambda>_. read_half_read B T fill (tl_read T n)) (r', t'))"

lemma read_half_delivers:
  assumes "good t (pend r)" and "settled t" and "plain t (pend r) \<noteq> []" and "0 < n" and "0 < br_capacity B r"
  shows "gives n (r, t) (read_half_read B T fill (tl_read T n) (r, t)) \<or> waits n (r, t) (read_half_read B T fill (tl_read T n) (r, t))"
  using assms
proof (induction "2 * length (incoming r) + length (br_buffer B r)" arbitrary: r t rule: less_induct)
  case less
  let ?read = "read_half_read B T fill (tl_read T n)"
  have again: ?case
    if "?read (r, t) = ?read (r1, t1)" "2 * length (incoming r1) + length (br_buffer B r1) < 2 * length (incoming r) + length (br_buffer B r)"
      "good t1 (pend r1)" "settled t1" "plain t1 (pend r1) = plain t (pend r)" "br_capacity B r1 = br_capacity B r" for r1 t1
    using less.hyps [OF that(2,3,4)] that less.prems(3,4,5) by simp
  show ?case
  proof (cases "ready t = []")
    case False
    from tls_first_some [OF less.prems(1) False less.prems(4), of r] obtain data t' where
      "tls_first (tl_read T n) (r, t) = Some (Ok (Some data), (r, t'))" "data \<noteq> []" "length data \<le> n" "good t' (pend r)"
      "settled t \<longrightarrow> settled t'" "plain t (pend r) = data @ plain t' (pend r)" .
    with less.prems(2) have "gives n (r, t) (?read (r, t))" by (subst read_half_read.simps) (auto simp: io_simps)
    then show ?thesis ..
  next
    case none: True
    note first = tls_first_none [OF less.prems(1) none, of n r]
    show ?thesis
    proof (cases "br_buffer B r = []")
      case True
      have "incoming r \<noteq> []" using True less.prems(1-3) none plain_end [of t] by (auto simp: pending_def)
      from half_fill_some [OF less.prems(1-3) none less.prems(5) this] obtain k r1 t1 where
        f: "fill (r, t) = Some (Ok k, (r1, t1))" "good t1 (pend r1)" "settled t1"
          "plain t1 (pend r1) = plain t (pend r)" "ready t1 = []" "br_capacity B r1 = br_capacity B r"
          "length (incoming r1) + k = length (incoming r)" "length (br_buffer B r1) = length (br_buffer B r) + k" "0 < k"
        using True by metis
      have "half_buffered B T (r, t) = Some (Ok False, (r, t))" using True by (simp add: half_buffered_def io_simps)
      then have "?read (r, t) = ?read (r1, t1)"
        using first f(1) by (subst read_half_read.simps) (simp add: io_bind_def)
      from again [OF this _ f(2-4,6)] f(7-9) show ?thesis by simp
    next
      case False
      from half_buffered_some [OF less.prems(1,2) False none less.prems(3)] obtain r1 t1 where
        h: "half_buffered B T (r, t) = Some (Ok (ready t1 \<noteq> []), (r1, t1))" "good t1 (pend r1)" "settled t1"
          "plain t1 (pend r1) = plain t (pend r)" "incoming r1 = incoming r" "br_capacity B r1 = br_capacity B r"
          "length (br_buffer B r1) < length (br_buffer B r)" by metis
      show ?thesis
      proof (cases "ready t1 = []")
        case some: False
        have "?read (r, t) = ?read (r1, t1)" using first h(1) some by (subst read_half_read.simps) (simp add: io_bind_def)
        from again [OF this _ h(2-4,6)] h(5,7) show ?thesis by simp
      next
        case True
        from h(4,6) less.prems(3,5) have more: "plain t1 (pend r1) \<noteq> []" "0 < br_capacity B r1" by simp_all
        have wait: "?read (r, t) = io_bind fill (\<lambda>_. ?read) (r1, t1)"
          using first h(1) True by (subst read_half_read.simps) (simp add: io_bind_def)
        show ?thesis
        proof (cases "incoming r1 = []")
          case end1: True
          then have p: "pend r1 = br_buffer B r1" by (simp add: pending_def)
          with more(1) h(2,3) True plain_end [of t1] have "br_buffer B r1 \<noteq> []" by auto
          with end1 True h(2-4) wait p have "waits n (r, t) (?read (r, t))"
            by (intro exI [of _ r1] exI [of _ t1]) simp
          then show ?thesis ..
        next
          case more_in: False
          from half_fill_some [OF h(2,3) more(1) True more(2) more_in] obtain k r2 t2 where
            f: "fill (r1, t1) = Some (Ok k, (r2, t2))" "good t2 (pend r2)" "settled t2"
              "plain t2 (pend r2) = plain t1 (pend r1)" "ready t2 = []" "br_capacity B r2 = br_capacity B r1"
              "length (incoming r2) + k = length (incoming r1)" "length (br_buffer B r2) = length (br_buffer B r1) + k" by metis
          have "?read (r, t) = ?read (r2, t2)" using wait f(1) by (simp add: io_bind_def)
          from again [OF this _ f(2,3)] f(4,6,7,8) h(4-7) show ?thesis by simp
        qed
      qed
    qed
  qed
qed

end

section \<open>A scripted TLS connection with records\<close>

text \<open>
  Ciphertext is plaintext in records of three bytes: nothing of a record can be read before all of it has
  arrived, and two bytes are taken from the transport at a time.
\<close>

definition records_in :: "toy_tls \<Rightarrow> nat" where
  "records_in t = 3 * (length (tt_in t) div 3)"

definition toy_records :: "('s, toy_tls) tls_io" where
  "toy_records = toy_tls_lib\<lparr>
     tl_process := (\<lambda>t. let n = records_in t;
         t = t\<lparr>tt_plain := tt_plain t @ take n (tt_in t), tt_in := drop n (tt_in t), tt_handshaking := False\<rparr>
       in Some (Ok (length (tt_plain t)), t)),
     tl_read_tls := (\<lambda>rd (s, t). map_option (\<lambda>(out, s'). (map_ok length out, s',
        (case out of Ok data \<Rightarrow> t\<lparr>tt_in := tt_in t @ data\<rparr> | _ \<Rightarrow> t))) (rd 2 s))\<rparr>"

definition whole_records :: "toy_tls \<Rightarrow> bytes \<Rightarrow> bool" where
  "whole_records t xs \<longleftrightarrow> 3 dvd length (tt_in t @ xs)"

definition records_plain :: "toy_tls \<Rightarrow> bytes \<Rightarrow> bytes" where
  "records_plain t xs = tt_plain t @ tt_in t @ xs"

definition records_settled :: "toy_tls \<Rightarrow> bool" where
  "records_settled t \<longleftrightarrow> length (tt_in t) < 3"

definition records_took :: "bytes \<Rightarrow> toy_tls \<Rightarrow> toy_tls" where
  "records_took data t = t\<lparr>tt_in := tt_in t @ data\<rparr>"

lemmas records_defs = whole_records_def records_plain_def records_settled_def records_took_def records_in_def

lemma three_dvd_Suc [simp]: "3 dvd Suc (Suc (Suc n)) \<longleftrightarrow> 3 dvd n"
  by presburger

interpretation toy_records: tls_opener toy_records tt_plain records_plain whole_records records_settled records_took
proof
  fix t :: toy_tls and xs data :: bytes and n :: nat
  show "(\<exists>n>0. \<forall>rd (s :: 'a). tl_read_tls toy_records rd (s, t) = map_option (\<lambda>(out, s'). (map_ok length out, s',
      case out of Ok data \<Rightarrow> records_took data t | _ \<Rightarrow> t)) (rd n s))
    \<or> records_plain t xs = [] \<and> (\<forall>rd (s :: 'a). tl_read_tls toy_records rd (s, t) = Some (Ok 0, (s, t)))"
    by (intro disjI1 exI [of _ 2]) (auto simp: toy_records_def records_took_def cong: result.case_cong)
  show "\<exists>t'. tl_process toy_records t = Some (Ok (length (tt_plain t')), t') \<and> whole_records t' xs \<and> records_settled t'
      \<and> records_plain t' xs = records_plain t xs" if "whole_records t xs"
  proof -
    have len: "length (tt_in t) - records_in t = length (tt_in t) mod 3"
      by (simp add: records_in_def minus_mult_div_eq_mod)
    have "3 dvd length (tt_in t) mod 3 + length xs \<longleftrightarrow> 3 dvd length (tt_in t) + length xs"
      by presburger
    with that len show ?thesis
      by (intro exI [of _ "t\<lparr>tt_plain := tt_plain t @ take (records_in t) (tt_in t), tt_in := drop (records_in t) (tt_in t), tt_handshaking := False\<rparr>"])
        (simp add: toy_records_def Let_def whole_records_def records_settled_def records_plain_def)
  qed
  show "whole_records (records_took data t) xs \<and> records_plain (records_took data t) xs = records_plain t (data @ xs)"
    if "whole_records t (data @ xs)" using that by (simp add: records_defs)
  show "\<exists>data t'. tl_read toy_records n t = Some (Ok data, t') \<and> data \<noteq> [] \<and> length data \<le> n \<and> whole_records t' xs
      \<and> (records_settled t \<longrightarrow> records_settled t') \<and> records_plain t xs = data @ records_plain t' xs"
    if "whole_records t xs" "tt_plain t \<noteq> []" "0 < n"
    using that by (auto simp: toy_records_def toy_tls_lib_def records_defs)
  show "tl_read toy_records n t \<in> {Some (Ok [], t), Some (Err (Kind KWouldBlock), t)}" if "tt_plain t = []"
    using that by (simp add: toy_records_def toy_tls_lib_def)
  show "records_plain t [] = tt_plain t" if "whole_records t []" "records_settled t"
    using that by (auto simp: records_defs dest: dvd_imp_le)
qed

text \<open>A socket that gives up to four of the bytes that are to come.\<close>

record coming_world = net_world +
  cw_coming :: bytes

definition coming_net :: "coming_world net_lib" where
  "coming_net = (script_net (\<lambda>_ _. None))\<lparr>nl_recv := (\<lambda>s n now w.
     let k = min n 4 in Some (Ok (take k (cw_coming w)), w\<lparr>cw_coming := drop k (cw_coming w)\<rparr>))\<rparr>"

interpretation toy_receiver: tls_receiver toy_records tt_plain records_plain whole_records records_settled records_took
    coming_net 0 cw_coming
  by unfold_locales (auto simp: coming_net_def script_net_def Let_def io_simps)

text \<open>
  The read half on a scripted reader, which waits for ever when all segments are used up; the write half may
  add to what is to be sent.
\<close>

definition half_script_fill :: "(script \<times> toy_tls, nat) act" where
  "half_script_fill s = (if script_incoming (fst s) = [] then None
     else map_option (\<lambda>(out, r). (out, r, (snd s)\<lparr>tt_out := tt_out (snd s) @ [0]\<rparr>)) (script_fill (fst s)))"

definition out_changed :: "toy_tls \<Rightarrow> toy_tls \<Rightarrow> bool" where
  "out_changed t t' \<longleftrightarrow> (\<exists>out. t' = t\<lparr>tt_out := out\<rparr>)"

interpretation toy_half_reader: tls_half toy_records tt_plain records_plain whole_records records_settled records_took
    script_ops script_incoming
  by unfold_locales

interpretation toy_split: tls_split toy_records tt_plain records_plain whole_records records_settled records_took
    script_ops script_incoming half_script_fill out_changed
proof unfold_locales
  fix r :: script and t t' :: toy_tls and xs :: bytes
  obtain k r' where f: "script_fill r = Some (Ok k, r')"
    using script.fill [of r] by (auto simp: script_ops_def)
  then show "\<exists>k r' t'. half_script_fill (r, t) = Some (Ok k, r', t') \<and> br_fill script_ops r = Some (Ok k, r') \<and> out_changed t t'"
    if "script_incoming r \<noteq> []"
    using that by (auto simp: half_script_fill_def out_changed_def script_ops_def)
  show "whole_records t' xs \<and> records_plain t' xs = records_plain t xs \<and> tt_plain t' = tt_plain t
      \<and> (records_settled t \<longrightarrow> records_settled t')" if "out_changed t t'" "whole_records t xs"
    using that by (auto simp: out_changed_def records_defs)
qed

section \<open>Properties\<close>

text \<open>C18: Reads on a TLS connection, with buffers of any sizes, return the plaintext of what the peer sends: all of
  it, in order and nothing else, however the ciphertext is cut by the network, and each read before the end
  returns at least one byte; when nothing is left, a read returns nothing.\<close>

theorem tls_recv_in_order:
  assumes tls: "tls_receiver T ready plain good settled took N socket coming"
    and state: "good t (coming w)" "settled t" and plaintext: "data = plain t (coming w)"
    and ns: "\<forall>n\<in>set ns. 0 < n" "0 < n" "length data \<le> length ns"
  shows "if data = [] then \<exists>s. tls_recv N T socket n (w, t) = Some (Ok [], s)
    else (\<exists>ms ks s. ns = ms @ ks \<and> reads (tls_recv N T socket) ms (w, t) = Some (Ok data, s))
      \<and> (\<exists>xs s. tls_recv N T socket n (w, t) = Some (Ok xs, s) \<and> xs \<noteq> [] \<and> length xs \<le> n)"
  using tls_receiver.recv_delivers [OF tls state ns(2)] tls_receiver.recv_all [OF tls state ns(1)] ns(3) plaintext
  by auto

theorem tls_recv_in_order_witness:
  "\<exists>ms s. set ms \<subseteq> {10} \<and> reads (tls_recv coming_net toy_records 0) ms
      (\<lparr>nw_events = [], nw_sockets = 1, cw_coming = [1, 2, 3, 4, 5, 6]\<rparr>,
       \<lparr>tt_out = [], tt_in = [], tt_plain = [9], tt_handshaking = False\<rparr>) = Some (Ok [9, 1, 2, 3, 4, 5, 6], s)"
proof -
  let ?w = "\<lparr>nw_events = [], nw_sockets = 1, cw_coming = [1, 2, 3, 4, 5, 6]\<rparr>"
  let ?t = "\<lparr>tt_out = [], tt_in = [], tt_plain = [9], tt_handshaking = False\<rparr>"
  have "if [9, 1, 2, 3, 4, 5, 6 :: u8] = [] then \<exists>s. tls_recv coming_net toy_records 0 10 (?w, ?t) = Some (Ok [], s)
    else (\<exists>ms ks s. replicate 7 10 = ms @ ks \<and> reads (tls_recv coming_net toy_records 0) ms (?w, ?t) = Some (Ok [9, 1, 2, 3, 4, 5, 6], s))
      \<and> (\<exists>data s. tls_recv coming_net toy_records 0 10 (?w, ?t) = Some (Ok data, s) \<and> data \<noteq> [] \<and> length data \<le> 10)"
    by (rule tls_recv_in_order [OF toy_receiver.tls_receiver_axioms]) (simp_all add: records_defs)
  then obtain ms ks s where ms: "replicate 7 10 = ms @ ks"
    and run: "reads (tls_recv coming_net toy_records 0) ms (?w, ?t) = Some (Ok [9, 1, 2, 3, 4, 5, 6], s)" by auto
  have "set ms \<subseteq> set (replicate 7 (10 :: nat))" unfolding ms by simp
  then have "set ms \<subseteq> {10}" by simp
  with run show ?thesis by blast
qed

text \<open>C40: A read on the read half of a split TLS connection, while there is plaintext to come and whatever the write
  half does to the shared connection meanwhile, ends in one of two ways: it returns the next piece of the
  plaintext, at least one byte of it; or it goes back to its socket after the peer has sent all it has,
  with ciphertext of that plaintext still unread in its buffer, and so hangs if the socket then gives nothing.
  In neither case is anything of the plaintext lost.\<close>

theorem read_half_in_order:
  assumes tls: "tls_split T ready plain good settled took B incoming fill touched"
    and state: "good t (pending B incoming r)" "settled t" "plain t (pending B incoming r) \<noteq> []"
    and "0 < n" "0 < br_capacity B r"
  shows "(\<exists>data r' t'. read_half_read B T fill (tl_read T n) (r, t) = Some (Ok data, (r', t'))
        \<and> data \<noteq> [] \<and> length data \<le> n \<and> plain t (pending B incoming r) = data @ plain t' (pending B incoming r')
        \<and> good t' (pending B incoming r') \<and> settled t')
    \<or> (\<exists>r' t'. incoming r' = [] \<and> br_buffer B r' \<noteq> [] \<and> ready t' = []
        \<and> plain t' (br_buffer B r') = plain t (pending B incoming r) \<and> good t' (br_buffer B r') \<and> settled t'
        \<and> read_half_read B T fill (tl_read T n) (r, t)
          = io_bind fill (\<lambda>_. read_half_read B T fill (tl_read T n)) (r', t'))"
  using tls_split.read_half_delivers [OF assms] by simp

text \<open>Both happen: the first reader still has bytes on the way, the second has all of a record in its buffer.\<close>

theorem read_half_in_order_witness:
  "(\<exists>data r' t'. read_half_read script_ops toy_records half_script_fill (tl_read (toy_records :: (script, toy_tls) tls_io) 2)
      (\<lparr>sc_buf = [1, 2], sc_free = 8, sc_rest = [[3, 4], [5, 6]]\<rparr>, \<lparr>tt_out = [], tt_in = [], tt_plain = [], tt_handshaking = False\<rparr>)
    = Some (Ok data, (r', t')) \<and> data \<noteq> [] \<and> length data \<le> 2 \<and> [1, 2, 3, 4, 5, 6] = data @ records_plain t' (pending script_ops script_incoming r'))
  \<and> read_half_read script_ops toy_records half_script_fill (tl_read (toy_records :: (script, toy_tls) tls_io) 2)
      (\<lparr>sc_buf = [1, 2, 3], sc_free = 5, sc_rest = []\<rparr>, \<lparr>tt_out = [], tt_in = [], tt_plain = [], tt_handshaking = False\<rparr>) = None"
proof -
  let ?r = "\<lparr>sc_buf = [1, 2], sc_free = 8, sc_rest = [[3, 4], [5, 6]]\<rparr>" and ?q = "\<lparr>sc_buf = [1, 2, 3], sc_free = 5, sc_rest = []\<rparr>"
  let ?t = "\<lparr>tt_out = [], tt_in = [], tt_plain = [], tt_handshaking = False\<rparr>"
  let ?read = "read_half_read script_ops toy_records half_script_fill (tl_read (toy_records :: (script, toy_tls) tls_io) 2)"
  note reads = tls_first_def half_buffered_def toy_records_def toy_tls_lib_def half_adapter_read_def script_ops_def
    script_incoming_def io_bind_def io_return_def on_tls_def io_zoom_def Let_def records_in_def half_script_fill_def script_fill_def
  have never: "half_script_fill (r, t) = None" if "script_incoming r = []" for r t
    using that by (simp add: half_script_fill_def)
  have some: "\<exists>data r' t'. ?read (?r, ?t) = Some (Ok data, (r', t'))"
    by (subst read_half_read.simps, simp add: reads, subst read_half_read.simps, simp add: reads,
        subst read_half_read.simps, simp add: reads)
  have p: "records_plain ?t (pending script_ops script_incoming ?r) = [1, 2, 3, 4, 5, 6]"
    by (simp add: records_defs pending_def script_ops_def script_incoming_def)
  have "whole_records ?t (pending script_ops script_incoming ?r)" "records_settled ?t" "0 < br_capacity script_ops ?r"
    by (simp_all add: records_defs pending_def script_ops_def script_incoming_def)
  from read_half_in_order [OF toy_split.tls_split_axioms this(1,2) _ _ this(3), of 2] p some never
  have "\<exists>data r' t'. ?read (?r, ?t) = Some (Ok data, (r', t')) \<and> data \<noteq> [] \<and> length data \<le> 2
      \<and> [1, 2, 3, 4, 5, 6] = data @ records_plain t' (pending script_ops script_incoming r')"
    by (auto simp: io_bind_def)
  moreover have "?read (?q, ?t) = None"
    by (subst read_half_read.simps) (simp add: reads)
  ultimately show ?thesis by blast
qed

text \<open>The read half goes back to its socket when the first part of its buffer completes no record, although the
  rest of the buffer may: if the peer has sent all it has and waits for an answer, the read never
  returns, with unread plaintext in the buffer.\<close>

theorem read_half_stalls:
  assumes tls: "tls_half T ready plain good settled took B incoming"
    and state: "good t (br_buffer B r)" "settled t" "ready t = []" and all: "incoming r = []"
    and unread: "plain t (br_buffer B r) \<noteq> []"
    and part: "half_buffered B T (r, t) = Some (Ok False, (r1, t1))"
    and waits: "fill (r1, t1) = None"
  shows "read_half_read B T fill (tl_read T n) (r, t) = None \<and> br_buffer B r1 \<noteq> []
    \<and> plain t1 (br_buffer B r1) = plain t (br_buffer B r)"
proof -
  note opener = tls_half.axioms(1) [OF tls]
  have pend: "pending B incoming r = br_buffer B r" by (simp add: pending_def all)
  have buf: "br_buffer B r \<noteq> []"
    using unread state tls_opener.plain_end [OF opener, of t] by auto
  obtain r2 t2 where h: "half_buffered B T (r, t) = Some (Ok (ready t2 \<noteq> []), (r2, t2))" "good t2 (pending B incoming r2)"
    "settled t2" "plain t2 (pending B incoming r2) = plain t (br_buffer B r)" "incoming r2 = incoming r"
    using tls_half.half_buffered_some [OF tls, of t r] state unread buf pend by metis
  with part have eq: "r2 = r1" "t2 = t1" "ready t1 = []" by auto
  then have rest: "pending B incoming r1 = br_buffer B r1" using h(5) all by (simp add: pending_def)
  have "br_buffer B r1 \<noteq> []"
    using h(2-4) eq rest unread tls_opener.plain_end [OF opener, of t1] by auto
  moreover have "read_half_read B T fill (tl_read T n) (r, t) = None"
    using tls_opener.tls_first_none [OF opener state(1,3), of n r] part waits
    by (subst read_half_read.simps) (simp add: io_bind_def)
  ultimately show ?thesis using h(4) eq rest by simp
qed

theorem read_half_stalls_witness:
  "read_half_read script_ops toy_records (\<lambda>_. None) (tl_read (toy_records :: (script, toy_tls) tls_io) 9)
      (\<lparr>sc_buf = [1, 2, 3], sc_free = 5, sc_rest = []\<rparr>, \<lparr>tt_out = [], tt_in = [], tt_plain = [], tt_handshaking = False\<rparr>) = None"
proof -
  let ?r = "\<lparr>sc_buf = [1, 2, 3], sc_free = 5, sc_rest = []\<rparr>"
  let ?t = "\<lparr>tt_out = [], tt_in = [], tt_plain = [], tt_handshaking = False\<rparr>"
  have "half_buffered script_ops toy_records (?r, ?t)
      = Some (Ok False, (\<lparr>sc_buf = [3], sc_free = 7, sc_rest = []\<rparr>, ?t\<lparr>tt_in := [1, 2]\<rparr>))"
    by (simp add: half_buffered_def toy_records_def half_adapter_read_def script_ops_def io_bind_def io_return_def on_tls_def
        io_zoom_def Let_def records_in_def)
  from read_half_stalls [OF toy_half_reader.tls_half_axioms, where fill = "\<lambda>_. None", OF _ _ _ _ _ this] show ?thesis
    by (simp add: records_defs script_ops_def script_incoming_def)
qed

text \<open>The end of the connection ends the data, also when the peer has not closed the TLS session: what a reader
  cannot tell from a connection that somebody cut is returned as a clean end.\<close>

theorem tls_cut_is_end:
  assumes "tl_read T n t = Some (Err (Kind KWouldBlock), t)"
    and "tl_read_tls T (\<lambda>n. nl_recv N socket n False) (w, t) = Some (Ok 0, (w', t'))"
  shows "tls_recv N T socket n (w, t) = Some (Ok [], (w', t'))"
  using assms
  by (simp add: tls_recv_def tls_read_def tls_first_def on_tls_def io_simps) (subst tls_read_loop.simps, simp add: io_simps)

theorem tls_cut_is_end_witness:
  "\<exists>s. tls_recv coming_net toy_records 0 5 (\<lparr>nw_events = [], nw_sockets = 1, cw_coming = []\<rparr>,
      \<lparr>tt_out = [], tt_in = [1, 2], tt_plain = [], tt_handshaking = False\<rparr>) = Some (Ok [], s)"
  using tls_cut_is_end [of toy_records 5 "\<lparr>tt_out = [], tt_in = [1, 2], tt_plain = [], tt_handshaking = False\<rparr>"
      coming_net 0 "\<lparr>nw_events = [], nw_sockets = 1, cw_coming = []\<rparr>"]
  by (auto simp: toy_records_def toy_tls_lib_def coming_net_def)

end
