(* ===== verification/Display.thy ===== *)
theory Display
  imports Ws_Frame Http_Transfer
begin

text \<open>
  How values are shown: \<open>Display\<close> for \<open>Frame\<close> and \<open>Version\<close>, \<open>Debug\<close> for \<open>ControlFrame\<close> and \<open>Stats\<close>
  (\<open>src/src/ws/mod.rs\<close>, \<open>http/mod.rs\<close>, \<open>http/stats.rs\<close>). A formatter of the standard library is given
  a tuple or a structure with its fields; how it lays them out is not part of the program.
\<close>

datatype fmt_arg = FBytes bytes | FStr bytes | FCode u16 | FCount u32 | FDuration nat

datatype fmt_call = DebugTuple string "fmt_arg list" | DebugStruct string "(string \<times> fmt_arg) list"

fun frame_display :: "Frame \<Rightarrow> fmt_call res" where
  "frame_display (F_Ping frame) = map_ok (\<lambda>data. DebugTuple ''Ping'' [FBytes data]) (control_data frame)"
| "frame_display (F_Pong frame) = map_ok (\<lambda>data. DebugTuple ''Pong'' [FBytes data]) (control_data frame)"
| "frame_display (F_Close code frame) = map_ok (\<lambda>data. DebugStruct ''Close''
     [(''code'', FCode code), (''message'', if utf8_valid data then FStr data else FBytes data)]) (control_data frame)"
| "frame_display (F_Text data) = Ok (DebugTuple ''Text'' [FStr data])"
| "frame_display (F_Binary data) = Ok (DebugTuple ''Text'' [FBytes data])"

definition control_debug :: "ControlFrame \<Rightarrow> fmt_call res" where
  "control_debug frame = map_ok (\<lambda>data. DebugTuple ''ControlFrame'' [FBytes data]) (control_data frame)"

definition version_display :: "Version \<Rightarrow> bytes" where
  "version_display v = version_str v"

definition stats_debug :: "Stats \<Rightarrow> fmt_call" where
  "stats_debug s = DebugStruct ''Stats''
     ((case st_connect s of
         Some c \<Rightarrow> [(''lookup'', FDuration (cs_dns_resolve c)), (''connect'', FDuration (cs_tcp_connect c)),
           (''tries'', FCount (cs_tcp_tries c))]
       | None \<Rightarrow> [])
      @ (case st_tls_connect s of Some tls \<Rightarrow> [(''tls'', FDuration tls)] | None \<Rightarrow> [])
      @ [(''stall'', FDuration (st_stall s)), (''wait'', FDuration (st_wait s)), (''response'', FDuration (st_response s))])"

text \<open>A frame that the reader can return is shown without a panic; the name does not tell text from binary.\<close>

definition wf_frame :: "Frame \<Rightarrow> bool" where
  "wf_frame f = (case f of F_Ping c \<Rightarrow> wf_control c | F_Pong c \<Rightarrow> wf_control c | F_Close _ c \<Rightarrow> wf_control c | _ \<Rightarrow> True)"

lemma frame_display_total: "wf_frame f \<Longrightarrow> \<exists>call. frame_display f = Ok call"
  by (cases f) (auto simp: wf_frame_def dest!: control_data_Ok)

theorem binary_shown_as_text: "\<exists>args. frame_display (F_Binary data) = Ok (DebugTuple ''Text'' args)"
  by simp

section \<open>Conversions\<close>

text \<open>\<open>From<&str>\<close> and \<open>From<&[u8]>\<close> for \<open>BorrowedFrame\<close>; \<open>Default\<close> and \<open>AsRef\<close> for \<open>ControlFrame\<close>.\<close>

definition borrowed_from_str :: "bytes \<Rightarrow> BorrowedFrame" where
  "borrowed_from_str s = frame_text s"

definition borrowed_from_slice :: "bytes \<Rightarrow> BorrowedFrame" where
  "borrowed_from_slice s = frame_binary s"

definition ControlFrame_default :: ControlFrame where
  "ControlFrame_default = ControlFrame_new"

definition control_as_ref :: "ControlFrame \<Rightarrow> bytes res" where
  "control_as_ref frame = control_data frame"

end
