(* ===== verification/File_Stream.thy ===== *)
theory File_Stream
  imports Url_Request Read_Stream
begin

text \<open>
  File requests: \<open>Request\<close> of \<open>src/src/file/request.rs\<close> and \<open>FileStream\<close> of
  \<open>src/src/file/stream.rs\<close>. The \<open>File\<close> of \<open>xx_pulse\<close> is a record of operations: \<open>fl_seek\<close> is
  \<open>seek(SeekFrom::Start(..))\<close>, \<open>fl_read_into\<close> the macro \<open>read_into!\<close>.
\<close>

record 'f file_lib =
  fl_open :: "bytes \<Rightarrow> 'f res"
  fl_stream_len :: "('f, u64) act"
  fl_seek :: "u64 \<Rightarrow> ('f, u64) act"
  fl_pos :: "'f \<Rightarrow> u64"
  fl_read :: "nat \<Rightarrow> ('f, bytes) act"
  fl_read_into :: "nat \<Rightarrow> nat \<Rightarrow> nat option"

section \<open>Requests\<close>

record 'u FileRequest =
  fr_inner :: "'u request_base"
  fr_start :: "u64 option"
  fr_end :: "u64 option"

definition file_request_new :: "('u, 'x) url_lib_scheme \<Rightarrow> bytes \<Rightarrow> 'u FileRequest" where
  "file_request_new U url =
     \<lparr>fr_inner = request_base_new U url (\<lambda>scheme. scheme = lit ''file''), fr_start = None, fr_end = None\<rparr>"

definition file_request_start :: "u64 \<Rightarrow> 'u FileRequest \<Rightarrow> 'u FileRequest" where
  "file_request_start start r = r\<lparr>fr_start := Some start\<rparr>"

definition file_request_end :: "u64 \<Rightarrow> 'u FileRequest \<Rightarrow> 'u FileRequest" where
  "file_request_end end r = r\<lparr>fr_end := Some end\<rparr>"

definition file_get :: "('u, 'x) url_lib_scheme \<Rightarrow> bytes \<Rightarrow> 'u FileRequest" where
  "file_get U url = file_request_new U url"

section \<open>FileStream\<close>

record 'f FileStream =
  fs_file :: 'f
  fs_start :: u64
  fs_end :: u64

definition on_file :: "('f, 'a) act \<Rightarrow> ('f FileStream, 'a) act" where
  "on_file m = io_zoom fs_file (\<lambda>f s. s\<lparr>fs_file := f\<rparr>) m"

definition file_open_range ::
  "('f, 'y) file_lib_scheme \<Rightarrow> u64 option \<Rightarrow> u64 option \<Rightarrow> ('f, u64 \<times> u64) act" where
  "file_open_range F rstart rend =
     io_bind (fl_stream_len F) (\<lambda>len.
     let start = (case rstart of Some pos \<Rightarrow> min pos len | None \<Rightarrow> 0);
         end = (case rend of Some pos \<Rightarrow> pos | None \<Rightarrow> len);
         end = max end start
     in io_bind (fl_seek F start) (\<lambda>_. io_return (start, end)))"

definition FileStream_new ::
  "('f, 'y) file_lib_scheme \<Rightarrow> ('u, 'x) url_lib_scheme \<Rightarrow> ('u FileRequest, 'f FileStream) act" where
  "FileStream_new F U =
     io_bind (io_zoom fr_inner (\<lambda>b r. r\<lparr>fr_inner := b\<rparr>) finalize) (\<lambda>url.
     io_bind (io_lift (fl_open F (ul_path U url))) (\<lambda>file r.
     case file_open_range F (fr_start r) (fr_end r) file of
       None \<Rightarrow> None
     | Some (out, file) \<Rightarrow>
         Some (map_ok (\<lambda>(start, end). \<lparr>fs_file = file, fs_start = start, fs_end = end\<rparr>) out, r)))"

definition file_request_run ::
  "('f, 'y) file_lib_scheme \<Rightarrow> ('u, 'x) url_lib_scheme \<Rightarrow> ('u FileRequest, 'f FileStream) act" where
  "file_request_run F U = FileStream_new F U"

text \<open>The two subtractions are unchecked in the source.\<close>

definition fs_len :: "'f FileStream \<Rightarrow> u64" where
  "fs_len s = fs_end s - fs_start s"

definition fs_pos :: "('f, 'y) file_lib_scheme \<Rightarrow> 'f FileStream \<Rightarrow> u64" where
  "fs_pos F s = fl_pos F (fs_file s) - fs_start s"

definition fs_read :: "('f, 'y) file_lib_scheme \<Rightarrow> nat \<Rightarrow> ('f FileStream, bytes) act" where
  "fs_read F n s =
     (let remaining = fs_len s - fs_pos F s in
      case fl_read_into F n (unat remaining) of
        None \<Rightarrow> io_return [] s
      | Some n' \<Rightarrow> on_file (fl_read F n') s)"

type_synonym i64 = "64 word"

datatype SeekFrom = SeekStart u64 | SeekEnd i64 | SeekCurrent i64

definition checked_add_signed :: "u64 \<Rightarrow> i64 \<Rightarrow> u64 option" where
  "checked_add_signed a b =
     (if 0 \<le> uint a + sint b \<and> uint a + sint b < 2 ^ 64 then Some (a + b) else None)"

text \<open>\<open>clamp\<close> panics when its bounds are the wrong way round.\<close>

definition clamp :: "u64 \<Rightarrow> u64 \<Rightarrow> u64 \<Rightarrow> u64 option" where
  "clamp v lo hi = (if hi < lo then None else Some (if v < lo then lo else if hi < v then hi else v))"

definition fs_target :: "('f, 'y) file_lib_scheme \<Rightarrow> SeekFrom \<Rightarrow> 'f FileStream \<Rightarrow> u64 option" where
  "fs_target F sk s =
     (case sk of
        SeekCurrent rel \<Rightarrow> checked_add_signed (fs_pos F s) rel
      | SeekStart pos \<Rightarrow> checked_add (fs_start s) pos
      | SeekEnd pos \<Rightarrow> checked_add_signed (fs_end s) pos)"

definition fs_seek :: "('f, 'y) file_lib_scheme \<Rightarrow> SeekFrom \<Rightarrow> ('f FileStream, u64) act" where
  "fs_seek F sk s =
     (case Option.bind (fs_target F sk s) (\<lambda>pos. clamp pos (fs_start s) (fs_end s)) of
        None \<Rightarrow> io_panic s
      | Some pos \<Rightarrow> on_file (fl_seek F pos) s)"

definition fs_stream_len :: "('f FileStream, u64) act" where
  "fs_stream_len = io_get fs_len"

definition fs_stream_position :: "('f, 'y) file_lib_scheme \<Rightarrow> ('f FileStream, u64) act" where
  "fs_stream_position F = io_get (fs_pos F)"

section \<open>Files\<close>

text \<open>
  What the source relies on for a file that does not change and is read without errors:
  \<open>content f\<close> are its bytes.
\<close>

locale file_source =
  fixes F :: "('f, 'y) file_lib_scheme" and content :: "'f \<Rightarrow> bytes"
  assumes small: "length (content f) < 2 ^ 64"
    and stream_len: "\<exists>f'. fl_stream_len F f = Some (Ok (word_of_nat (length (content f))), f') \<and> content f' = content f"
    and seek: "\<exists>f'. fl_seek F p f = Some (Ok p, f') \<and> fl_pos F f' = p \<and> content f' = content f"
    and read: "\<exists>xs f'. fl_read F n f = Some (Ok xs, f') \<and> length xs \<le> n \<and> content f' = content f
        \<and> (\<exists>ys. drop (unat (fl_pos F f)) (content f) = xs @ ys)
        \<and> unat (fl_pos F f') = unat (fl_pos F f) + length xs
        \<and> (xs = [] \<longleftrightarrow> n = 0 \<or> length (content f) \<le> unat (fl_pos F f))"
    and read_into: "fl_read_into F n limit = (if min n limit = 0 then None else Some (min n limit))"
begin

text \<open>The state of a stream in use: the position lies between the two ends.\<close>

definition fs_ok :: "'f FileStream \<Rightarrow> bool" where
  "fs_ok s \<longleftrightarrow> fs_start s \<le> fl_pos F (fs_file s) \<and> fl_pos F (fs_file s) \<le> fs_end s"

definition fs_holds :: "'f FileStream \<Rightarrow> bytes \<Rightarrow> bool" where
  "fs_holds s xs \<longleftrightarrow> fs_ok s \<and>
     xs = take (unat (fs_end s) - unat (fl_pos F (fs_file s))) (drop (unat (fl_pos F (fs_file s))) (content (fs_file s)))"

lemma fs_remaining:
  "fs_ok s \<Longrightarrow> unat (fs_len s - fs_pos F s) = unat (fs_end s) - unat (fl_pos F (fs_file s))"
  by (simp add: fs_ok_def fs_len_def fs_pos_def unat_sub)

lemma fs_pos_unat: "fs_ok s \<Longrightarrow> unat (fs_pos F s) = unat (fl_pos F (fs_file s)) - unat (fs_start s)"
  by (simp add: fs_ok_def fs_pos_def unat_sub)

lemma fs_read_holds:
  assumes "fs_holds s xs" and "0 < n"
  shows "\<exists>ys zs s'. fs_read F n s = Some (Ok ys, s') \<and> (ys = [] \<longleftrightarrow> xs = []) \<and> length ys \<le> n \<and> xs = ys @ zs
    \<and> fs_holds s' zs \<and> fs_start s' = fs_start s \<and> fs_end s' = fs_end s \<and> content (fs_file s') = content (fs_file s)"
proof -
  let ?p = "unat (fl_pos F (fs_file s))" and ?e = "unat (fs_end s)"
  have ok: "fs_ok s" and xs: "xs = take (?e - ?p) (drop ?p (content (fs_file s)))"
    using assms(1) by (simp_all add: fs_holds_def)
  note rem = fs_remaining [OF ok]
  show ?thesis
  proof (cases "?e - ?p = 0")
    case True
    with xs rem assms show ?thesis
      by (auto simp: fs_read_def read_into io_simps)
  next
    case False
    let ?n = "min n (?e - ?p)"
    obtain ys f' zs where r: "fl_read F ?n (fs_file s) = Some (Ok ys, f')" "length ys \<le> ?n"
      "content f' = content (fs_file s)" "drop ?p (content (fs_file s)) = ys @ zs"
      "unat (fl_pos F f') = ?p + length ys" "ys = [] \<longleftrightarrow> ?n = 0 \<or> length (content (fs_file s)) \<le> ?p"
      using read [of ?n "fs_file s"] by blast
    let ?s = "s\<lparr>fs_file := f'\<rparr>"
    have "?n \<noteq> 0" using False assms(2) by simp
    then have "fl_read_into F n (unat (fs_len s - fs_pos F s)) = Some ?n"
      unfolding rem read_into by (rule if_not_P)
    then have "fs_read F n s = Some (Ok ys, ?s)"
      using r(1) by (simp add: fs_read_def Let_def on_file_def)
    moreover have "xs = ys @ take (?e - ?p - length ys) zs"
      using xs r(2,4) by simp
    moreover have "fs_ok ?s"
      using ok r(2,5) unfolding fs_ok_def word_le_nat_alt by auto
    moreover have "drop (?p + length ys) (content (fs_file s)) = zs"
      using arg_cong [OF r(4), of "drop (length ys)"] by (simp add: add.commute)
    ultimately have "fs_holds ?s (take (?e - ?p - length ys) zs)" and "xs = ys @ take (?e - ?p - length ys) zs"
      using r(3,5) by (simp_all add: fs_holds_def)
    moreover have "ys = [] \<longleftrightarrow> xs = []"
      using r(6) \<open>?n \<noteq> 0\<close> False xs by auto
    ultimately show ?thesis
      using \<open>fs_read F n s = Some (Ok ys, ?s)\<close> r(2,3)
      by (intro exI [of _ ys] exI [of _ "take (?e - ?p - length ys) zs"] exI [of _ ?s]) simp
  qed
qed

lemma fs_seek_ok:
  assumes "fs_ok s" and "fs_target F sk s = Some p"
  shows "\<exists>s'. fs_seek F sk s = Some (Ok (max (fs_start s) (min p (fs_end s))), s') \<and> fs_ok s'
    \<and> fl_pos F (fs_file s') = max (fs_start s) (min p (fs_end s))
    \<and> fs_start s' = fs_start s \<and> fs_end s' = fs_end s \<and> content (fs_file s') = content (fs_file s)"
proof -
  let ?q = "max (fs_start s) (min p (fs_end s))"
  have le: "fs_start s \<le> fs_end s" using assms(1) by (auto simp: fs_ok_def)
  then have "clamp p (fs_start s) (fs_end s) = Some ?q"
    by (auto simp: clamp_def max_def min_def)
  moreover obtain f' where "fl_seek F ?q (fs_file s) = Some (Ok ?q, f')" "fl_pos F f' = ?q" "content f' = content (fs_file s)"
    using seek [of ?q "fs_file s"] by blast
  ultimately show ?thesis
    using assms le by (intro exI [of _ "s\<lparr>fs_file := f'\<rparr>"]) (auto simp: fs_seek_def on_file_def io_zoom_def fs_ok_def)
qed

text \<open>A new stream stands at its start.\<close>

lemma FileStream_new_range:
  assumes "fr_inner r = Ok u" and "fl_open F (ul_path U u) = Ok file"
    and "st = (case fr_start r of Some p \<Rightarrow> min p (word_of_nat (length (content file))) | None \<Rightarrow> 0)"
    and "en = max (case fr_end r of Some p \<Rightarrow> p | None \<Rightarrow> word_of_nat (length (content file))) st"
  shows "\<exists>s. FileStream_new F U r = Some (Ok s, r) \<and> fs_start s = st \<and> fs_end s = en
    \<and> fl_pos F (fs_file s) = st \<and> content (fs_file s) = content file \<and> fs_ok s"
proof -
  obtain f1 where l: "fl_stream_len F file = Some (Ok (word_of_nat (length (content file))), f1)"
    "content f1 = content file" using stream_len by blast
  obtain f2 where k: "fl_seek F st f1 = Some (Ok st, f2)" "fl_pos F f2 = st" "content f2 = content f1"
    using seek by blast
  have "file_open_range F (fr_start r) (fr_end r) file = Some (Ok (st, en), f2)"
    using l(1) k(1) assms(3,4) by (simp add: file_open_range_def Let_def io_simps)
  moreover have "r\<lparr>fr_inner := Ok u\<rparr> = r" using assms(1) by (metis FileRequest.surjective FileRequest.update_convs(1))
  ultimately have "FileStream_new F U r = Some (Ok \<lparr>fs_file = f2, fs_start = st, fs_end = en\<rparr>, r)"
    using assms(1,2) by (simp add: FileStream_new_def finalize_def io_simps)
  with l(2) k(2,3) assms(4) show ?thesis by (simp add: fs_ok_def)
qed

lemma FileStream_new_ok:
  assumes "FileStream_new F U r = Some (Ok s, r')"
  shows "fs_ok s"
proof -
  from assms obtain u where u: "fr_inner r = Ok u"
    by (cases "fr_inner r") (auto simp: FileStream_new_def finalize_def io_simps)
  then have "r\<lparr>fr_inner := Ok u\<rparr> = r" by (metis FileRequest.surjective FileRequest.update_convs(1))
  with u assms obtain fh where "fl_open F (ul_path U u) = Ok fh"
    by (cases "fl_open F (ul_path U u)") (auto simp: FileStream_new_def finalize_def io_simps)
  from FileStream_new_range [OF u this refl refl] assms show ?thesis by auto
qed

end

sublocale file_source \<subseteq> range: read_stream "fs_read F" fs_holds
proof
  show "fs_holds s xs \<Longrightarrow> 0 < n \<Longrightarrow> xs \<noteq> [] \<Longrightarrow>
      \<exists>ys zs s'. fs_read F n s = Some (Ok ys, s') \<and> ys \<noteq> [] \<and> length ys \<le> n \<and> xs = ys @ zs \<and> fs_holds s' zs" for s xs n
    using fs_read_holds [of s xs n] by blast
  show "fs_holds s [] \<Longrightarrow> 0 < n \<Longrightarrow> \<exists>s'. fs_read F n s = Some (Ok [], s') \<and> fs_holds s' []" for s n
    using fs_read_holds [of s "[]" n] by fastforce
qed

text \<open>A file held in memory.\<close>

record mem_file =
  mf_content :: bytes
  mf_pos :: u64

definition mf_bytes :: "mem_file \<Rightarrow> bytes" where
  "mf_bytes f = take (2 ^ 64 - 1) (mf_content f)"

definition mem_files :: "(bytes \<Rightarrow> bytes option) \<Rightarrow> mem_file file_lib" where
  "mem_files fs = \<lparr>
     fl_open = (\<lambda>path. map_ok (\<lambda>c. \<lparr>mf_content = c, mf_pos = 0\<rparr>) (ok_or (Foreign 2) (fs path))),
     fl_stream_len = io_get (\<lambda>f. word_of_nat (length (mf_bytes f))),
     fl_seek = (\<lambda>p f. Some (Ok p, f\<lparr>mf_pos := p\<rparr>)),
     fl_pos = mf_pos,
     fl_read = (\<lambda>n f. let xs = take n (drop (unat (mf_pos f)) (mf_bytes f))
        in Some (Ok xs, f\<lparr>mf_pos := mf_pos f + word_of_nat (length xs)\<rparr>)),
     fl_read_into = (\<lambda>n limit. if min n limit = 0 then None else Some (min n limit))\<rparr>"

lemma mf_bytes_pos [simp]: "mf_bytes (f\<lparr>mf_pos := p\<rparr>) = mf_bytes f"
  by (simp add: mf_bytes_def)

lemma mf_bytes_length: "length (mf_bytes f) < 2 ^ 64"
  by (simp add: mf_bytes_def)

interpretation mem_file: file_source "mem_files fs" mf_bytes
proof
  fix f :: mem_file and n
  let ?xs = "take n (drop (unat (mf_pos f)) (mf_bytes f))"
  have "unat (mf_pos f) < 2 ^ 64" by (rule order_less_le_trans, rule unsigned_less) simp
  then have "unat (mf_pos f) + length ?xs < 2 ^ 64"
    using mf_bytes_length [of f] by auto
  then have "unat (mf_pos f + word_of_nat (length ?xs)) = unat (mf_pos f) + length ?xs"
    by (simp add: unat_word_ariths unat_of_nat_u64)
  then show "\<exists>xs f'. fl_read (mem_files fs) n f = Some (Ok xs, f') \<and> length xs \<le> n \<and> mf_bytes f' = mf_bytes f
        \<and> (\<exists>ys. drop (unat (fl_pos (mem_files fs) f)) (mf_bytes f) = xs @ ys)
        \<and> unat (fl_pos (mem_files fs) f') = unat (fl_pos (mem_files fs) f) + length xs
        \<and> (xs = [] \<longleftrightarrow> n = 0 \<or> length (mf_bytes f) \<le> unat (fl_pos (mem_files fs) f))"
    by (intro exI [of _ ?xs] exI [of _ "f\<lparr>mf_pos := mf_pos f + word_of_nat (length ?xs)\<rparr>"])
      (auto simp: mem_files_def Let_def append_take_drop_id simp del: drop_drop intro!: exI [of _ "drop n (drop (unat (mf_pos f)) (mf_bytes f))"])
qed (use mf_bytes_length in \<open>auto simp: mem_files_def io_simps\<close>)

context file_source
begin

text \<open>A stream over a range reads what the file has of it.\<close>

lemma range_reads:
  assumes "fs_ok s" and "unat (fl_pos F (fs_file s)) = p" and "unat (fs_end s) = q"
    and "\<forall>n\<in>set ns. 0 < n" and "length (content (fs_file s)) < length ns"
  shows "\<exists>s'. reads (fs_read F) ns s = Some (Ok (take (q - p) (drop p (content (fs_file s)))), s')
    \<and> (\<forall>ms. (\<forall>n\<in>set ms. 0 < n) \<longrightarrow> (\<exists>t. reads (fs_read F) ms s' = Some (Ok [], t)))"
proof -
  let ?xs = "take (q - p) (drop p (content (fs_file s)))"
  have "fs_holds s ?xs" using assms(1-3) by (simp add: fs_holds_def)
  moreover have "length ?xs < length ns" using assms(5) by simp
  ultimately obtain s' where r: "reads (fs_read F) ns s = Some (Ok ?xs, s')" "fs_holds s' []"
    using range.reads_all assms(4) by blast
  then show ?thesis using range.reads_prefix [OF r(2)] by fastforce
qed

text \<open>Every operation keeps the position within the range, and the range itself.\<close>

lemma fs_read_ok:
  assumes "fs_ok s" and "fs_read F n s = Some (out, s')"
  shows "is_Ok out \<and> fs_ok s' \<and> fs_start s' = fs_start s \<and> fs_end s' = fs_end s"
proof (cases "n = 0")
  case True
  with assms show ?thesis by (auto simp: fs_read_def read_into io_simps)
next
  case False
  have "\<exists>xs. fs_holds s xs" using assms(1) by (simp add: fs_holds_def)
  with fs_read_holds [of s _ n] False assms(2) show ?thesis by (fastforce simp: fs_holds_def)
qed

end

section \<open>Use of a stream\<close>

text \<open>The calls a user of a stream can make.\<close>

inductive file_step :: "('f, 'y) file_lib_scheme \<Rightarrow> 'f FileStream \<Rightarrow> 'f FileStream \<Rightarrow> bool" for F where
  step_read: "fs_read F n s = Some (out, s') \<Longrightarrow> file_step F s s'"
| step_seek: "fs_seek F sk s = Some (out, s') \<Longrightarrow> file_step F s s'"

context file_source
begin

lemma file_step_ok:
  "file_step F s s' \<Longrightarrow> fs_ok s \<Longrightarrow> fs_ok s' \<and> fs_start s' = fs_start s \<and> fs_end s' = fs_end s"
proof (induction rule: file_step.induct)
  case (step_read n s out s')
  then show ?case using fs_read_ok by blast
next
  case (step_seek sk s out s')
  show ?case
  proof (cases "fs_target F sk s")
    case None
    with step_seek show ?thesis by (simp add: fs_seek_def io_simps)
  next
    case (Some p)
    with fs_seek_ok [of s sk p] step_seek show ?thesis by auto
  qed
qed

lemma file_steps_ok:
  "(file_step F)\<^sup>*\<^sup>* s s' \<Longrightarrow> fs_ok s \<Longrightarrow> fs_ok s' \<and> fs_start s' = fs_start s \<and> fs_end s' = fs_end s"
  by (induction rule: rtranclp_induct) (auto dest: file_step_ok)

end

section \<open>Properties\<close>

text \<open>C35: A file request with a range, run on the file its URL names, gives a stream whose reads return,
  in buffers of any sizes, the bytes from \<open>start\<close> (or from the end of the file, if that comes
  earlier) up to \<open>end\<close> or the end of the file, and then nothing.\<close>

theorem file_request_reads:
  assumes src: "file_source F content"
    and url: "request_base_new U url (\<lambda>scheme. scheme = lit ''file'') = Ok u" "fl_open F (ul_path U u) = Ok file"
    and ns: "\<forall>n\<in>set ns. 0 < n" "length (content file) < length ns"
  shows "\<exists>r s s'. r = file_request_end b (file_request_start a (file_get U url))
    \<and> file_request_run F U r = Some (Ok s, r)
    \<and> reads (fs_read F) ns s = Some (Ok (take (unat b - unat a) (drop (unat a) (content file))), s')
    \<and> (\<forall>ms. (\<forall>n\<in>set ms. 0 < n) \<longrightarrow> (\<exists>t. reads (fs_read F) ms s' = Some (Ok [], t)))"
proof -
  define r where r: "r = file_request_end b (file_request_start a (file_get U url))"
  let ?len = "word_of_nat (length (content file)) :: u64"
  have len: "unat ?len = length (content file)"
    using file_source.small [OF src, of "file"] by (rule unat_of_nat_u64)
  have fields: "fr_inner r = Ok u" "fr_start r = Some a" "fr_end r = Some b"
    using url(1) by (simp_all add: r file_request_end_def file_request_start_def file_get_def file_request_new_def)
  from file_source.FileStream_new_range [OF src this(1) url(2) refl refl] obtain s where
    s: "FileStream_new F U r = Some (Ok s, r)" "fs_end s = max b (min a ?len)" "fl_pos F (fs_file s) = min a ?len"
      "content (fs_file s) = content file" "file_source.fs_ok F s"
    by (auto simp: fields)
  have pos: "unat (min a ?len) = min (unat a) (length (content file))"
    "unat (max b (min a ?len)) = max (unat b) (min (unat a) (length (content file)))"
    by (simp_all add: min_def max_def word_le_nat_alt len)
  have "take (max (unat b) (min (unat a) (length (content file))) - min (unat a) (length (content file)))
      (drop (min (unat a) (length (content file))) (content file)) = take (unat b - unat a) (drop (unat a) (content file))"
    by (cases "unat a \<le> length (content file)") (auto simp: max_def)
  with file_source.range_reads [OF src s(5) refl refl ns(1)] ns(2) s pos r show ?thesis
    by (auto simp: file_request_run_def)
qed

theorem file_request_reads_witness:
  "\<exists>r s s'. r = file_request_end 3 (file_request_start 1 (file_get toy_urls (lit ''file:a'')))
    \<and> file_request_run (mem_files (\<lambda>_. Some (lit ''hello''))) toy_urls r = Some (Ok s, r)
    \<and> reads (fs_read (mem_files (\<lambda>_. Some (lit ''hello'')))) (replicate 6 1) s = Some (Ok (lit ''el''), s')"
proof -
  let ?F = "mem_files (\<lambda>_. Some (lit ''hello''))"
  have u: "request_base_new toy_urls (lit ''file:a'') (\<lambda>scheme. scheme = lit ''file'') = Ok (lit ''file:a'')"
    by (simp add: request_base_new_def toy_urls_def)
  have f: "fl_open ?F (ul_path toy_urls (lit ''file:a'')) = Ok \<lparr>mf_content = lit ''hello'', mf_pos = 0\<rparr>"
    by (simp add: mem_files_def)
  have n: "\<forall>n\<in>set (replicate 6 (1::nat)). 0 < n" "length (mf_bytes \<lparr>mf_content = lit ''hello'', mf_pos = 0\<rparr>) < length (replicate 6 (1::nat))"
    by (simp_all add: mf_bytes_def)
  have el: "take (unat (3::u64) - unat (1::u64)) (drop (unat (1::u64)) (mf_bytes \<lparr>mf_content = lit ''hello'', mf_pos = 0\<rparr>)) = lit ''el''"
    by (simp add: mf_bytes_def)
  show ?thesis
    using file_request_reads [OF mem_file.file_source_axioms, OF u, OF f, OF n, of 3 1] unfolding el
    by (elim exE conjE, intro exI conjI)
qed

text \<open>C22: The position of a stream stays between the two ends of its range whatever sequence of reads and
  seeks is made, so the unchecked subtractions never wrap; the position reported is the distance
  from the start and at most the length reported.\<close>

theorem file_stream_invariant:
  assumes src: "file_source F content"
    and new: "FileStream_new F U r = Some (Ok s, r')" and steps: "(file_step F)\<^sup>*\<^sup>* s s'"
  shows "fs_start s' = fs_start s \<and> fs_end s' = fs_end s
    \<and> fs_start s' \<le> fl_pos F (fs_file s') \<and> fl_pos F (fs_file s') \<le> fs_end s'
    \<and> unat (fs_pos F s') = unat (fl_pos F (fs_file s')) - unat (fs_start s')
    \<and> fs_pos F s' \<le> fs_len s'"
proof -
  have "file_source.fs_ok F s" by (rule file_source.FileStream_new_ok [OF src new])
  from file_source.file_steps_ok [OF src steps this] show ?thesis
    by (auto simp: file_source.fs_ok_def [OF src] fs_pos_def fs_len_def word_le_nat_alt unat_sub)
qed

theorem file_stream_invariant_witness:
  "\<exists>s s'. FileStream_new (mem_files (\<lambda>_. Some (lit ''hello''))) toy_urls
        (file_request_start 1 (file_get toy_urls (lit ''file:a'')))
      = Some (Ok s, file_request_start 1 (file_get toy_urls (lit ''file:a'')))
    \<and> fs_seek (mem_files (\<lambda>_. Some (lit ''hello''))) (SeekStart 9) s = Some (Ok 5, s') \<and> 1 \<le> mf_pos (fs_file s')"
proof -
  let ?F = "mem_files (\<lambda>_. Some (lit ''hello''))" and ?r = "file_request_start 1 (file_get toy_urls (lit ''file:a''))"
  let ?s = "\<lparr>fs_file = \<lparr>mf_content = lit ''hello'', mf_pos = 1\<rparr>, fs_start = 1, fs_end = 5\<rparr>"
  let ?t = "\<lparr>fs_file = \<lparr>mf_content = lit ''hello'', mf_pos = 5\<rparr>, fs_start = 1, fs_end = 5\<rparr>"
  have new: "FileStream_new ?F toy_urls ?r = Some (Ok ?s, ?r)"
    by (simp add: FileStream_new_def file_open_range_def file_get_def file_request_new_def file_request_start_def
        request_base_new_def finalize_def toy_urls_def mem_files_def mf_bytes_def io_simps)
  have seek: "fs_seek ?F (SeekStart 9) ?s = Some (Ok 5, ?t)"
    by (simp add: fs_seek_def fs_target_def checked_add_def clamp_def mem_files_def on_file_def io_zoom_def)
  then have "(file_step ?F)\<^sup>*\<^sup>* ?s ?t" by (intro r_into_rtranclp step_seek)
  from file_stream_invariant [OF mem_file.file_source_axioms new this] new seek show ?thesis by (auto simp: mem_files_def)
qed

text \<open>C36: A relative seek takes the distance from the start of the range for a position in the file: a seek by
  zero from the current position stays where it is only if the range begins at zero or the
  stream stands at its start.\<close>

theorem file_seek_current_moves:
  assumes src: "file_source F content"
    and ok: "fs_start s \<le> fl_pos F (fs_file s)" "fl_pos F (fs_file s) \<le> fs_end s"
  shows "\<exists>q s'. fs_seek F (SeekCurrent 0) s = Some (Ok q, s') \<and> q = max (fs_start s) (fs_pos F s)
    \<and> (fs_pos F s' = fs_pos F s \<longleftrightarrow> fs_start s = 0 \<or> fs_pos F s = 0)"
proof -
  have ok': "file_source.fs_ok F s" using ok by (simp add: file_source.fs_ok_def [OF src])
  have t: "fs_target F (SeekCurrent 0) s = Some (fs_pos F s)"
    using uint_lt2p [of "fs_pos F s"] by (simp add: fs_target_def checked_add_signed_def)
  from file_source.fs_seek_ok [OF src ok' t] obtain s' where
    s': "fs_seek F (SeekCurrent 0) s = Some (Ok (max (fs_start s) (min (fs_pos F s) (fs_end s))), s')"
      "fl_pos F (fs_file s') = max (fs_start s) (min (fs_pos F s) (fs_end s))" "fs_start s' = fs_start s" by blast
  have "fs_pos F s \<le> fs_end s"
    using ok by (simp add: fs_pos_def word_le_nat_alt unat_sub)
  then have m: "min (fs_pos F s) (fs_end s) = fs_pos F s" by (simp add: min_def)
  have "fs_pos F s' = max (fs_start s) (fs_pos F s) - fs_start s"
    using s'(2,3) by (simp add: fs_pos_def [of F s'] m)
  moreover have "max (fs_start s) (fs_pos F s) - fs_start s = fs_pos F s \<longleftrightarrow> fs_start s = 0 \<or> fs_pos F s = 0"
    by (cases "fs_start s \<le> fs_pos F s") (auto simp: max_def)
  ultimately show ?thesis using s'(1) by (simp add: m)
qed

theorem file_seek_current_moves_witness:
  "\<exists>s'. fs_seek (mem_files (\<lambda>_. None)) (SeekCurrent 0)
      \<lparr>fs_file = \<lparr>mf_content = lit ''hello'', mf_pos = 3\<rparr>, fs_start = 2, fs_end = 5\<rparr> = Some (Ok 2, s')
    \<and> fs_pos (mem_files (\<lambda>_. None)) s' \<noteq> 1"
  using file_seek_current_moves [OF mem_file.file_source_axioms,
      of "\<lparr>fs_file = \<lparr>mf_content = lit ''hello'', mf_pos = 3\<rparr>, fs_start = 2, fs_end = 5\<rparr>" "\<lambda>_. None"]
  by (auto simp: mem_files_def fs_pos_def max_def word_le_nat_alt)

end
