(* ===== verification/Spec2Isabelle.thy ===== *)
theory Spec2Isabelle
  imports Ws_Upgrade Ws_Session Http_Conn Http_Response Http_Bounds Http_Target Http_Request_Head Tls_Reading Display File_Stream
begin

text \<open>
  A verification development for \<open>xx-url\<close>, an asynchronous client library for HTTP, WebSocket and file URLs
  with a WebSocket server, its own DNS resolver and TLS connections (\<open>src/src\<close>).

  \<^bold>\<open>How the program works.\<close> A caller builds a request for a URL (\<open>request.rs\<close>, \<open>http/request.rs\<close>,
  \<open>ws/request.rs\<close>, \<open>file/request.rs\<close>) and runs it. For HTTP, \<open>transfer\<close> (\<open>http/transfer.rs\<close>) takes the resolver and the TLS
  configuration from the caches of \<open>env.rs\<close>, resolves the host (\<open>dns\<close>), connects (\<open>net/conn.rs\<close>,
  \<open>tls/conn.rs\<close>), sends the request, reads the head of the response and follows redirects; \<open>Response\<close>
  hands out the body (\<open>http/body.rs\<close>), which is read from the same connection. A WebSocket (\<open>ws\<close>)
  begins with such an exchange, checked by \<open>ws/transfer.rs\<close>, and then exchanges frames
  (\<open>ws/stream.rs\<close>, \<open>ws/wire.rs\<close>) through a reader and a writer that share a closing state. A file request opens
  a file and reads a range of it (\<open>file/stream.rs\<close>).

  \<^bold>\<open>How it is modelled.\<close> Asynchronous functions are functions from a state to a result and a new state, or
  to \<open>None\<close> when they never return (\<open>Prelude\<close>); every \<open>?\<close>, \<open>unwrap\<close>, slice bound and \<open>assert!\<close> is a branch:
  a result is \<open>Ok\<close>, \<open>Err\<close> or \<open>Panic\<close>. Loops that wait for a peer are \<open>partial_function (option)\<close>, so that
  returning is something to prove. Integers have their Rust width where they can wrap; durations are
  numbers. Code outside the repository (\<open>xx_core\<close>, \<open>xx_pulse\<close>, \<open>rustls\<close>, \<open>http\<close>, \<open>url\<close>, \<open>simple_dns\<close>, \<open>base64\<close>,
  \<open>rust-crypto\<close>) is a record of operations that the definitions take as an argument. What the code relies
  on is a locale over that record; theorems assume the locales they need, and each is interpreted on the model's
  own definitions or on a scripted environment that makes the hypotheses concrete.

  \<^bold>\<open>Theories and sources.\<close>

  \<^item> \<open>Prelude\<close>, \<open>Text\<close>: results, computations, the string functions of the standard library. \<open>Errors\<close>: \<open>error.rs\<close>,
    \<open>ws/errors.rs\<close>, \<open>http/error.rs\<close>, \<open>DnsError\<close>, \<open>Version\<close>. \<open>Io\<close>, \<open>Byte_Source\<close>: the buffered reader and what a
    connection delivers (locale \<open>byte_source\<close>). \<open>Read_Stream\<close>: the contract of \<open>Read\<close>, which \<open>Body\<close> and
    \<open>FileStream\<close> provide.
  \<^item> \<open>Http_Headers\<close>: \<open>Headers\<close> of \<open>http/mod.rs\<close>. \<open>Url_Request\<close>: \<open>request.rs\<close>, \<open>http/request.rs\<close> and the request
    and options of \<open>http/transfer.rs\<close>.
  \<^item> \<open>Http_Line\<close>, \<open>Http_Head\<close>: lines, header lines and the response head of \<open>http/transfer.rs\<close>.
    \<open>Http_Bounds\<close>: what a head may cost. \<open>Http_Body\<close>, \<open>Http_Body_Laws\<close>: \<open>http/body.rs\<close>.
  \<^item> \<open>Net_Addr\<close>: IP addresses. \<open>Dns_Lookup\<close>: \<open>dns/lookup.rs\<close>, \<open>dns/hosts.rs\<close>, \<open>dns/name_server.rs\<close>.
    \<open>Dns_Resolver\<close>: \<open>dns/resolver.rs\<close>, \<open>dns/config.rs\<close>.
  \<^item> \<open>Net_Conn\<close>: \<open>net/conn.rs\<close>. \<open>Tls_Conn\<close>, \<open>Tls_Laws\<close>, \<open>Tls_Reading\<close>: \<open>tls/conn.rs\<close>, sending and
    receiving. \<open>Env\<close>: \<open>env.rs\<close>, \<open>tls/certs.rs\<close>. \<open>Http_Conn\<close>: \<open>HttpConn\<close>
    of \<open>http/stream.rs\<close> and the halves of a split connection.
  \<^item> \<open>Http_Transfer\<close>, \<open>Transfer_Laws\<close>, \<open>Http_Client\<close>, \<open>Http_Response\<close>: the client of \<open>http/transfer.rs\<close>,
    \<open>http/request.rs\<close>, \<open>http/response.rs\<close>, \<open>http/stats.rs\<close>. \<open>Http_Target\<close>: where a connection goes, over resolver, TCP and TLS.
    \<open>Http_Request_Head\<close>: the head of a request, from the builders to the bytes sent.
  \<^item> \<open>File_Stream\<close>: \<open>file/request.rs\<close>, \<open>file/stream.rs\<close>. \<open>Display\<close>: what values give to a formatter.
  \<^item> \<open>Ws_Wire\<close>: \<open>ws/wire.rs\<close> and the frame header of \<open>ws/stream.rs\<close>. \<open>Ws_Mask\<close>, \<open>Ws_Frame\<close>: \<open>ws/mod.rs\<close>. \<open>Ws_Shared\<close>: the closing
    state and the options. \<open>Ws_Reader\<close>, \<open>Ws_Reader_Inv\<close>, \<open>Ws_Reader_Laws\<close>: the reader. \<open>Ws_Writer\<close>: the writer.
    \<open>Ws_Conn\<close>: \<open>WebSocket\<close> of \<open>ws/conn.rs\<close> and its halves. \<open>Ws_Session\<close>: the calls on it in any order.
  \<^item> \<open>Ws_Handshake\<close>, \<open>Ws_Handshake_Laws\<close>, \<open>Key_Codec\<close>, \<open>Ws_Upgrade\<close>: \<open>ws/handshake.rs\<close>, \<open>ws/transfer.rs\<close>, \<open>ws/request.rs\<close> and
    the server of \<open>ws/conn.rs\<close>.

  \<^bold>\<open>State.\<close> A reader's state is the \<open>BufReader\<close> with the connection below it; \<open>pending\<close> are the bytes it has and will
    get. \<open>ws_reader\<close>, \<open>ws_writer\<close> and \<open>shared\<close> have the fields of \<open>Reader\<close>, \<open>Writer\<close> and \<open>Shared\<close>; \<open>Body\<close> those of \<open>Body\<close>. \<open>transfer\<close> works
    on the request and the system's state \<open>'w\<close>. The tasks of \<open>Env\<close> are the state of a step relation, one step for each
    stretch of code in which a task is not suspended.

  \<^bold>\<open>What is shown.\<close>

  \<^item> End to end: a message sent in fragments by \<open>send_frame\<close> is delivered whole by \<open>next_frame\<close> at the peer; \<open>fetch\<close>
    returns the status, the headers and exactly the content the server sent, for every way of delimiting a body;
    a client and a server of the library complete the opening handshake and no byte behind it is lost.
  \<^item> Round trips and equivalences: frame headers, masking against the bytewise specification, chunked bodies
    under any segmentation and any buffer sizes.
  \<^item> Transport: the address, port and options of a connection; TLS delivers the plaintext of the peer in order and
    loses no ciphertext it queues; the read half of a split connection loses none of the plaintext, and gives its next
    piece or waits for the socket.
  \<^item> Types: the headers of a request are valid names and values, and its head has no lines but those meant.
  \<^item> Safety: the frames a reader returns, redirects that stay within their limit and scheme, TLS exactly
    for \<open>https\<close> and only with the handshake done on every connection of a transfer, \<open>connect\<close> only after a matching accept value, DNS answers only
    for the query's id and with exactly the records of its type and class.
  \<^item> Bounds: the bytes a response head may take, the length of messages and frames, the number of redirects.
  \<^item> Invariants and progress: the frames of a WebSocket session, also after failed receives, the position of a file stream,
    the caches of \<open>Env\<close>, shared by all tasks and never stuck until a creation fails and poisons the mutex, reads of a body that
    always return.
  \<^item> Errors: truncated bodies, refused upgrades, connection attempts in order with the last error.
  \<^item> Theorems that show where the code does not do what it should: lines that come in three pieces, the read half of
    a TLS connection waiting with data in its buffer and at its end, TLS connections cut by somebody else,
    ciphertext dropped by the write half, the \<open>Host\<close> header after a redirect, relative seeks,
    records for other names, discarded frames, the reason of a close frame, a continuation after an error.

  \<^bold>\<open>Bounds.\<close> No fuel is used. The redirect loop recurses on the redirects that remain, which the code counts down
  (\<open>follow_redirect\<close>, at most \<open>2 ^ 32\<close>); the three rounds of the resolver and the addresses of a host are
  recursions on a number and a list. Theorems about a head ask that it is in the reader's buffer after one
  \<open>fill\<close>, since \<open>read_line_in_place\<close> is wrong when a line comes in three pieces.

  \<^bold>\<open>Not modelled.\<close> Logging, and the layout of what is displayed; the declarations of the traits of \<open>http/stream.rs\<close>; the log of the peer's certificate. \<open>rand::random\<close> and the clock are read from the
  environment. Cancellation of a task is an error of the operation it waits for;
  for the mutex of \<open>Env\<close> that is a panic, as poisoning is. A timeout is an operation of
  the environment that gives the result of the computation or \<open>None\<close>.
\<close>

end
